(* ===== verification/Prelude.thy ===== *)
theory Prelude
  imports Main "HOL-Library.Word" "HOL-Library.Sublist"
begin

text \<open>
  The prelude of the development: what every component shares.

  \<^item> Go's \<^verbatim>\<open>string\<close> and \<^verbatim>\<open>[]byte\<close> are both byte sequences; a byte is an Isabelle
    \<^typ>\<open>char\<close> (eight bits), so both are \<^typ>\<open>char list\<close> and the conversions between them
    are the identity.
  \<^item> The parts of the packages \<^verbatim>\<open>strings\<close>, \<^verbatim>\<open>strconv\<close>, \<^verbatim>\<open>net\<close> and
    \<^verbatim>\<open>encoding/binary\<close> that the source uses, with the laws the components rest on.
  \<^item> Fallible operations return \<open>'e + 'a\<close>; \<open>Inl\<close> is Go's non-nil error.
\<close>

named_theorems go_simps \<open>evaluation rules of the Go library functions\<close>
named_theorems wire_simps \<open>rewrite rules for byte-level encoders and decoders\<close>

type_synonym byte = char
type_synonym bytes = "char list"

text \<open>Isabelle numerals for the constructors used as bytes.\<close>

abbreviation byte_of :: "nat \<Rightarrow> byte" where
  "byte_of n \<equiv> char_of n"

abbreviation nat_of_byte :: "byte \<Rightarrow> nat" where
  "nat_of_byte c \<equiv> of_char c"


section \<open>Results\<close>

text \<open>Sequencing of fallible operations: the first error is returned.\<close>

fun rbind :: "'e + 'a \<Rightarrow> ('a \<Rightarrow> 'e + 'b) \<Rightarrow> 'e + 'b" where
  "rbind (Inl e) f = Inl e"
| "rbind (Inr x) f = f x"

lemma rbind_eq_Inr_iff [simp]: "rbind r f = Inr y \<longleftrightarrow> (\<exists>x. r = Inr x \<and> f x = Inr y)"
  by (cases r) auto

lemma rbind_eq_Inl_iff: "rbind r f = Inl e \<longleftrightarrow> r = Inl e \<or> (\<exists>x. r = Inr x \<and> f x = Inl e)"
  by (cases r) auto

definition is_ok :: "'e + 'a \<Rightarrow> bool" where
  "is_ok r \<longleftrightarrow> (case r of Inl _ \<Rightarrow> False | Inr _ \<Rightarrow> True)"

lemma is_ok_simps [simp]: "is_ok (Inr x)" "\<not> is_ok (Inl e)"
  by (simp_all add: is_ok_def)

lemma is_ok_iff: "is_ok r \<longleftrightarrow> (\<exists>x. r = Inr x)"
  by (cases r) auto

text \<open>A pointer to a boolean flag, read as Go code reads it: nil is false.\<close>

definition flag_set :: "bool option \<Rightarrow> bool" where
  "flag_set p \<longleftrightarrow> p = Some True"

lemma flag_set_simps [simp]: "\<not> flag_set None" "flag_set (Some b) = b"
  by (simp_all add: flag_set_def)


section \<open>Strings\<close>

subsection \<open>Trimming\<close>

text \<open>
  \<^verbatim>\<open>strings.TrimSpace\<close> removes leading and trailing Unicode white space. A string is its
  UTF-8 bytes, so the white-space code points are listed by their encodings. An encoding
  is a prefix (suffix) of the string exactly when the first (last) rune is that code point.
\<close>

definition space_runes :: "string list" where
  "space_runes =
    [[CHR 0x20], [CHR 0x09], [CHR 0x0A], [CHR 0x0B], [CHR 0x0C], [CHR 0x0D],
     [CHR 0xC2, CHR 0x85], [CHR 0xC2, CHR 0xA0], [CHR 0xE1, CHR 0x9A, CHR 0x80],
     [CHR 0xE2, CHR 0x80, CHR 0x80], [CHR 0xE2, CHR 0x80, CHR 0x81],
     [CHR 0xE2, CHR 0x80, CHR 0x82], [CHR 0xE2, CHR 0x80, CHR 0x83],
     [CHR 0xE2, CHR 0x80, CHR 0x84], [CHR 0xE2, CHR 0x80, CHR 0x85],
     [CHR 0xE2, CHR 0x80, CHR 0x86], [CHR 0xE2, CHR 0x80, CHR 0x87],
     [CHR 0xE2, CHR 0x80, CHR 0x88], [CHR 0xE2, CHR 0x80, CHR 0x89],
     [CHR 0xE2, CHR 0x80, CHR 0x8A], [CHR 0xE2, CHR 0x80, CHR 0xA8],
     [CHR 0xE2, CHR 0x80, CHR 0xA9], [CHR 0xE2, CHR 0x80, CHR 0xAF],
     [CHR 0xE2, CHR 0x81, CHR 0x9F], [CHR 0xE3, CHR 0x80, CHR 0x80]]"

definition strip_one :: "string list \<Rightarrow> string \<Rightarrow> string option" where
  "strip_one ps s =
     map_option (\<lambda>p. drop (length p) s) (find (\<lambda>p. p \<noteq> [] \<and> prefix p s) ps)"

lemma find_SomeD: "find P xs = Some x \<Longrightarrow> P x \<and> x \<in> set xs"
  by (induction xs) (auto split: if_splits)

lemma strip_one_shorter: "strip_one ps s = Some r \<Longrightarrow> length r < length s"
  by (auto simp: strip_one_def dest!: find_SomeD) (metis diff_less length_greater_0_conv prefix_bot.extremum_uniqueI)

function trim_left :: "string list \<Rightarrow> string \<Rightarrow> string" where
  "trim_left ps s = (case strip_one ps s of None \<Rightarrow> s | Some r \<Rightarrow> trim_left ps r)"
  by pat_completeness auto
termination
  by (relation "measure (\<lambda>(ps, s). length s)") (auto dest: strip_one_shorter)

declare trim_left.simps [simp del]

definition trim_space :: "string \<Rightarrow> string" where
  "trim_space s = rev (trim_left (map rev space_runes) (rev (trim_left space_runes s)))"

lemma strip_one_suffix: "strip_one ps s = Some r \<Longrightarrow> suffix r s"
  by (auto simp: strip_one_def suffix_drop)

lemma strip_one_None_iff: "strip_one ps s = None \<longleftrightarrow> (\<forall>p\<in>set ps. p = [] \<or> \<not> prefix p s)"
  by (auto simp: strip_one_def find_None_iff)

lemma trim_left_suffix: "suffix (trim_left ps s) s"
proof (induction ps s rule: trim_left.induct)
  case (1 ps s)
  then show ?case
    by (subst trim_left.simps)
      (auto split: option.splits dest: strip_one_suffix intro: suffix_order.trans)
qed

lemma trim_left_stops: "strip_one ps (trim_left ps s) = None"
proof (induction ps s rule: trim_left.induct)
  case (1 ps s)
  then show ?case
    by (subst trim_left.simps) (auto split: option.splits)
qed

lemma trim_left_id: "strip_one ps s = None \<Longrightarrow> trim_left ps s = s"
  by (subst trim_left.simps) simp

lemma strip_one_prefix_None: "strip_one ps s = None \<Longrightarrow> prefix t s \<Longrightarrow> strip_one ps t = None"
  by (auto simp: strip_one_None_iff intro: prefix_order.trans)

text \<open>Trimming leaves a string with no white space at either end, so it is idempotent.\<close>

lemma trim_space_left: "strip_one space_runes (trim_space s) = None"
proof -
  let ?t = "trim_left space_runes s"
  have "prefix (trim_space s) ?t"
    using trim_left_suffix [of "map rev space_runes" "rev ?t"]
    by (simp add: trim_space_def suffix_to_prefix)
  with trim_left_stops show ?thesis
    by (rule strip_one_prefix_None)
qed

lemma trim_space_right: "strip_one (map rev space_runes) (rev (trim_space s)) = None"
  by (simp add: trim_space_def trim_left_stops)

lemma trim_space_idem [simp]: "trim_space (trim_space s) = trim_space s"
proof -
  have "trim_left space_runes (trim_space s) = trim_space s"
    by (rule trim_left_id [OF trim_space_left])
  moreover have "trim_left (map rev space_runes) (rev (trim_space s)) = rev (trim_space s)"
    by (rule trim_left_id [OF trim_space_right])
  ultimately show ?thesis
    by (subst trim_space_def) simp
qed

lemma trim_space_length: "length (trim_space s) \<le> length s"
proof -
  have "length (trim_left ps t) \<le> length t" for ps t
    using trim_left_suffix by (rule suffix_length_le)
  then show ?thesis
    unfolding trim_space_def by (metis length_rev order_trans)
qed

text \<open>A string of printable ASCII characters is not changed.\<close>

definition graphic :: "char \<Rightarrow> bool" where
  "graphic c \<longleftrightarrow> 33 \<le> nat_of_byte c \<and> nat_of_byte c \<le> 126"

lemma space_rune_not_graphic: "p \<in> set space_runes \<Longrightarrow> p \<noteq> [] \<and> \<not> graphic (hd p) \<and> \<not> graphic (last p)"
  by (auto simp: space_runes_def graphic_def)

lemma strip_one_graphic:
  assumes "\<And>p. p \<in> set ps \<Longrightarrow> p \<noteq> [] \<and> \<not> graphic (hd p)" and "s = [] \<or> graphic (hd s)"
  shows "strip_one ps s = None"
  unfolding strip_one_None_iff
proof (intro ballI)
  fix p assume "p \<in> set ps"
  with assms(1) have "p \<noteq> []" "\<not> graphic (hd p)" by auto
  with assms(2) show "p = [] \<or> \<not> prefix p s"
    by (cases p; cases s) auto
qed

lemma trim_space_graphic:
  assumes "s = [] \<or> graphic (hd s) \<and> graphic (last s)"
  shows "trim_space s = s"
proof -
  have "trim_left space_runes s = s"
    using assms by (intro trim_left_id strip_one_graphic) (auto dest: space_rune_not_graphic)
  moreover have "trim_left (map rev space_runes) (rev s) = rev s"
    using assms by (intro trim_left_id strip_one_graphic)
      (auto dest: space_rune_not_graphic simp: hd_rev)
  ultimately show ?thesis
    by (simp add: trim_space_def)
qed

lemma trim_space_Nil [simp]: "trim_space [] = []"
  by (simp add: trim_space_graphic)

lemma trim_space_all_graphic: "list_all graphic s \<Longrightarrow> trim_space s = s"
  by (rule trim_space_graphic) (auto simp: list_all_iff)


subsection \<open>Splitting and joining\<close>

text \<open>\<^verbatim>\<open>strings.Split\<close> with a one-byte separator, and \<^verbatim>\<open>strings.Join\<close>.\<close>

fun split_on :: "char \<Rightarrow> string \<Rightarrow> string list" where
  "split_on c [] = [[]]"
| "split_on c (x # xs) =
     (if x = c then [] # split_on c xs
      else (case split_on c xs of [] \<Rightarrow> [[x]] | y # ys \<Rightarrow> (x # y) # ys))"

fun join :: "string \<Rightarrow> string list \<Rightarrow> string" where
  "join sep [] = []"
| "join sep [x] = x"
| "join sep (x # y # zs) = x @ sep @ join sep (y # zs)"

lemma split_on_nonempty [simp]: "split_on c s \<noteq> []"
  by (induction s) (auto split: list.splits)

lemma split_on_parts: "\<forall>p\<in>set (split_on c s). c \<notin> set p"
  by (induction s) (auto split: list.splits)

lemma join_Cons: "xs \<noteq> [] \<Longrightarrow> join sep (x # xs) = x @ sep @ join sep xs"
  by (cases xs) auto

lemma join_split_on: "join [c] (split_on c s) = s"
proof (induction s)
  case (Cons x xs)
  then show ?case
  proof (cases "split_on c xs")
    case (Cons y ys)
    then show ?thesis
      using Cons.IH by (cases ys) (auto simp: join_Cons)
  qed simp
qed simp

lemma split_on_append:
  assumes "c \<notin> set p"
  shows "split_on c (p @ c # s) = p # split_on c s"
  using assms by (induction p) auto

lemma split_on_no_sep: "c \<notin> set p \<Longrightarrow> split_on c p = [p]"
  by (induction p) auto

lemma split_on_join:
  assumes "ps \<noteq> []" and "\<forall>p\<in>set ps. c \<notin> set p"
  shows "split_on c (join [c] ps) = ps"
  using assms
proof (induction ps)
  case (Cons p ps)
  then show ?case
    by (cases ps) (auto simp: split_on_no_sep split_on_append)
qed simp


subsection \<open>Prefixes, suffixes and characters\<close>

definition has_prefix :: "string \<Rightarrow> string \<Rightarrow> bool" where
  "has_prefix s p \<longleftrightarrow> take (length p) s = p"

definition trim_prefix :: "string \<Rightarrow> string \<Rightarrow> string" where
  "trim_prefix s p = (if has_prefix s p then drop (length p) s else s)"

definition has_suffix :: "string \<Rightarrow> string \<Rightarrow> bool" where
  "has_suffix s p \<longleftrightarrow> has_prefix (rev s) (rev p)"

definition trim_suffix :: "string \<Rightarrow> string \<Rightarrow> string" where
  "trim_suffix s p = (if has_suffix s p then take (length s - length p) s else s)"

lemma has_prefix_iff: "has_prefix s p \<longleftrightarrow> (\<exists>t. s = p @ t)"
  unfolding has_prefix_def by (metis append_eq_conv_conj append_take_drop_id)

lemma has_prefix_append [simp]: "has_prefix (p @ s) p"
  by (simp add: has_prefix_def)

lemma has_suffix_iff: "has_suffix s p \<longleftrightarrow> (\<exists>t. s = t @ p)"
  unfolding has_suffix_def has_prefix_iff by (metis rev_append rev_rev_ident)

lemma trim_suffix_append [simp]: "trim_suffix (s @ p) p = s"
  by (auto simp: trim_suffix_def has_suffix_iff)

lemma trim_suffix_length: "length (trim_suffix s p) \<le> length s"
  by (simp add: trim_suffix_def)

text \<open>\<^verbatim>\<open>strings.IndexByte\<close>, as the bytes before and after the first occurrence.\<close>

fun cut_byte :: "char \<Rightarrow> string \<Rightarrow> (string \<times> string) option" where
  "cut_byte c [] = None"
| "cut_byte c (x # xs) =
     (if x = c then Some ([], xs) else map_option (\<lambda>(a, b). (x # a, b)) (cut_byte c xs))"

lemma cut_byte_Some_iff: "cut_byte c s = Some (a, b) \<longleftrightarrow> s = a @ c # b \<and> c \<notin> set a"
proof (induction s arbitrary: a)
  case (Cons x xs)
  then show ?case
    by (cases a) auto
qed simp

lemma cut_byte_None_iff: "cut_byte c s = None \<longleftrightarrow> c \<notin> set s"
  by (induction s) auto

text \<open>The last occurrence, for \<^verbatim>\<open>LastIndexByte\<close>.\<close>

definition cut_last :: "char \<Rightarrow> string \<Rightarrow> (string \<times> string) option" where
  "cut_last c s = map_option (\<lambda>(a, b). (rev b, rev a)) (cut_byte c (rev s))"

lemma cut_last_Some_iff: "cut_last c s = Some (a, b) \<longleftrightarrow> s = a @ c # b \<and> c \<notin> set b"
proof -
  have "cut_last c s = Some (a, b) \<longleftrightarrow> cut_byte c (rev s) = Some (rev b, rev a)"
    by (auto simp: cut_last_def)
  also have "\<dots> \<longleftrightarrow> rev s = rev b @ c # rev a \<and> c \<notin> set b"
    by (simp add: cut_byte_Some_iff)
  also have "\<dots> \<longleftrightarrow> s = a @ c # b \<and> c \<notin> set b"
    by (metis append.assoc append_Cons append_Nil rev.simps(2) rev_append rev_rev_ident)
  finally show ?thesis .
qed

lemma cut_last_None_iff: "cut_last c s = None \<longleftrightarrow> c \<notin> set s"
  by (simp add: cut_last_def cut_byte_None_iff)

text \<open>
  \<^verbatim>\<open>strings.ToLower\<close> and \<^verbatim>\<open>strings.ToUpper\<close> on ASCII. Bytes from 0x80 on are left as they
  are: the Unicode case tables are not modelled, so both are exact on ASCII strings.
\<close>

definition lower_char :: "char \<Rightarrow> char" where
  "lower_char c = (if 65 \<le> nat_of_byte c \<and> nat_of_byte c \<le> 90 then byte_of (nat_of_byte c + 32) else c)"

definition upper_char :: "char \<Rightarrow> char" where
  "upper_char c = (if 97 \<le> nat_of_byte c \<and> nat_of_byte c \<le> 122 then byte_of (nat_of_byte c - 32) else c)"

definition to_lower :: "string \<Rightarrow> string" where
  "to_lower s = map lower_char s"

definition to_upper :: "string \<Rightarrow> string" where
  "to_upper s = map upper_char s"

lemma lower_char_idem [simp]: "lower_char (lower_char c) = lower_char c"
  by (auto simp: lower_char_def)

lemma upper_char_idem [simp]: "upper_char (upper_char c) = upper_char c"
  by (auto simp: upper_char_def)

lemma to_lower_idem [simp]: "to_lower (to_lower s) = to_lower s"
  by (simp add: to_lower_def)

lemma to_upper_idem [simp]: "to_upper (to_upper s) = to_upper s"
  by (simp add: to_upper_def)

lemma to_lower_append: "to_lower (s @ t) = to_lower s @ to_lower t"
  by (simp add: to_lower_def)

lemma length_to_lower [simp]: "length (to_lower s) = length s"
  by (simp add: to_lower_def)


section \<open>Numbers as text\<close>

text \<open>\<^verbatim>\<open>strconv.FormatUint(n, 10)\<close>: decimal digits without leading zeros.\<close>

fun format_nat :: "nat \<Rightarrow> string" where
  "format_nat n = (if n < 10 then [byte_of (48 + n)] else format_nat (n div 10) @ [byte_of (48 + n mod 10)])"

declare format_nat.simps [simp del]

definition is_digit :: "char \<Rightarrow> bool" where
  "is_digit c \<longleftrightarrow> 48 \<le> nat_of_byte c \<and> nat_of_byte c \<le> 57"

definition digits_value :: "string \<Rightarrow> nat" where
  "digits_value s = foldl (\<lambda>n c. 10 * n + (nat_of_byte c - 48)) 0 s"

text \<open>A non-empty string of decimal digits, read as a number.\<close>

definition parse_digits :: "string \<Rightarrow> nat option" where
  "parse_digits s = (if s \<noteq> [] \<and> list_all is_digit s then Some (digits_value s) else None)"

lemma format_nat_digits: "list_all is_digit (format_nat n) \<and> format_nat n \<noteq> []"
proof (induction n rule: format_nat.induct)
  case (1 n)
  show ?case
  proof (cases "n < 10")
    case True
    then show ?thesis
      by (subst (1 2) format_nat.simps) (simp add: is_digit_def)
  next
    case False
    have "48 + n mod 10 < 58" by simp
    then have "is_digit (byte_of (48 + n mod 10))"
      unfolding is_digit_def by (simp add: mod_less)
    with "1.IH" [OF False] False show ?thesis
      by (subst (1 2) format_nat.simps) simp
  qed
qed

lemma digits_value_append: "digits_value (s @ [c]) = 10 * digits_value s + (nat_of_byte c - 48)"
  by (simp add: digits_value_def)

lemma digits_value_format: "digits_value (format_nat n) = n"
proof (induction n rule: format_nat.induct)
  case (1 n)
  show ?case
  proof (cases "n < 10")
    case True
    then show ?thesis
      by (subst format_nat.simps) (simp add: digits_value_def)
  next
    case False
    have "nat_of_byte (byte_of (48 + n mod 10)) = 48 + n mod 10"
      by (simp add: mod_less)
    with "1.IH" [OF False] False show ?thesis
      by (subst format_nat.simps) (simp add: digits_value_append)
  qed
qed

lemma parse_format [simp]: "parse_digits (format_nat n) = Some n"
  by (simp add: parse_digits_def format_nat_digits digits_value_format)

lemma format_nat_inject [simp]: "format_nat m = format_nat n \<longleftrightarrow> m = n"
  by (metis digits_value_format)

lemma format_nat_length: "n < 10 ^ Suc k \<Longrightarrow> length (format_nat n) \<le> Suc k"
proof (induction k arbitrary: n)
  case 0
  then show ?case by (subst format_nat.simps) simp
next
  case (Suc k)
  then have "n div 10 < 10 ^ Suc k"
    by (simp add: less_mult_imp_div_less mult.commute)
  with Suc.IH have "length (format_nat (n div 10)) \<le> Suc k" by blast
  then show ?case by (subst format_nat.simps) simp
qed

lemma format_nat_no_char: "\<not> is_digit c \<Longrightarrow> c \<notin> set (format_nat n)"
  using format_nat_digits [of n] by (auto simp: list_all_iff)


text \<open>\<^verbatim>\<open>strconv.Atoi\<close>: an optional sign and decimal digits, within 64 bits.\<close>

definition atoi :: "string \<Rightarrow> int option" where
  "atoi s =
    (let (neg, body) = (case s of
           c # r \<Rightarrow> if c = CHR ''-'' then (True, r) else if c = CHR ''+'' then (False, r) else (False, s)
         | [] \<Rightarrow> (False, []))
     in case parse_digits body of
          None \<Rightarrow> None
        | Some n \<Rightarrow>
            let v = (if neg then - int n else int n)
            in if - (2 ^ 63) \<le> v \<and> v < 2 ^ 63 then Some v else None)"

text \<open>\<^verbatim>\<open>strconv.Itoa\<close>.\<close>

definition itoa :: "int \<Rightarrow> string" where
  "itoa v = (if v < 0 then CHR ''-'' # format_nat (nat (- v)) else format_nat (nat v))"

lemma format_nat_hd: "\<exists>c r. format_nat n = c # r \<and> is_digit c"
  using format_nat_digits [of n] by (cases "format_nat n") auto

lemma atoi_itoa:
  assumes "- (2 ^ 63) \<le> v" "v < 2 ^ 63"
  shows "atoi (itoa v) = Some v"
proof (cases "v < 0")
  case True
  with assms show ?thesis by (simp add: atoi_def itoa_def)
next
  case False
  obtain c r where "format_nat (nat v) = c # r" "is_digit c" using format_nat_hd by blast
  moreover from this have "parse_digits (c # r) = Some (nat v)" by (metis parse_format)
  ultimately show ?thesis using assms False by (auto simp: atoi_def itoa_def is_digit_def)
qed


text \<open>Lower-case hexadecimal digits.\<close>

definition hex_digit :: "nat \<Rightarrow> char" where
  "hex_digit n = (if n < 10 then byte_of (48 + n) else byte_of (87 + n))"

section \<open>Host and port\<close>

text \<open>\<^verbatim>\<open>net.JoinHostPort\<close> and \<^verbatim>\<open>net.SplitHostPort\<close>, with the errors of the latter.\<close>

datatype addr_error =
    MissingPort
  | TooManyColons
  | MissingBracket
  | UnexpectedOpen
  | UnexpectedClose

definition join_host_port :: "string \<Rightarrow> string \<Rightarrow> string" where
  "join_host_port host port =
     (if CHR '':'' \<in> set host then ''['' @ host @ '']:'' @ port else host @ '':'' @ port)"

definition split_host_port :: "string \<Rightarrow> addr_error + (string \<times> string)" where
  "split_host_port hp =
     (case cut_last (CHR '':'') hp of
        None \<Rightarrow> Inl MissingPort
      | Some (before, port) \<Rightarrow>
          if has_prefix hp ''['' then
            (case cut_byte (CHR '']'') hp of
               None \<Rightarrow> Inl MissingBracket
             | Some (inner, rest) \<Rightarrow>
                 if rest = [] then Inl MissingPort
                 else if length inner + 1 = length before then
                   (if CHR ''['' \<in> set (tl hp) then Inl UnexpectedOpen
                    else if CHR '']'' \<in> set rest then Inl UnexpectedClose
                    else Inr (tl inner, port))
                 else if hd rest = CHR '':'' then Inl TooManyColons
                 else Inl MissingPort)
          else if CHR '':'' \<in> set before then Inl TooManyColons
          else if CHR ''['' \<in> set hp then Inl UnexpectedOpen
          else if CHR '']'' \<in> set hp then Inl UnexpectedClose
          else Inr (before, port))"

lemma split_join_host_port:
  assumes "CHR ''['' \<notin> set host" "CHR '']'' \<notin> set host"
    and "CHR '':'' \<notin> set port" "CHR ''['' \<notin> set port" "CHR '']'' \<notin> set port"
  shows "split_host_port (join_host_port host port) = Inr (host, port)"
proof (cases "CHR '':'' \<in> set host")
  case True
  let ?hp = "''['' @ host @ '']:'' @ port"
  have "cut_last (CHR '':'') ?hp = Some (''['' @ host @ '']'', port)"
    using assms by (simp add: cut_last_Some_iff)
  moreover have "cut_byte (CHR '']'') ?hp = Some (''['' @ host, '':'' @ port)"
    using assms by (simp only: cut_byte_Some_iff) simp
  ultimately show ?thesis
    using assms True by (simp add: split_host_port_def join_host_port_def has_prefix_def)
next
  case False
  let ?hp = "host @ '':'' @ port"
  have "cut_last (CHR '':'') ?hp = Some (host, port)"
    using assms by (simp add: cut_last_Some_iff)
  moreover have "\<not> has_prefix ?hp ''[''"
    using assms by (cases host) (auto simp: has_prefix_def)
  ultimately show ?thesis
    using assms False by (simp add: split_host_port_def join_host_port_def)
qed


section \<open>Big-endian integers\<close>

text \<open>\<^verbatim>\<open>binary.BigEndian.PutUint32\<close>/\<^verbatim>\<open>Uint32\<close> and their 16-bit versions.\<close>

definition put_uint32 :: "32 word \<Rightarrow> bytes" where
  "put_uint32 v =
     [byte_of (unat (drop_bit 24 v)), byte_of (unat (drop_bit 16 v)),
      byte_of (unat (drop_bit 8 v)), byte_of (unat v)]"

definition get_uint32 :: "bytes \<Rightarrow> 32 word" where
  "get_uint32 b =
     word_of_nat (nat_of_byte (b ! 0) * 2 ^ 24 + nat_of_byte (b ! 1) * 2 ^ 16
                  + nat_of_byte (b ! 2) * 2 ^ 8 + nat_of_byte (b ! 3))"

definition put_uint16 :: "16 word \<Rightarrow> bytes" where
  "put_uint16 v = [byte_of (unat (drop_bit 8 v)), byte_of (unat v)]"

definition get_uint16 :: "bytes \<Rightarrow> 16 word" where
  "get_uint16 b = word_of_nat (nat_of_byte (b ! 0) * 2 ^ 8 + nat_of_byte (b ! 1))"

lemma length_put_uint32 [simp]: "length (put_uint32 v) = 4"
  by (simp add: put_uint32_def)

lemma length_put_uint16 [simp]: "length (put_uint16 v) = 2"
  by (simp add: put_uint16_def)

lemma unat_drop_bit_div: "unat (drop_bit n (v :: 'a::len word)) = unat v div 2 ^ n"
  unfolding unat_drop_bit_eq by (simp add: drop_bit_eq_div)

text \<open>A number is its low byte and the rest; two and four bytes give it back below the bound.\<close>

lemma div_256_step: "(n::nat) div 256 * 256 + n mod 256 = n"
  by simp

lemma bytes4_value:
  assumes "(n::nat) < 4294967296"
  shows "n div 16777216 mod 256 * 16777216 + n div 65536 mod 256 * 65536
      + n div 256 mod 256 * 256 + n mod 256 = n"
proof -
  define a b c where "a = n div 256" and "b = a div 256" and "c = b div 256"
  have "n = a * 256 + n mod 256" "a = b * 256 + a mod 256" "b = c * 256 + b mod 256"
    unfolding a_def b_def c_def by (simp_all only: div_256_step)
  moreover have "n div 65536 = b" "n div 16777216 = c"
    by (simp_all add: a_def b_def c_def div_mult2_eq [symmetric])
  moreover have "c < 256"
    unfolding \<open>n div 16777216 = c\<close> [symmetric] using assms by (simp add: div_less_iff_less_mult)
  ultimately show ?thesis
    unfolding a_def [symmetric] by (simp add: a_def [symmetric])
qed

lemma bytes2_value: "(n::nat) < 65536 \<Longrightarrow> n div 256 mod 256 * 256 + n mod 256 = n"
  by (simp add: div_less_iff_less_mult)

lemma get_put_uint32 [simp]: "get_uint32 (put_uint32 v @ rest) = v"
  using bytes4_value [of "unat v"] unsigned_less [of v, where ?'a = nat]
  by (simp add: get_uint32_def put_uint32_def unat_drop_bit_div)

lemma get_put_uint16 [simp]: "get_uint16 (put_uint16 v @ rest) = v"
  using bytes2_value [of "unat v"] unsigned_less [of v, where ?'a = nat]
  by (simp add: get_uint16_def put_uint16_def unat_drop_bit_div)

lemma put_uint32_inject [simp]: "put_uint32 v = put_uint32 w \<longleftrightarrow> v = w"
  by (metis append_Nil2 get_put_uint32)

end
