(* ===== verification/Wire.thy ===== *)
theory Wire
  imports Prelude
begin

text \<open>
  Byte-level encodings shared by the components: the length-prefixed fields that WebTTY
  signs and authenticates (\<^verbatim>\<open>webtty/e2e_crypto.go\<close>, \<^verbatim>\<open>webtty/auth_proof.go\<close>) and the framed
  messages of the control and datagram channels (\<^verbatim>\<open>net.go\<close>).

  The locale \<open>prefix_code\<close> is the contract of one field encoder: a field can be cut off the
  front of a byte string in at most one way. Everything a transcript needs (injectivity,
  counted sequences) is proved once inside it, and every encoder of the code interprets it.
\<close>

section \<open>The contract of a field encoder\<close>

locale prefix_code =
  fixes enc :: "'a \<Rightarrow> bytes"
    and ok :: "'a \<Rightarrow> bool"
  assumes cancel: "ok x \<Longrightarrow> ok y \<Longrightarrow> enc x @ r = enc y @ s \<Longrightarrow> x = y \<and> r = s"
begin

lemma cancel_iff: "ok x \<Longrightarrow> ok y \<Longrightarrow> enc x @ r = enc y @ s \<longleftrightarrow> x = y \<and> r = s"
  using cancel by blast

lemma inj_iff: "ok x \<Longrightarrow> ok y \<Longrightarrow> enc x = enc y \<longleftrightarrow> x = y"
  using cancel_iff [of x y "[]" "[]"] by simp

lemma concat_cancel:
  assumes "list_all ok xs" "list_all ok ys" "length xs = length ys"
    and "concat (map enc xs) @ r = concat (map enc ys) @ s"
  shows "xs = ys \<and> r = s"
  using assms(3,1,2,4)
proof (induction xs ys rule: list_induct2)
  case (Cons x xs y ys)
  then have "enc x @ concat (map enc xs) @ r = enc y @ concat (map enc ys) @ s"
    by simp
  with Cons.prems cancel have "x = y" "concat (map enc xs) @ r = concat (map enc ys) @ s"
    by auto
  with Cons show ?case by auto
qed simp

end


section \<open>Integers and length-prefixed fields\<close>

text \<open>\<^verbatim>\<open>appendUint32\<close> and \<^verbatim>\<open>appendLengthPrefixed\<close>; the length is converted to 32 bits.\<close>

definition appendUint32 :: "bytes \<Rightarrow> 32 word \<Rightarrow> bytes" where
  "appendUint32 dst value = dst @ put_uint32 value"

definition appendLengthPrefixed :: "bytes \<Rightarrow> bytes \<Rightarrow> bytes" where
  "appendLengthPrefixed dst value =
     (let dst = appendUint32 dst (word_of_nat (length value)) in dst @ value)"

text \<open>The fields as they stand in the output.\<close>

definition length_prefixed :: "bytes \<Rightarrow> bytes" where
  "length_prefixed value = put_uint32 (word_of_nat (length value)) @ value"

definition fits32 :: "'a list \<Rightarrow> bool" where
  "fits32 xs \<longleftrightarrow> length xs < 2 ^ 32"

lemma fits32_short [simp, intro]: "length xs \<le> 65535 \<Longrightarrow> fits32 xs"
  by (simp add: fits32_def)

lemma appendUint32_eq [wire_simps]: "appendUint32 dst v = dst @ put_uint32 v"
  by (simp add: appendUint32_def)

lemma appendLengthPrefixed_eq [wire_simps]:
  "appendLengthPrefixed dst v = dst @ length_prefixed v"
  by (simp add: appendLengthPrefixed_def length_prefixed_def appendUint32_def Let_def)

lemma fits32_length_inject:
  assumes "fits32 xs" "fits32 ys" "(word_of_nat (length xs) :: 32 word) = word_of_nat (length ys)"
  shows "length xs = length ys"
proof -
  have "unat (word_of_nat (length xs) :: 32 word) = unat (word_of_nat (length ys) :: 32 word)"
    using assms(3) by simp
  with assms(1,2) show ?thesis
    by (simp add: unat_of_nat fits32_def)
qed

interpretation u32: prefix_code put_uint32 "\<lambda>_. True"
proof unfold_locales
  fix x y r s assume eq: "put_uint32 x @ r = put_uint32 y @ s"
  then have "get_uint32 (put_uint32 x @ r) = get_uint32 (put_uint32 y @ s)"
    by simp
  then have "x = y" by simp
  with eq show "x = y \<and> r = s" by simp
qed

interpretation blob: prefix_code length_prefixed fits32
proof unfold_locales
  fix x y r s :: bytes
  assume ok: "fits32 x" "fits32 y" and eq: "length_prefixed x @ r = length_prefixed y @ s"
  from eq have "(word_of_nat (length x) :: 32 word) = word_of_nat (length y)"
    and rest: "x @ r = y @ s"
    by (simp_all add: length_prefixed_def u32.cancel_iff)
  with ok have "length x = length y"
    by (blast intro: fits32_length_inject)
  with rest show "x = y \<and> r = s" by simp
qed

lemmas blob_cancel = blob.cancel_iff blob.inj_iff
lemmas u32_cancel = u32.cancel_iff [OF TrueI TrueI] u32.inj_iff [OF TrueI TrueI]


section \<open>Counted sequences\<close>

text \<open>
  \<^verbatim>\<open>appendPayloadSuites\<close>, \<^verbatim>\<open>appendKeyEnvelopeSuites\<close> and \<^verbatim>\<open>appendSignatureSuites\<close> have the
  same body over three enumeration types whose values are 32-bit.
\<close>

definition append_suites :: "bytes \<Rightarrow> 32 word list \<Rightarrow> bytes" where
  "append_suites dst values =
     foldl appendUint32 (appendUint32 dst (word_of_nat (length values))) values"

definition counted_u32 :: "32 word list \<Rightarrow> bytes" where
  "counted_u32 values = put_uint32 (word_of_nat (length values)) @ concat (map put_uint32 values)"

lemma foldl_appendUint32: "foldl appendUint32 dst vs = dst @ concat (map put_uint32 vs)"
  by (induction vs arbitrary: dst) (simp_all add: appendUint32_def)

lemma append_suites_eq [wire_simps]: "append_suites dst vs = dst @ counted_u32 vs"
  by (simp add: append_suites_def counted_u32_def foldl_appendUint32 appendUint32_def)

interpretation counted: prefix_code counted_u32 fits32
proof unfold_locales
  fix x y :: "32 word list" and r s
  assume ok: "fits32 x" "fits32 y" and eq: "counted_u32 x @ r = counted_u32 y @ s"
  from eq have n: "(word_of_nat (length x) :: 32 word) = word_of_nat (length y)"
    and rest: "concat (map put_uint32 x) @ r = concat (map put_uint32 y) @ s"
    by (simp_all add: counted_u32_def u32.cancel_iff)
  from ok n have "length x = length y"
    by (blast intro: fits32_length_inject)
  with rest show "x = y \<and> r = s"
    by (intro u32.concat_cancel) (simp_all add: list_all_iff)
qed

lemmas counted_cancel = counted.cancel_iff counted.inj_iff


section \<open>Framed messages\<close>

text \<open>
  \<^verbatim>\<open>net.go\<close>: a frame is a 32-bit length and the payload; both sides refuse payloads
  above 65535 bytes. The writer's bytes and the reader's pending bytes are explicit; a read
  that runs out of bytes is the error of \<^verbatim>\<open>io.ReadFull\<close> (\<open>EOF\<close> with no byte at all,
  \<open>UnexpectedEOF\<close> in the middle).
\<close>

datatype frame_error = FrameEOF | FrameUnexpectedEOF | FrameTooLarge

definition maxFramedPacketSize :: nat where
  "maxFramedPacketSize = 65535"

definition read_full :: "nat \<Rightarrow> bytes \<Rightarrow> frame_error + (bytes \<times> bytes)" where
  "read_full n b =
     (if n \<le> length b then Inr (take n b, drop n b)
      else if b = [] then Inl FrameEOF
      else Inl FrameUnexpectedEOF)"

definition readMessage :: "bytes \<Rightarrow> frame_error + (bytes \<times> bytes)" where
  "readMessage input =
     rbind (read_full 4 input) (\<lambda>(lengthBytes, rest).
       let len = get_uint32 lengthBytes
       in if unat len > maxFramedPacketSize then Inl FrameTooLarge
          else read_full (unat len) rest)"

definition writeMessage :: "bytes \<Rightarrow> bytes \<Rightarrow> frame_error + bytes" where
  "writeMessage out msgBytes =
     (if length msgBytes > maxFramedPacketSize then Inl FrameTooLarge
      else Inr (out @ put_uint32 (word_of_nat (length msgBytes)) @ msgBytes))"

lemma read_full_append: "length p = n \<Longrightarrow> read_full n (p @ rest) = Inr (p, rest)"
  by (simp add: read_full_def)

lemma writeMessage_Inr_iff:
  "writeMessage out m = Inr w \<longleftrightarrow> length m \<le> 65535 \<and> w = out @ length_prefixed m"
  by (auto simp: writeMessage_def maxFramedPacketSize_def length_prefixed_def)

lemma readMessage_frame:
  assumes "length m \<le> 65535"
  shows "readMessage (length_prefixed m @ rest) = Inr (m, rest)"
proof -
  have "unat (word_of_nat (length m) :: 32 word) = length m"
    using assms by (simp add: unat_of_nat)
  then show ?thesis
    using assms get_put_uint32 [of "word_of_nat (length m)" "[]"]
    by (simp add: readMessage_def length_prefixed_def read_full_append maxFramedPacketSize_def Let_def)
qed

lemma readMessage_Inr:
  assumes "readMessage input = Inr (m, rest)"
  shows "length m \<le> 65535 \<and> (\<exists>hdr. length hdr = 4 \<and> input = hdr @ m @ rest)"
proof -
  from assms have "4 \<le> length input"
    and len: "unat (get_uint32 (take 4 input)) \<le> 65535"
    and body: "read_full (unat (get_uint32 (take 4 input))) (drop 4 input) = Inr (m, rest)"
    by (auto simp: readMessage_def read_full_def maxFramedPacketSize_def Let_def split: if_splits)
  from body have "m @ rest = drop 4 input" "length m = unat (get_uint32 (take 4 input))"
    by (auto simp: read_full_def simp del: drop_drop split: if_splits)
  with len \<open>4 \<le> length input\<close> show ?thesis
    by (intro conjI exI [of _ "take 4 input"]) auto
qed

text \<open>Reading every frame of a stream: what the peer of \<^verbatim>\<open>writeMessage\<close> sees.\<close>

function read_all :: "bytes \<Rightarrow> bytes list \<times> frame_error" where
  "read_all input =
     (case readMessage input of
        Inl e \<Rightarrow> ([], e)
      | Inr (m, rest) \<Rightarrow> (case read_all rest of (ms, e) \<Rightarrow> (m # ms, e)))"
  by pat_completeness auto
termination
  by (relation "measure length") (auto dest!: readMessage_Inr)

declare read_all.simps [simp del]

fun write_all :: "bytes \<Rightarrow> bytes list \<Rightarrow> frame_error + bytes" where
  "write_all out [] = Inr out"
| "write_all out (m # ms) = rbind (writeMessage out m) (\<lambda>out. write_all out ms)"

lemma write_all_Inr_iff:
  "write_all out ms = Inr w \<longleftrightarrow>
     (\<forall>m\<in>set ms. length m \<le> 65535) \<and> w = out @ concat (map length_prefixed ms)"
  by (induction ms arbitrary: out) (auto simp: writeMessage_Inr_iff)

lemma read_all_frames:
  assumes "\<forall>m\<in>set ms. length m \<le> 65535"
  shows "read_all (concat (map length_prefixed ms)) = (ms, FrameEOF)"
  using assms
proof (induction ms)
  case Nil
  then show ?case
    by (subst read_all.simps) (simp add: readMessage_def read_full_def)
next
  case (Cons m ms)
  then show ?case
    by (subst read_all.simps) (simp add: readMessage_frame)
qed

text \<open>
  C22. Framing is a round trip: whatever sequence of packets the writer accepts, the reader
  gets back exactly these packets, in order and with their boundaries, and then a clean end
  of stream.
\<close>

theorem framed_stream_roundtrip:
  assumes "write_all [] msgs = Inr wire"
  shows "read_all wire = (msgs, FrameEOF)"
  using assms read_all_frames [of msgs] by (simp add: write_all_Inr_iff)

theorem framed_stream_roundtrip_witness:
  "read_all (put_uint32 2 @ ''hi'' @ put_uint32 0) = ([''hi'', []], FrameEOF)"
proof -
  have "write_all [] [''hi'', []] = Inr (put_uint32 2 @ ''hi'' @ put_uint32 0)"
    by (simp add: writeMessage_def maxFramedPacketSize_def)
  then show ?thesis by (rule framed_stream_roundtrip)
qed


end
