(* ===== verification/Transcripts.thy ===== *)
theory Transcripts
  imports Wire "HOL-Library.List_Lexorder" "HOL-Library.Char_ord"
begin

text \<open>
  What WebTTY signs and authenticates: the client and server proof transcripts
  (\<^verbatim>\<open>webtty/auth_proof.go\<close>), the server admission transcript and its label digest input
  (\<^verbatim>\<open>webtty/server_admission.go\<close>), and the associated data of the end-to-end encryption
  (\<^verbatim>\<open>webtty/e2e_crypto.go\<close>).

  Each is a byte string built by appending fields. The lemmas show that a byte string
  determines every field that went into it, so that a signature or an AEAD tag over it
  binds them all, and that two kinds of transcript never share a byte string.
\<close>

section \<open>Proof transcripts\<close>

definition WebTTYClientAuthTranscriptDomain :: string where
  "WebTTYClientAuthTranscriptDomain = ''rstream-webtty-client-auth-v1''"

definition WebTTYServerAuthTranscriptDomain :: string where
  "WebTTYServerAuthTranscriptDomain = ''rstream-webtty-server-auth-v1''"

text \<open>The enumerations of the protocol are 32-bit values.\<close>

type_synonym enum32 = "32 word"

record ClientProofTranscript =
  ct_ProtocolVersion :: enum32
  ct_Transport :: string
  ct_WorkspaceID :: string
  ct_ProjectID :: string
  ct_ServerID :: string
  ct_SessionID :: string
  ct_ServerSigningKeyID :: bytes
  ct_ServerEncryptionKeyID :: bytes
  ct_ServerNonce :: bytes
  ct_AuthRequirement :: enum32
  ct_PayloadSuite :: enum32
  ct_KeyEnvelopeSuite :: enum32
  ct_SessionKeyGrantHash :: bytes
  ct_CommandConfigHash :: bytes
  ct_AttachGrantHash :: bytes
  ct_RequestedRole :: string
  ct_ClientPrincipalID :: string
  ct_ClientSigningKeyID :: bytes
  ct_ClientCredentialHash :: bytes
  ct_IssuedAt :: string
  ct_ExpiresAt :: string

record ServerProofTranscript =
  st_ProtocolVersion :: enum32
  st_Transport :: string
  st_WorkspaceID :: string
  st_ProjectID :: string
  st_ServerID :: string
  st_SessionID :: string
  st_ServerSigningKeyID :: bytes
  st_ServerEncryptionKeyID :: bytes
  st_ServerNonce :: bytes
  st_AuthRequirement :: enum32
  st_PayloadSuites :: "enum32 list"
  st_KeyEnvelopeSuites :: "enum32 list"
  st_SignatureSuites :: "enum32 list"

text \<open>Strings are trimmed before they are encoded.\<close>

definition appendLengthPrefixedString :: "bytes \<Rightarrow> string \<Rightarrow> bytes" where
  "appendLengthPrefixedString dst value = appendLengthPrefixed dst (trim_space value)"

lemma appendLengthPrefixedString_eq [wire_simps]:
  "appendLengthPrefixedString dst v = dst @ length_prefixed (trim_space v)"
  by (simp add: appendLengthPrefixedString_def wire_simps)

definition client_canonical_bytes :: "ClientProofTranscript \<Rightarrow> bytes" where
  "client_canonical_bytes t =
    (let out = [];
         out = appendLengthPrefixed out WebTTYClientAuthTranscriptDomain;
         out = appendUint32 out (ct_ProtocolVersion t);
         out = appendLengthPrefixedString out (ct_Transport t);
         out = appendLengthPrefixedString out (ct_WorkspaceID t);
         out = appendLengthPrefixedString out (ct_ProjectID t);
         out = appendLengthPrefixedString out (ct_ServerID t);
         out = appendLengthPrefixedString out (ct_SessionID t);
         out = appendLengthPrefixed out (ct_ServerSigningKeyID t);
         out = appendLengthPrefixed out (ct_ServerEncryptionKeyID t);
         out = appendLengthPrefixed out (ct_ServerNonce t);
         out = appendUint32 out (ct_AuthRequirement t);
         out = appendUint32 out (ct_PayloadSuite t);
         out = appendUint32 out (ct_KeyEnvelopeSuite t);
         out = appendLengthPrefixed out (ct_SessionKeyGrantHash t);
         out = appendLengthPrefixed out (ct_CommandConfigHash t);
         out = appendLengthPrefixed out (ct_AttachGrantHash t);
         out = appendLengthPrefixedString out (ct_RequestedRole t);
         out = appendLengthPrefixedString out (ct_ClientPrincipalID t);
         out = appendLengthPrefixed out (ct_ClientSigningKeyID t);
         out = appendLengthPrefixed out (ct_ClientCredentialHash t);
         out = appendLengthPrefixedString out (ct_IssuedAt t);
         out = appendLengthPrefixedString out (ct_ExpiresAt t)
     in out)"

definition server_canonical_bytes :: "ServerProofTranscript \<Rightarrow> bytes" where
  "server_canonical_bytes t =
    (let out = [];
         out = appendLengthPrefixed out WebTTYServerAuthTranscriptDomain;
         out = appendUint32 out (st_ProtocolVersion t);
         out = appendLengthPrefixedString out (st_Transport t);
         out = appendLengthPrefixedString out (st_WorkspaceID t);
         out = appendLengthPrefixedString out (st_ProjectID t);
         out = appendLengthPrefixedString out (st_ServerID t);
         out = appendLengthPrefixedString out (st_SessionID t);
         out = appendLengthPrefixed out (st_ServerSigningKeyID t);
         out = appendLengthPrefixed out (st_ServerEncryptionKeyID t);
         out = appendLengthPrefixed out (st_ServerNonce t);
         out = appendUint32 out (st_AuthRequirement t);
         out = append_suites out (st_PayloadSuites t);
         out = append_suites out (st_KeyEnvelopeSuites t);
         out = append_suites out (st_SignatureSuites t)
     in out)"

text \<open>
  Every byte field is below four gigabytes, as every field that fits a message is. The
  encoder's length word would wrap beyond.
\<close>

definition client_fits :: "ClientProofTranscript \<Rightarrow> bool" where
  "client_fits t \<longleftrightarrow>
     list_all fits32
       [ct_Transport t, ct_WorkspaceID t, ct_ProjectID t, ct_ServerID t, ct_SessionID t,
        ct_ServerSigningKeyID t, ct_ServerEncryptionKeyID t, ct_ServerNonce t,
        ct_SessionKeyGrantHash t, ct_CommandConfigHash t, ct_AttachGrantHash t,
        ct_RequestedRole t, ct_ClientPrincipalID t, ct_ClientSigningKeyID t,
        ct_ClientCredentialHash t, ct_IssuedAt t, ct_ExpiresAt t]"

definition server_fits :: "ServerProofTranscript \<Rightarrow> bool" where
  "server_fits t \<longleftrightarrow>
     list_all fits32
       [st_Transport t, st_WorkspaceID t, st_ProjectID t, st_ServerID t, st_SessionID t,
        st_ServerSigningKeyID t, st_ServerEncryptionKeyID t, st_ServerNonce t]
     \<and> list_all fits32 [st_PayloadSuites t, st_KeyEnvelopeSuites t, st_SignatureSuites t]"

text \<open>The fields a transcript stands for: strings up to surrounding white space.\<close>

definition client_normal :: "ClientProofTranscript \<Rightarrow> ClientProofTranscript" where
  "client_normal t = t\<lparr>
     ct_Transport := trim_space (ct_Transport t),
     ct_WorkspaceID := trim_space (ct_WorkspaceID t),
     ct_ProjectID := trim_space (ct_ProjectID t),
     ct_ServerID := trim_space (ct_ServerID t),
     ct_SessionID := trim_space (ct_SessionID t),
     ct_RequestedRole := trim_space (ct_RequestedRole t),
     ct_ClientPrincipalID := trim_space (ct_ClientPrincipalID t),
     ct_IssuedAt := trim_space (ct_IssuedAt t),
     ct_ExpiresAt := trim_space (ct_ExpiresAt t)\<rparr>"

definition server_normal :: "ServerProofTranscript \<Rightarrow> ServerProofTranscript" where
  "server_normal t = t\<lparr>
     st_Transport := trim_space (st_Transport t),
     st_WorkspaceID := trim_space (st_WorkspaceID t),
     st_ProjectID := trim_space (st_ProjectID t),
     st_ServerID := trim_space (st_ServerID t),
     st_SessionID := trim_space (st_SessionID t)\<rparr>"

lemma fits32_trim [simp]: "fits32 s \<Longrightarrow> fits32 (trim_space s)"
  unfolding fits32_def using trim_space_length [of s] by linarith

lemmas field_cancel = blob_cancel u32_cancel counted_cancel

lemma client_canonical_iff:
  assumes "client_fits t" "client_fits u"
  shows "client_canonical_bytes t = client_canonical_bytes u \<longleftrightarrow> client_normal t = client_normal u"
  using assms unfolding client_canonical_bytes_def Let_def
  by (cases t; cases u) (simp add: client_fits_def client_normal_def wire_simps field_cancel)

lemma server_canonical_iff:
  assumes "server_fits t" "server_fits u"
  shows "server_canonical_bytes t = server_canonical_bytes u \<longleftrightarrow> server_normal t = server_normal u"
  using assms unfolding server_canonical_bytes_def Let_def
  by (cases t; cases u) (simp add: server_fits_def server_normal_def wire_simps field_cancel)

lemma client_canonical_domain:
  "\<exists>rest. client_canonical_bytes t = length_prefixed WebTTYClientAuthTranscriptDomain @ rest"
  by (simp add: client_canonical_bytes_def Let_def wire_simps)

lemma server_canonical_domain:
  "\<exists>rest. server_canonical_bytes t = length_prefixed WebTTYServerAuthTranscriptDomain @ rest"
  by (simp add: server_canonical_bytes_def Let_def wire_simps)

text \<open>
  C9. Transcript binding: two client (server) proof transcripts have the same canonical
  bytes exactly when every field of them agrees, the strings up to surrounding white space.
  No byte of one field can be read as part of another, whatever the fields contain.
\<close>

theorem transcripts_injective:
  "(client_fits t1 \<and> client_fits t2 \<longrightarrow>
      (client_canonical_bytes t1 = client_canonical_bytes t2) = (client_normal t1 = client_normal t2))
   \<and> (server_fits u1 \<and> server_fits u2 \<longrightarrow>
      (server_canonical_bytes u1 = server_canonical_bytes u2) = (server_normal u1 = server_normal u2))"
  by (simp add: client_canonical_iff server_canonical_iff)

theorem transcripts_injective_witness:
  "server_canonical_bytes (ServerProofTranscript.make 1 ''web'' ''w'' ''p'' ''s'' ''a'' ''bc'' [] [] 1 [1] [1] [1])
   \<noteq> server_canonical_bytes (ServerProofTranscript.make 1 ''web'' ''w'' ''p'' ''s'' ''ab'' ''c'' [] [] 1 [1] [1] [1])"
proof -
  let ?t = "ServerProofTranscript.make 1 ''web'' ''w'' ''p'' ''s'' ''a'' ''bc'' [] [] 1 [1] [1] [1]"
  let ?u = "ServerProofTranscript.make 1 ''web'' ''w'' ''p'' ''s'' ''ab'' ''c'' [] [] 1 [1] [1] [1]"
  have "server_fits ?t" "server_fits ?u"
    by (simp_all add: server_fits_def ServerProofTranscript.make_def fits32_def)
  moreover have "server_normal ?t \<noteq> server_normal ?u"
    by (simp add: server_normal_def ServerProofTranscript.make_def)
  ultimately show ?thesis
    using transcripts_injective [of _ _ ?t ?u] by simp
qed

text \<open>
  C12. Domain separation: the bytes a client signs are never the bytes a server signs, so a
  proof of one role can never be replayed as a proof of the other.
\<close>

theorem transcript_roles_disjoint: "client_canonical_bytes t \<noteq> server_canonical_bytes u"
proof
  assume "client_canonical_bytes t = server_canonical_bytes u"
  with client_canonical_domain [of t] server_canonical_domain [of u]
  obtain r s where "length_prefixed WebTTYClientAuthTranscriptDomain @ r
      = length_prefixed WebTTYServerAuthTranscriptDomain @ s"
    by metis
  then have "WebTTYClientAuthTranscriptDomain = WebTTYServerAuthTranscriptDomain"
    by (auto simp: WebTTYClientAuthTranscriptDomain_def WebTTYServerAuthTranscriptDomain_def blob_cancel)
  then show False
    by (simp add: WebTTYClientAuthTranscriptDomain_def WebTTYServerAuthTranscriptDomain_def)
qed


section \<open>Associated data of the end-to-end encryption\<close>

definition e2eHPKEInfoDomain :: string where
  "e2eHPKEInfoDomain = ''rstream-webtty-e2e-key/v1''"

definition e2ePayloadAADDomain :: string where
  "e2ePayloadAADDomain = ''rstream-webtty-e2e-payload/v1''"

definition e2eHPKEInfo :: "enum32 \<Rightarrow> bytes \<Rightarrow> bytes \<Rightarrow> enum32 \<Rightarrow> bytes" where
  "e2eHPKEInfo payloadSuite payloadKeyID keyContext suite =
    (let out = [];
         out = appendLengthPrefixed out e2eHPKEInfoDomain;
         out = appendUint32 out payloadSuite;
         out = appendUint32 out suite;
         out = appendLengthPrefixed out payloadKeyID;
         out = appendLengthPrefixed out keyContext
     in out)"

definition e2eHPKEAAD :: "bytes \<Rightarrow> enum32 \<Rightarrow> bytes \<Rightarrow> bytes \<Rightarrow> enum32 \<Rightarrow> bytes" where
  "e2eHPKEAAD recipientKeyID payloadSuite payloadKeyID keyContext suite =
    (let out = [];
         out = appendLengthPrefixed out ''key-wrap'';
         out = appendUint32 out payloadSuite;
         out = appendUint32 out suite;
         out = appendLengthPrefixed out recipientKeyID;
         out = appendLengthPrefixed out payloadKeyID;
         out = appendLengthPrefixed out keyContext
     in out)"

definition e2ePayloadAAD ::
  "string \<Rightarrow> enum32 \<Rightarrow> bytes \<Rightarrow> bytes \<Rightarrow> bytes \<Rightarrow> 32 word \<Rightarrow> bytes" where
  "e2ePayloadAAD stream suite payloadKeyID keyContext nonce plaintextLength =
    (let out = [];
         out = appendLengthPrefixed out e2ePayloadAADDomain;
         out = appendLengthPrefixed out stream;
         out = appendUint32 out suite;
         out = appendLengthPrefixed out payloadKeyID;
         out = appendLengthPrefixed out keyContext;
         out = appendLengthPrefixed out nonce;
         out = appendUint32 out plaintextLength
     in out)"

lemma e2ePayloadAAD_iff:
  assumes "list_all fits32 [s1, k1, c1, n1]" "list_all fits32 [s2, k2, c2, n2]"
  shows "e2ePayloadAAD s1 p1 k1 c1 n1 l1 = e2ePayloadAAD s2 p2 k2 c2 n2 l2 \<longleftrightarrow>
     s1 = s2 \<and> p1 = p2 \<and> k1 = k2 \<and> c1 = c2 \<and> n1 = n2 \<and> l1 = l2"
  using assms by (auto simp: e2ePayloadAAD_def Let_def wire_simps field_cancel)

lemma e2eHPKEInfo_iff:
  assumes "list_all fits32 [k1, c1]" "list_all fits32 [k2, c2]"
  shows "e2eHPKEInfo p1 k1 c1 e1 = e2eHPKEInfo p2 k2 c2 e2 \<longleftrightarrow>
     p1 = p2 \<and> e1 = e2 \<and> k1 = k2 \<and> c1 = c2"
  using assms by (auto simp: e2eHPKEInfo_def Let_def wire_simps field_cancel)

lemma e2eHPKEAAD_iff:
  assumes "list_all fits32 [r1, k1, c1]" "list_all fits32 [r2, k2, c2]"
  shows "e2eHPKEAAD r1 p1 k1 c1 e1 = e2eHPKEAAD r2 p2 k2 c2 e2 \<longleftrightarrow>
     r1 = r2 \<and> p1 = p2 \<and> e1 = e2 \<and> k1 = k2 \<and> c1 = c2"
  using assms by (auto simp: e2eHPKEAAD_def Let_def wire_simps field_cancel)


section \<open>Server admission\<close>

text \<open>
  The labels are a Go map. The model takes them as an association list with distinct keys,
  in whatever order the \<^verbatim>\<open>range\<close> loop happens to visit them.
\<close>

type_synonym label_map = "(string \<times> string) list"

definition WebTTYServerAdmissionLabelKey :: string where
  "WebTTYServerAdmissionLabelKey = ''rstream.webtty.server_admission''"

definition webTTYServerAdmissionLabelsDomain :: string where
  "webTTYServerAdmissionLabelsDomain = ''rstream-webtty-server-admission-labels-v1''"

definition WebTTYServerAdmissionDomain :: string where
  "WebTTYServerAdmissionDomain = ''rstream-webtty-server-admission-v1''"

definition WebTTYServerAdmissionSuite :: string where
  "WebTTYServerAdmissionSuite = ''webtty-server-admission-ecdsa-p256-sha256-v1''"

definition appendWebTTYServerAdmissionString :: "bytes \<Rightarrow> string \<Rightarrow> bytes" where
  "appendWebTTYServerAdmissionString dst value = appendLengthPrefixed dst value"

lemma appendWebTTYServerAdmissionString_eq [wire_simps]:
  "appendWebTTYServerAdmissionString dst v = dst @ length_prefixed v"
  by (simp add: appendWebTTYServerAdmissionString_def wire_simps)

text \<open>Reading an absent key of a Go map gives the zero value.\<close>

definition label_get :: "label_map \<Rightarrow> string \<Rightarrow> string" where
  "label_get labels key = (case map_of labels key of None \<Rightarrow> [] | Some v \<Rightarrow> v)"

definition admission_label_keys :: "label_map \<Rightarrow> string list" where
  "admission_label_keys labels =
     sort (filter (\<lambda>key. key \<noteq> WebTTYServerAdmissionLabelKey) (map fst labels))"

text \<open>The input of the digest \<^verbatim>\<open>WebTTYServerAdmissionLabelsHash\<close> computes.\<close>

definition admission_labels_bytes :: "label_map \<Rightarrow> bytes" where
  "admission_labels_bytes labels =
    (let keys = admission_label_keys labels;
         out = webTTYServerAdmissionLabelsDomain;
         out = appendUint32 out (word_of_nat (length keys))
     in foldl (\<lambda>out key.
          let out = appendWebTTYServerAdmissionString out key
          in appendWebTTYServerAdmissionString out (label_get labels key)) out keys)"

definition WebTTYServerAdmissionLabelsHash :: "(bytes \<Rightarrow> bytes) \<Rightarrow> label_map \<Rightarrow> bytes" where
  "WebTTYServerAdmissionLabelsHash sha256 labels = sha256 (admission_labels_bytes labels)"

definition label_pair :: "string \<times> string \<Rightarrow> bytes" where
  "label_pair kv = length_prefixed (fst kv) @ length_prefixed (snd kv)"

definition pair_fits :: "string \<times> string \<Rightarrow> bool" where
  "pair_fits kv \<longleftrightarrow> fits32 (fst kv) \<and> fits32 (snd kv)"

interpretation labelled: prefix_code label_pair pair_fits
  by unfold_locales (auto simp: label_pair_def pair_fits_def blob_cancel)

lemma admission_labels_bytes_eq:
  "admission_labels_bytes labels =
     webTTYServerAdmissionLabelsDomain @
     put_uint32 (word_of_nat (length (admission_label_keys labels))) @
     concat (map label_pair (map (\<lambda>k. (k, label_get labels k)) (admission_label_keys labels)))"
proof -
  have "foldl (\<lambda>out key. appendWebTTYServerAdmissionString
            (appendWebTTYServerAdmissionString out key) (label_get labels key)) out keys
        = out @ concat (map label_pair (map (\<lambda>k. (k, label_get labels k)) keys))" for out keys
    by (induction keys arbitrary: out) (simp_all add: wire_simps label_pair_def)
  then show ?thesis
    by (simp add: admission_labels_bytes_def Let_def appendUint32_def)
qed

definition labels_fit :: "label_map \<Rightarrow> bool" where
  "labels_fit labels \<longleftrightarrow> distinct (map fst labels) \<and> fits32 labels \<and> list_all pair_fits labels"

definition other_labels :: "label_map \<Rightarrow> string \<rightharpoonup> string" where
  "other_labels labels = map_of labels |` (- {WebTTYServerAdmissionLabelKey})"

lemma set_admission_label_keys: "set (admission_label_keys labels) = dom (other_labels labels)"
proof -
  have "set (admission_label_keys labels) = dom (map_of labels) - {WebTTYServerAdmissionLabelKey}"
    by (auto simp: admission_label_keys_def dom_map_of_conv_image_fst)
  then show ?thesis by (auto simp: other_labels_def)
qed

lemma label_get_other:
  assumes "k \<in> dom (other_labels labels)"
  shows "label_get labels k = the (other_labels labels k)"
  using assms by (auto simp: label_get_def other_labels_def restrict_map_def split: if_splits)

lemma admission_pairs_determine:
  "map (\<lambda>k. (k, label_get l k)) (admission_label_keys l)
     = map (\<lambda>k. (k, the (other_labels l k))) (admission_label_keys l)"
  by (simp add: label_get_other set_admission_label_keys)

lemma other_labels_of_pairs:
  "other_labels l = map_of (map (\<lambda>k. (k, label_get l k)) (admission_label_keys l))"
proof
  fix k
  show "other_labels l k = map_of (map (\<lambda>k. (k, label_get l k)) (admission_label_keys l)) k"
    by (cases "k \<in> dom (other_labels l)")
       (auto simp: map_of_map_restrict restrict_map_def set_admission_label_keys label_get_other)
qed

lemma admission_keys_unique:
  assumes "labels_fit l" "labels_fit m" "other_labels l = other_labels m"
  shows "admission_label_keys l = admission_label_keys m"
proof (rule sorted_distinct_set_unique)
  show "set (admission_label_keys l) = set (admission_label_keys m)"
    using assms(3) by (simp add: set_admission_label_keys)
qed (use assms in \<open>simp_all add: admission_label_keys_def labels_fit_def\<close>)

lemma labels_fit_pairs:
  assumes "labels_fit l"
  shows "list_all pair_fits (map (\<lambda>k. (k, label_get l k)) (admission_label_keys l))"
    and "fits32 (admission_label_keys l)"
proof -
  have "length (admission_label_keys l) \<le> length l"
    unfolding admission_label_keys_def by (metis length_filter_le length_map length_sort)
  with assms show "fits32 (admission_label_keys l)"
    by (simp add: labels_fit_def fits32_def)
  show "list_all pair_fits (map (\<lambda>k. (k, label_get l k)) (admission_label_keys l))"
    using assms by (fastforce simp: list_all_iff labels_fit_def admission_label_keys_def
        label_get_def pair_fits_def)
qed

lemma admission_labels_bytes_iff:
  assumes l: "labels_fit l" and m: "labels_fit m"
  shows "admission_labels_bytes l = admission_labels_bytes m \<longleftrightarrow> other_labels l = other_labels m"
proof
  assume "other_labels l = other_labels m"
  moreover from this have "admission_label_keys l = admission_label_keys m"
    by (rule admission_keys_unique [OF l m])
  ultimately show "admission_labels_bytes l = admission_labels_bytes m"
    unfolding admission_labels_bytes_eq admission_pairs_determine by simp
next
  assume "admission_labels_bytes l = admission_labels_bytes m"
  then have n: "(word_of_nat (length (admission_label_keys l)) :: 32 word)
        = word_of_nat (length (admission_label_keys m))"
    and body: "concat (map label_pair (map (\<lambda>k. (k, label_get l k)) (admission_label_keys l))) @ []
      = concat (map label_pair (map (\<lambda>k. (k, label_get m k)) (admission_label_keys m))) @ []"
    by (simp_all add: admission_labels_bytes_eq u32_cancel del: map_map)
  from n have "length (admission_label_keys l) = length (admission_label_keys m)"
    using labels_fit_pairs(2) l m by (blast intro: fits32_length_inject)
  with body l m have "map (\<lambda>k. (k, label_get l k)) (admission_label_keys l)
      = map (\<lambda>k. (k, label_get m k)) (admission_label_keys m)"
    using labelled.concat_cancel [OF labels_fit_pairs(1) labels_fit_pairs(1) _ body] by simp
  then show "other_labels l = other_labels m"
    by (simp only: other_labels_of_pairs)
qed

text \<open>
  C20. Admission labels: the digest input of two label maps is the same exactly when the maps
  agree on every key but the admission label itself. The order in which Go happens to walk
  the maps does not show, and neither does a previous proof stored under the admission key.
\<close>

theorem admission_labels_canonical:
  assumes "labels_fit l" "labels_fit m"
  shows "admission_labels_bytes l = admission_labels_bytes m \<longleftrightarrow>
    (\<forall>k. k \<noteq> WebTTYServerAdmissionLabelKey \<longrightarrow> map_of l k = map_of m k)"
proof -
  have "other_labels l = other_labels m \<longleftrightarrow>
      (\<forall>k. k \<noteq> WebTTYServerAdmissionLabelKey \<longrightarrow> map_of l k = map_of m k)"
    by (auto simp: other_labels_def restrict_map_def fun_eq_iff)
  then show ?thesis
    using admission_labels_bytes_iff [OF assms] by simp
qed

theorem admission_labels_canonical_witness:
  "admission_labels_bytes [(''b'', ''2''), (''a'', ''1'')]
     = admission_labels_bytes [(''a'', ''1''), (WebTTYServerAdmissionLabelKey, ''old''), (''b'', ''2'')]"
proof -
  have "labels_fit [(''b'', ''2''), (''a'', ''1'')]"
    "labels_fit [(''a'', ''1''), (WebTTYServerAdmissionLabelKey, ''old''), (''b'', ''2'')]"
    by (simp_all add: labels_fit_def pair_fits_def fits32_def WebTTYServerAdmissionLabelKey_def)
  from admission_labels_canonical [OF this] show ?thesis
    by (simp add: WebTTYServerAdmissionLabelKey_def)
qed

end
