(* ===== verification/KeyMaterial.thy ===== *)
theory KeyMaterial
  imports Prelude
begin

text \<open>
  Textual key material of WebTTY (\<^verbatim>\<open>webtty/e2e_identity_file.go\<close>): unpadded base64url as
  \<^verbatim>\<open>encoding/base64\<close> implements it, and the strict decoder the code puts on top of it.

  Go's decoder skips line breaks and ignores the spare bits of a last partial group, so
  several texts decode to the same bytes; \<^verbatim>\<open>DecodeE2EKeyMaterial\<close> accepts only one of them.
\<close>

section \<open>Unpadded base64url\<close>

text \<open>The alphabet: upper case, lower case, digits, \<^verbatim>\<open>-\<close> and \<^verbatim>\<open>_\<close>.\<close>

definition b64_char :: "nat \<Rightarrow> char" where
  "b64_char n =
     byte_of (if n < 26 then n + 65 else if n < 52 then n + 71 else if n < 62 then n - 4
              else if n = 62 then 45 else 95)"

definition b64_value :: "char \<Rightarrow> nat option" where
  "b64_value c =
     (let n = nat_of_byte c in
      if 65 \<le> n \<and> n \<le> 90 then Some (n - 65)
      else if 97 \<le> n \<and> n \<le> 122 then Some (n - 71)
      else if 48 \<le> n \<and> n \<le> 57 then Some (n + 4)
      else if n = 45 then Some 62
      else if n = 95 then Some 63
      else None)"

fun b64_groups :: "nat list \<Rightarrow> nat list" where
  "b64_groups [] = []"
| "b64_groups [a] = [a div 4, (a mod 4) * 16]"
| "b64_groups [a, b] = [a div 4, (a mod 4) * 16 + b div 16, (b mod 16) * 4]"
| "b64_groups (a # b # c # rest) =
     a div 4 # ((a mod 4) * 16 + b div 16) # ((b mod 16) * 4 + c div 64) # c mod 64 # b64_groups rest"

fun b64_ungroup :: "nat list \<Rightarrow> nat list option" where
  "b64_ungroup [] = Some []"
| "b64_ungroup [w] = None"
| "b64_ungroup [w, x] = Some [w * 4 + x div 16]"
| "b64_ungroup [w, x, y] = Some [w * 4 + x div 16, (x mod 16) * 16 + y div 4]"
| "b64_ungroup (w # x # y # z # rest) =
     map_option (\<lambda>out. (w * 4 + x div 16) # ((x mod 16) * 16 + y div 4) # ((y mod 4) * 64 + z) # out)
       (b64_ungroup rest)"

fun traverse :: "('a \<Rightarrow> 'b option) \<Rightarrow> 'a list \<Rightarrow> 'b list option" where
  "traverse f [] = Some []"
| "traverse f (x # xs) = (case f x of None \<Rightarrow> None | Some y \<Rightarrow> map_option ((#) y) (traverse f xs))"

definition b64_encode :: "bytes \<Rightarrow> string" where
  "b64_encode value = map b64_char (b64_groups (map nat_of_byte value))"

definition b64_decode :: "string \<Rightarrow> bytes option" where
  "b64_decode text =
     (case traverse b64_value (filter (\<lambda>c. c \<noteq> CHR 0x0A \<and> c \<noteq> CHR 0x0D) text) of
        None \<Rightarrow> None
      | Some vs \<Rightarrow> map_option (map byte_of) (b64_ungroup vs))"

lemma b64_char_code:
  assumes "n < 64"
  shows "nat_of_byte (b64_char n) = (if n < 26 then n + 65 else if n < 52 then n + 71
    else if n < 62 then n - 4 else if n = 62 then 45 else 95)"
  using assms by (simp add: b64_char_def)

lemma b64_value_char: "n < 64 \<Longrightarrow> b64_value (b64_char n) = Some n"
  by (auto simp: b64_value_def b64_char_code Let_def)

lemma b64_char_printable: "n < 64 \<Longrightarrow> 33 \<le> nat_of_byte (b64_char n) \<and> nat_of_byte (b64_char n) < 127"
  by (auto simp: b64_char_code)

lemma byte_parts:
  fixes y :: nat
  assumes "y < 256"
  shows "y div 4 < 64" "y div 16 < 16" "y div 64 < 4"
  using assms by (simp_all add: less_mult_imp_div_less)

lemma sextet_parts:
  fixes x y :: nat
  assumes "y < 256"
  shows "x mod 4 * 16 + y div 16 < 64" "x mod 16 * 4 + y div 64 < 64"
    "x mod 4 * 16 < 64" "x mod 16 * 4 < 64"
proof -
  have "x mod 4 < 4" "x mod 16 < 16" by simp_all
  with byte_parts [OF assms] show "x mod 4 * 16 + y div 16 < 64" "x mod 16 * 4 + y div 64 < 64"
    "x mod 4 * 16 < 64" "x mod 16 * 4 < 64"
    by linarith+
qed

lemma b64_groups_bound:
  "list_all (\<lambda>n. n < 256) vs \<Longrightarrow> list_all (\<lambda>n. n < 64) (b64_groups vs)"
  by (induction vs rule: b64_groups.induct)
     (simp_all add: byte_parts sextet_parts)

lemma b64_carry:
  fixes x y :: nat
  assumes "y < 256"
  shows "(x * 16 + y div 16) div 16 = x" "(x * 16 + y div 16) mod 16 = y div 16"
    "(x * 4 + y div 64) div 4 = x" "(x * 4 + y div 64) mod 4 = y div 64"
proof -
  have "y div 16 < 16" "y div 64 < 4"
    using assms by (simp_all add: less_mult_imp_div_less)
  then show "(x * 16 + y div 16) div 16 = x" "(x * 16 + y div 16) mod 16 = y div 16"
    "(x * 4 + y div 64) div 4 = x" "(x * 4 + y div 64) mod 4 = y div 64"
    by (simp_all only: div_mult_self3 mod_mult_self3 div_less mod_less add_0_right)
qed

lemma b64_ungroup_groups:
  "list_all (\<lambda>n. n < 256) vs \<Longrightarrow> b64_ungroup (b64_groups vs) = Some vs"
proof (induction vs rule: b64_groups.induct)
  case (2 a)
  then show ?case by (simp only: b64_groups.simps b64_ungroup.simps list.pred_inject) simp
next
  case (3 a b)
  then have "a < 256" "b < 256" by simp_all
  then show ?case by (simp only: b64_groups.simps b64_ungroup.simps b64_carry) simp
next
  case (4 a b c rest)
  then have "a < 256" "b < 256" "c < 256" "b64_ungroup (b64_groups rest) = Some rest" by simp_all
  then show ?case
    by (simp only: b64_groups.simps b64_ungroup.simps b64_carry option.map) simp
qed simp

lemma traverse_map: "(\<And>x. x \<in> set xs \<Longrightarrow> f (g x) = Some x) \<Longrightarrow> traverse f (map g xs) = Some xs"
  by (induction xs) auto

lemma nat_of_bytes_bound [simp]: "list_all (\<lambda>n. n < 256) (map nat_of_byte bs)"
  by (simp add: list_all_iff)

lemma b64_encode_chars: "c \<in> set (b64_encode v) \<Longrightarrow> \<exists>n<64. c = b64_char n"
  using b64_groups_bound [OF nat_of_bytes_bound, of v] by (auto simp: b64_encode_def list_all_iff)

lemma b64_encode_graphic: "list_all graphic (b64_encode v)"
  using b64_encode_chars b64_char_printable by (fastforce simp: list_all_iff graphic_def)

lemma graphic_no_break: "graphic c \<Longrightarrow> c \<noteq> CHR 0x0A \<and> c \<noteq> CHR 0x0D"
  by (auto simp: graphic_def)

lemma b64_decode_encode [simp]: "b64_decode (b64_encode v) = Some v"
proof -
  have "filter (\<lambda>c. c \<noteq> CHR 0x0A \<and> c \<noteq> CHR 0x0D) (b64_encode v) = b64_encode v"
    using b64_encode_graphic [of v] graphic_no_break by (simp add: filter_id_conv list_all_iff)
  moreover have "traverse b64_value (b64_encode v) = Some (b64_groups (map nat_of_byte v))"
    unfolding b64_encode_def
  proof (rule traverse_map)
    fix x assume "x \<in> set (b64_groups (map nat_of_byte v))"
    with b64_groups_bound [OF nat_of_bytes_bound, of v] have "x < 64"
      unfolding list_all_iff by blast
    then show "b64_value (b64_char x) = Some x" by (rule b64_value_char)
  qed
  ultimately show ?thesis
    by (simp add: b64_decode_def b64_ungroup_groups comp_def)
qed

lemma b64_encode_inject [simp]: "b64_encode u = b64_encode v \<longleftrightarrow> u = v"
  by (metis b64_decode_encode option.inject)

lemma b64_encode_Nil_iff [simp]: "b64_encode v = [] \<longleftrightarrow> v = []"
  by (metis b64_encode_inject b64_encode_def b64_groups.simps(1) list.map(1))


section \<open>The strict decoder\<close>

datatype key_material_error = MaterialEmpty | MaterialCorrupt | MaterialSize | MaterialNotCanonical

definition EncodeE2EKeyMaterial :: "bytes \<Rightarrow> string" where
  "EncodeE2EKeyMaterial value = b64_encode value"

text \<open>An expected size of zero or less stands for any size, as in the source.\<close>

definition DecodeE2EKeyMaterial :: "string \<Rightarrow> int \<Rightarrow> key_material_error + bytes" where
  "DecodeE2EKeyMaterial value expectedSize =
    (let value = trim_space value in
     if value = [] then Inl MaterialEmpty
     else case b64_decode value of
       None \<Rightarrow> Inl MaterialCorrupt
     | Some data \<Rightarrow>
         if expectedSize > 0 \<and> int (length data) \<noteq> expectedSize then Inl MaterialSize
         else if EncodeE2EKeyMaterial data \<noteq> value then Inl MaterialNotCanonical
         else Inr data)"

text \<open>
  C21. Key material has exactly one text: the decoder accepts a text for the bytes \<open>data\<close> if
  and only if the text, without surrounding white space, is what the encoder prints for
  \<open>data\<close>, \<open>data\<close> is not empty, and it has the expected size. In particular every encoded
  key decodes to itself, and no second spelling of a key is ever accepted.
\<close>

theorem key_material_canonical:
  "DecodeE2EKeyMaterial text n = Inr data \<longleftrightarrow>
     trim_space text = EncodeE2EKeyMaterial data \<and> data \<noteq> []
     \<and> (n \<le> 0 \<or> int (length data) = n)"
proof
  assume "DecodeE2EKeyMaterial text n = Inr data"
  then have "trim_space text \<noteq> []" "b64_encode data = trim_space text"
    "n \<le> 0 \<or> int (length data) = n"
    by (auto simp: DecodeE2EKeyMaterial_def EncodeE2EKeyMaterial_def Let_def
        split: option.splits if_splits)
  then show "trim_space text = EncodeE2EKeyMaterial data \<and> data \<noteq> []
      \<and> (n \<le> 0 \<or> int (length data) = n)"
    using b64_encode_Nil_iff [of data] by (simp add: EncodeE2EKeyMaterial_def)
next
  assume "trim_space text = EncodeE2EKeyMaterial data \<and> data \<noteq> []
      \<and> (n \<le> 0 \<or> int (length data) = n)"
  then show "DecodeE2EKeyMaterial text n = Inr data"
    by (auto simp: DecodeE2EKeyMaterial_def EncodeE2EKeyMaterial_def Let_def)
qed

end
