(* ===== verification/Suites.thy ===== *)
theory Suites
  imports Transcripts KeyMaterial
begin

text \<open>
  Build profiles and cipher suites: the FIPS gate (\<^verbatim>\<open>internal/fipsprofile/profile.go\<close>), the suite
  tables of \<^verbatim>\<open>webtty/e2e_crypto.go\<close> with their two build variants
  (\<^verbatim>\<open>e2e_suite_standard.go\<close>, \<^verbatim>\<open>e2e_suite_fips.go\<close>), and the cryptographic library the
  WebTTY components call, as a record of functions.

  The build tag is a value of the model, so every lemma speaks about both variants.
\<close>

section \<open>The FIPS profile\<close>

record Status =
  Profile :: bool
  Enabled :: bool
  ModuleVersion :: string
  ModuleBuild :: string
  QUICVersion :: string
  WebTransportVersion :: string

datatype fips_error =
    FipsNotCompiled
  | FipsNotEnabled
  | FipsModuleVersion
  | FipsModuleBuild
  | FipsQUICVersion
  | FipsWebTransportVersion
  | FipsUnavailable string

definition RequiredModuleVersion :: string where
  "RequiredModuleVersion = ''v1.0.0''"

definition RequiredModuleBuild :: string where
  "RequiredModuleBuild = ''v1.0.0-c2097c7c''"

definition RequiredQUICModuleVersion :: string where
  "RequiredQUICModuleVersion = ''v0.60.0''"

definition RequiredWebTransportModuleVersion :: string where
  "RequiredWebTransportModuleVersion = ''v0.11.1''"

definition fips_Require :: "Status \<Rightarrow> fips_error option" where
  "fips_Require status =
    (if \<not> Profile status then Some FipsNotCompiled
     else if \<not> Enabled status then Some FipsNotEnabled
     else if ModuleVersion status \<noteq> RequiredModuleVersion then Some FipsModuleVersion
     else if ModuleBuild status \<noteq> RequiredModuleBuild then Some FipsModuleBuild
     else if QUICVersion status \<noteq> RequiredQUICModuleVersion then Some FipsQUICVersion
     else if WebTransportVersion status \<noteq> RequiredWebTransportModuleVersion
       then Some FipsWebTransportVersion
     else None)"

definition fips_Unavailable :: "bool \<Rightarrow> string \<Rightarrow> fips_error option" where
  "fips_Unavailable buildEnabled feature =
    (if \<not> buildEnabled then None else Some (FipsUnavailable feature))"

text \<open>
  \<^verbatim>\<open>requireFIPSWebTTYRuntime\<close> of the two build variants. \<^verbatim>\<open>Profile\<close> is the build constant,
  so the status of an executable carries its variant.
\<close>

definition requireFIPSWebTTYRuntime :: "Status \<Rightarrow> fips_error option" where
  "requireFIPSWebTTYRuntime status =
    (if Profile status then fips_Require status
     else fips_Unavailable (Profile status) ''FIPS-only WebTTY runtime validation'')"


section \<open>Suites\<close>

abbreviation PayloadCipherSuiteAES256GCM :: enum32 where
  "PayloadCipherSuiteAES256GCM \<equiv> 1"

abbreviation PayloadCipherSuiteAES256GCMRandomNonce :: enum32 where
  "PayloadCipherSuiteAES256GCMRandomNonce \<equiv> 3"

abbreviation KeyEnvelopeSuiteHPKEX25519 :: enum32 where
  "KeyEnvelopeSuiteHPKEX25519 \<equiv> 1"

abbreviation KeyEnvelopeSuiteP256 :: enum32 where
  "KeyEnvelopeSuiteP256 \<equiv> 3"

datatype e2e_error =
    E2EFips fips_error
  | UnsupportedKeyEnvelopeSuite enum32
  | SuiteNotInFIPSProfile enum32
  | SuiteMismatch
  | RecipientSuiteMismatch
  | MultipleSuites
  | UnsupportedPublicKeyLength
  | UnsupportedPayloadSuite enum32
  | RandomExhausted
  | PayloadKeySize
  | PayloadKeyIDSize
  | NoRecipients
  | RecipientPublicKeySize
  | RecipientKeyIDSize
  | RecipientPublicKeyInvalid
  | TypedRecipientIncomplete
  | UnknownRecipientKind string
  | WrapFailed
  | UnwrapFailed
  | UnwrappedKeySize
  | MissingGrant
  | NoEnvelopeForIdentity
  | IdentitySuiteMismatch
  | IdentityPrivateKeySize
  | IdentityPrivateKeyInvalid
  | IdentityPublicKeySize
  | IdentityKeyIDSize
  | GenerateFailed
  | PayloadTooLarge
  | AESKeySize
  | MissingPayload
  | MissingPayloadMetadata
  | UnexpectedPayloadSuite
  | UnexpectedPayloadKeyID
  | UnexpectedKeyContext
  | NonceSize
  | NonceInsideCiphertext
  | DecryptFailed
  | PayloadLengthMismatch
  | NoncePanic

definition validateSupportedKeyEnvelopeSuite :: "enum32 \<Rightarrow> e2e_error option" where
  "validateSupportedKeyEnvelopeSuite suite =
    (if suite = KeyEnvelopeSuiteHPKEX25519 \<or> suite = KeyEnvelopeSuiteP256 then None
     else Some (UnsupportedKeyEnvelopeSuite suite))"

definition validateProfileKeyEnvelopeSuite :: "bool \<Rightarrow> enum32 \<Rightarrow> e2e_error option" where
  "validateProfileKeyEnvelopeSuite fips suite =
    (if fips then
       (if suite \<noteq> KeyEnvelopeSuiteP256 then Some (SuiteNotInFIPSProfile suite) else None)
     else validateSupportedKeyEnvelopeSuite suite)"

definition defaultE2EKeyEnvelopeSuite :: "bool \<Rightarrow> enum32" where
  "defaultE2EKeyEnvelopeSuite fips =
    (if fips then KeyEnvelopeSuiteP256 else KeyEnvelopeSuiteHPKEX25519)"

datatype curve = X25519 | P256

definition e2eCurveParameters :: "bool \<Rightarrow> enum32 \<Rightarrow> e2e_error + (curve \<times> nat \<times> nat)" where
  "e2eCurveParameters fips suite =
    (case validateProfileKeyEnvelopeSuite fips suite of
       Some e \<Rightarrow> Inl e
     | None \<Rightarrow>
         if suite = KeyEnvelopeSuiteHPKEX25519 then Inr (X25519, 32, 32)
         else if suite = KeyEnvelopeSuiteP256 then Inr (P256, 65, 32)
         else Inl (UnsupportedKeyEnvelopeSuite suite))"

definition e2ePayloadSuiteForKeyEnvelopeSuite :: "bool \<Rightarrow> enum32 \<Rightarrow> e2e_error + enum32" where
  "e2ePayloadSuiteForKeyEnvelopeSuite fips suite =
    (case validateProfileKeyEnvelopeSuite fips suite of
       Some e \<Rightarrow> Inl e
     | None \<Rightarrow>
         if suite = KeyEnvelopeSuiteHPKEX25519 then Inr PayloadCipherSuiteAES256GCM
         else if suite = KeyEnvelopeSuiteP256 then Inr PayloadCipherSuiteAES256GCMRandomNonce
         else Inl (UnsupportedKeyEnvelopeSuite suite))"

definition validateE2ESuites :: "bool \<Rightarrow> enum32 \<Rightarrow> enum32 \<Rightarrow> e2e_error option" where
  "validateE2ESuites fips payloadSuite keyEnvelopeSuite =
    (case validateProfileKeyEnvelopeSuite fips keyEnvelopeSuite of
       Some e \<Rightarrow> Some e
     | None \<Rightarrow>
         (case e2ePayloadSuiteForKeyEnvelopeSuite fips keyEnvelopeSuite of
            Inl e \<Rightarrow> Some e
          | Inr expected \<Rightarrow> if payloadSuite \<noteq> expected then Some SuiteMismatch else None))"

definition inferE2EKeyEnvelopeSuite :: "bool \<Rightarrow> bytes \<Rightarrow> e2e_error + enum32" where
  "inferE2EKeyEnvelopeSuite fips publicKey =
    (if length publicKey = 32 then
       (case validateProfileKeyEnvelopeSuite fips KeyEnvelopeSuiteHPKEX25519 of
          Some e \<Rightarrow> Inl e | None \<Rightarrow> Inr KeyEnvelopeSuiteHPKEX25519)
     else if length publicKey = 65 then
       (case validateProfileKeyEnvelopeSuite fips KeyEnvelopeSuiteP256 of
          Some e \<Rightarrow> Inl e | None \<Rightarrow> Inr KeyEnvelopeSuiteP256)
     else Inl UnsupportedPublicKeyLength)"

definition e2ePayloadNonceSize :: "enum32 \<Rightarrow> e2e_error + nat" where
  "e2ePayloadNonceSize suite =
    (if suite = PayloadCipherSuiteAES256GCM then Inr 12
     else if suite = PayloadCipherSuiteAES256GCMRandomNonce then Inr 0
     else Inl (UnsupportedPayloadSuite suite))"

lemma validateProfile_None_iff:
  "validateProfileKeyEnvelopeSuite fips suite = None \<longleftrightarrow>
     suite = KeyEnvelopeSuiteP256 \<or> (\<not> fips \<and> suite = KeyEnvelopeSuiteHPKEX25519)"
  by (auto simp: validateProfileKeyEnvelopeSuite_def validateSupportedKeyEnvelopeSuite_def)

lemma validateE2ESuites_None_iff:
  "validateE2ESuites fips p k = None \<longleftrightarrow>
     (k = KeyEnvelopeSuiteP256 \<and> p = PayloadCipherSuiteAES256GCMRandomNonce) \<or>
     (\<not> fips \<and> k = KeyEnvelopeSuiteHPKEX25519 \<and> p = PayloadCipherSuiteAES256GCM)"
  by (simp add: validateE2ESuites_def e2ePayloadSuiteForKeyEnvelopeSuite_def
      validateProfileKeyEnvelopeSuite_def validateSupportedKeyEnvelopeSuite_def)

lemma validateE2ESuites_payload:
  "validateE2ESuites fips p k = None \<Longrightarrow>
     p = PayloadCipherSuiteAES256GCM \<or> p = PayloadCipherSuiteAES256GCMRandomNonce"
  by (auto simp: validateE2ESuites_None_iff)

lemma e2eCurveParameters_Inr:
  "e2eCurveParameters fips suite = Inr (cv, pubSize, privSize) \<Longrightarrow>
     validateProfileKeyEnvelopeSuite fips suite = None \<and> privSize = 32 \<and>
     (suite = KeyEnvelopeSuiteHPKEX25519 \<and> cv = X25519 \<and> pubSize = 32 \<or>
      suite = KeyEnvelopeSuiteP256 \<and> cv = P256 \<and> pubSize = 65)"
  by (auto simp: e2eCurveParameters_def split: option.splits if_splits)


section \<open>The cryptographic library\<close>

text \<open>
  The functions of \<^verbatim>\<open>crypto/...\<close> and \<^verbatim>\<open>hpke\<close> the sources call. Random choices they make
  inside are an explicit first argument. A key is its encoded bytes.
\<close>

record crypto =
  sha256 :: "bytes \<Rightarrow> bytes"
  gcm_seal :: "bytes \<Rightarrow> bytes \<Rightarrow> bytes \<Rightarrow> bytes \<Rightarrow> bytes"
  gcm_open :: "bytes \<Rightarrow> bytes \<Rightarrow> bytes \<Rightarrow> bytes \<Rightarrow> bytes option"
  rgcm_seal :: "bytes \<Rightarrow> bytes \<Rightarrow> bytes \<Rightarrow> bytes \<Rightarrow> bytes"
  rgcm_open :: "bytes \<Rightarrow> bytes \<Rightarrow> bytes \<Rightarrow> bytes option"
  generate_key :: "bytes \<Rightarrow> curve \<Rightarrow> bytes option"
  public_of :: "curve \<Rightarrow> bytes \<Rightarrow> bytes"
  valid_public :: "curve \<Rightarrow> bytes \<Rightarrow> bool"
  valid_private :: "curve \<Rightarrow> bytes \<Rightarrow> bool"
  ecdh :: "bytes \<Rightarrow> bytes \<Rightarrow> bytes option"
  hkdf :: "bytes \<Rightarrow> bytes \<Rightarrow> nat \<Rightarrow> bytes option"
  hpke_sender :: "bytes \<Rightarrow> bytes \<Rightarrow> bytes \<Rightarrow> (bytes \<times> bytes) option"
  hpke_seal :: "bytes \<Rightarrow> bytes \<Rightarrow> bytes \<Rightarrow> bytes option"
  hpke_recipient :: "bytes \<Rightarrow> bytes \<Rightarrow> bytes \<Rightarrow> bytes option"
  hpke_open :: "bytes \<Rightarrow> bytes \<Rightarrow> bytes \<Rightarrow> bytes option"

text \<open>
  What the documentation of these packages promises of honest use: opening undoes sealing
  under the same key, nonce and associated data.
\<close>

definition aead_correct :: "crypto \<Rightarrow> bool" where
  "aead_correct cr \<longleftrightarrow>
     (\<forall>k n p a. gcm_open cr k n (gcm_seal cr k n p a) a = Some p) \<and>
     (\<forall>r k p a. rgcm_open cr k (rgcm_seal cr r k p a) a = Some p)"

text \<open>
  Authenticity: what was sealed with associated data \<open>a\<close> does not open with any other. This is
  the guarantee of AES-GCM up to forgeries of negligible probability.
\<close>

definition aead_authentic :: "crypto \<Rightarrow> bool" where
  "aead_authentic cr \<longleftrightarrow>
     (\<forall>k n p a n' a' q. gcm_open cr k n' (gcm_seal cr k n p a) a' = Some q \<longrightarrow> n' = n \<and> a' = a) \<and>
     (\<forall>r k p a a' q. rgcm_open cr k (rgcm_seal cr r k p a) a' = Some q \<longrightarrow> a' = a)"

text \<open>
  Key agreement: both ends of a Diffie-Hellman exchange derive one secret, generated keys are
  valid, and an HPKE recipient opens what its sender sealed under the same \<open>info\<close>.
\<close>

definition kem_correct :: "crypto \<Rightarrow> bool" where
  "kem_correct cr \<longleftrightarrow>
     (\<forall>r cv e. generate_key cr r cv = Some e \<longrightarrow>
        valid_private cr cv e \<and> valid_public cr cv (public_of cr cv e)) \<and>
     (\<forall>e p. valid_private cr P256 e \<longrightarrow> valid_private cr P256 p \<longrightarrow>
        ecdh cr e (public_of cr P256 p) = ecdh cr p (public_of cr P256 e)) \<and>
     (\<forall>s i n k. hkdf cr s i n = Some k \<longrightarrow> length k = n) \<and>
     (\<forall>r p i enc ctx aad m c. valid_private cr X25519 p \<longrightarrow>
        hpke_sender cr r (public_of cr X25519 p) i = Some (enc, ctx) \<longrightarrow>
        hpke_seal cr ctx aad m = Some c \<longrightarrow>
        (\<exists>ctx'. hpke_recipient cr enc p i = Some ctx' \<and> hpke_open cr ctx' aad c = Some m))"

definition e2eKeyIDDomain :: string where
  "e2eKeyIDDomain = ''rstream-webtty-e2e-key-id/v1''"

definition E2EKeyID :: "crypto \<Rightarrow> bytes \<Rightarrow> bytes" where
  "E2EKeyID cr publicKey = take 16 (sha256 cr (e2eKeyIDDomain @ publicKey))"

end
