(* ===== verification/E2E.thy ===== *)
theory E2E
  imports Suites
begin

text \<open>
  End-to-end payload encryption of WebTTY (\<^verbatim>\<open>webtty/e2e_crypto.go\<close>): identities, the client
  cipher that wraps a payload key for its recipients, the server cipher that unwraps it from
  the session key grant, and the per-stream encryption functions.

  The randomness readers are explicit: \<open>random\<close> is what the configured \<^verbatim>\<open>io.Reader\<close> still
  delivers, \<open>seeds i\<close> the randomness the library draws for the \<open>i\<close>-th operation. A nil byte
  slice and an empty one are the same value of the model; the code only asks for lengths.
\<close>

section \<open>Data\<close>

record E2EIdentity =
  id_KeyEnvelopeSuite :: enum32
  id_KeyID :: bytes
  id_PublicKey :: bytes
  id_PrivateKey :: bytes

record E2ERecipient =
  rc_ID :: string
  rc_Kind :: string
  rc_KeyEnvelopeSuite :: enum32
  rc_KeyID :: bytes
  rc_PublicKey :: bytes

record KeyEnvelope =
  RecipientKeyID :: bytes
  EncapsulatedKey :: bytes
  WrappedKey :: bytes

record SessionKeyGrant =
  gr_PayloadSuite :: enum32
  gr_PayloadKeyID :: bytes
  gr_KeyEnvelopes :: "KeyEnvelope list"
  gr_KeyContext :: bytes
  gr_KeyEnvelopeSuite :: enum32

record PayloadCryptoMetadata =
  md_PayloadSuite :: enum32
  md_PayloadKeyID :: bytes
  md_Nonce :: bytes
  md_AADContext :: bytes

record EncryptedPayload =
  Ciphertext :: bytes
  PlaintextLength :: "32 word"
  PayloadCrypto :: "PayloadCryptoMetadata option"

record E2EPayloadCryptoConfig =
  cf_WorkspaceID :: string
  cf_ProjectID :: string
  cf_ServerID :: string
  cf_PayloadSuite :: enum32
  cf_PayloadKey :: bytes
  cf_PayloadKeyID :: bytes
  cf_KeyContext :: bytes
  cf_KeyEnvelopeSuite :: enum32
  cf_Recipients :: "E2ERecipient list"
  cf_Random :: bytes

record e2ePayloadCipher =
  pc_payloadSuite :: enum32
  pc_payloadKey :: bytes
  pc_payloadKeyID :: bytes
  pc_keyContext :: bytes
  pc_keyEnvelopeSuite :: enum32
  pc_keyEnvelopes :: "KeyEnvelope list"
  pc_random :: bytes


section \<open>Identities\<close>

definition GenerateE2EIdentityForSuite ::
  "crypto \<Rightarrow> Status \<Rightarrow> bytes \<Rightarrow> enum32 \<Rightarrow> e2e_error + E2EIdentity" where
  "GenerateE2EIdentityForSuite cr st seed suite =
    (case requireFIPSWebTTYRuntime st of
       Some e \<Rightarrow> Inl (E2EFips e)
     | None \<Rightarrow>
       (case validateProfileKeyEnvelopeSuite (Profile st) suite of
          Some e \<Rightarrow> Inl e
        | None \<Rightarrow>
          rbind (e2eCurveParameters (Profile st) suite) (\<lambda>(cv, _, _).
            case generate_key cr seed cv of
              None \<Rightarrow> Inl GenerateFailed
            | Some privateKey \<Rightarrow>
                let publicKey = public_of cr cv privateKey
                in Inr \<lparr>id_KeyEnvelopeSuite = suite, id_KeyID = E2EKeyID cr publicKey,
                        id_PublicKey = publicKey, id_PrivateKey = privateKey\<rparr>)))"

definition GenerateE2EIdentity :: "crypto \<Rightarrow> Status \<Rightarrow> bytes \<Rightarrow> e2e_error + E2EIdentity" where
  "GenerateE2EIdentity cr st seed =
     GenerateE2EIdentityForSuite cr st seed (defaultE2EKeyEnvelopeSuite (Profile st))"

definition e2eIdentityPrivateKey ::
  "crypto \<Rightarrow> bool \<Rightarrow> E2EIdentity \<Rightarrow> enum32 \<Rightarrow> e2e_error + (bytes \<times> bytes)" where
  "e2eIdentityPrivateKey cr fips identity suite =
    (let identitySuite = (if id_KeyEnvelopeSuite identity = 0 then defaultE2EKeyEnvelopeSuite fips
                          else id_KeyEnvelopeSuite identity)
     in if identitySuite \<noteq> suite then Inl IdentitySuiteMismatch
     else rbind (e2eCurveParameters fips suite) (\<lambda>(cv, publicKeySize, privateKeySize).
       let privateKey = id_PrivateKey identity in
       if length privateKey \<noteq> privateKeySize then Inl IdentityPrivateKeySize
       else if \<not> valid_private cr cv privateKey then Inl IdentityPrivateKeyInvalid
       else
         rbind (if id_KeyID identity = [] then
                  (let publicKey = (if id_PublicKey identity = [] then public_of cr cv privateKey
                                    else id_PublicKey identity)
                   in if length publicKey \<noteq> publicKeySize then Inl IdentityPublicKeySize
                      else Inr (E2EKeyID cr publicKey))
                else Inr (id_KeyID identity)) (\<lambda>keyID.
           if length keyID \<noteq> 16 then Inl IdentityKeyIDSize
           else Inr (keyID, privateKey))))"


section \<open>Suite inference\<close>

fun inferE2ERecipientSuite_from :: "bool \<Rightarrow> enum32 \<Rightarrow> E2ERecipient list \<Rightarrow> e2e_error + enum32" where
  "inferE2ERecipientSuite_from fips selected [] = Inr selected"
| "inferE2ERecipientSuite_from fips selected (recipient # rest) =
    rbind (if rc_KeyEnvelopeSuite recipient = 0 then inferE2EKeyEnvelopeSuite fips (rc_PublicKey recipient)
           else Inr (rc_KeyEnvelopeSuite recipient)) (\<lambda>suite.
      case validateProfileKeyEnvelopeSuite fips suite of
        Some e \<Rightarrow> Inl e
      | None \<Rightarrow>
          if selected = 0 then inferE2ERecipientSuite_from fips suite rest
          else if selected \<noteq> suite then Inl MultipleSuites
          else inferE2ERecipientSuite_from fips selected rest)"

definition inferE2ERecipientSuite :: "bool \<Rightarrow> E2ERecipient list \<Rightarrow> e2e_error + enum32" where
  "inferE2ERecipientSuite fips recipients = inferE2ERecipientSuite_from fips 0 recipients"


section \<open>Key context\<close>

text \<open>
  The JSON text of the implicit key context, as \<^verbatim>\<open>encoding/json\<close> prints it: quotes,
  backslashes, control characters and the HTML characters are escaped. Bytes from 128 on are
  copied, which is what Go does for valid UTF-8 (the separators U+2028 and U+2029 apart).
\<close>

definition json_char :: "char \<Rightarrow> string" where
  "json_char c =
    (let n = nat_of_byte c in
     if n = 34 \<or> n = 92 then [CHR 0x5C, c]
     else if n = 8 then [CHR 0x5C, CHR ''b'']
     else if n = 12 then [CHR 0x5C, CHR ''f'']
     else if n = 10 then [CHR 0x5C, CHR ''n'']
     else if n = 13 then [CHR 0x5C, CHR ''r'']
     else if n = 9 then [CHR 0x5C, CHR ''t'']
     else if n < 32 \<or> n = 60 \<or> n = 62 \<or> n = 38
       then [CHR 0x5C, CHR ''u'', CHR ''0'', CHR ''0'', hex_digit (n div 16), hex_digit (n mod 16)]
     else [c])"

definition json_string :: "string \<Rightarrow> string" where
  "json_string s = CHR 0x22 # concat (map json_char s) @ [CHR 0x22]"

definition json_field :: "string \<Rightarrow> string \<Rightarrow> string" where
  "json_field name value = json_string name @ '':'' @ value"

definition json_object :: "string list \<Rightarrow> string" where
  "json_object fs = CHR ''{'' # join '','' fs @ ''}''"

definition json_omitempty :: "string \<Rightarrow> string \<Rightarrow> string list" where
  "json_omitempty name value = (if value = [] then [] else [json_field name (json_string value)])"

definition isKnownE2ERecipientKind :: "string \<Rightarrow> bool" where
  "isKnownE2ERecipientKind kind \<longleftrightarrow>
     kind = ''public_key'' \<or> kind = ''user'' \<or> kind = ''workspace_device''
     \<or> kind = ''workspace_keyset'' \<or> kind = ''server''"

definition key_context_recipient :: "crypto \<Rightarrow> E2ERecipient \<Rightarrow> e2e_error + string" where
  "key_context_recipient cr recipient =
    (let kind = trim_space (rc_Kind recipient);
         id = trim_space (rc_ID recipient);
         keyID = (if rc_KeyID recipient = [] then E2EKeyID cr (rc_PublicKey recipient)
                  else rc_KeyID recipient)
     in if length keyID \<noteq> 16 then Inl RecipientKeyIDSize
     else
       let (kind, id) = (if kind = [] \<and> id = [] then (''public_key'', EncodeE2EKeyMaterial keyID)
                         else (kind, id))
       in if kind = [] \<or> id = [] then Inl TypedRecipientIncomplete
       else if \<not> isKnownE2ERecipientKind kind then Inl (UnknownRecipientKind kind)
       else Inr (json_object
         [json_field ''key_id'' (json_string (EncodeE2EKeyMaterial keyID)),
          json_field ''kind'' (json_string kind), json_field ''id'' (json_string id)]))"

fun collect :: "('a \<Rightarrow> 'e + 'b) \<Rightarrow> 'a list \<Rightarrow> 'e + 'b list" where
  "collect f [] = Inr []"
| "collect f (x # xs) = rbind (f x) (\<lambda>y. rbind (collect f xs) (\<lambda>ys. Inr (y # ys)))"

definition implicitE2EKeyContextFromRecipients ::
  "crypto \<Rightarrow> E2EPayloadCryptoConfig \<Rightarrow> e2e_error + bytes" where
  "implicitE2EKeyContextFromRecipients cr cfg =
    rbind (collect (key_context_recipient cr) (cf_Recipients cfg)) (\<lambda>recipients.
      Inr (json_object
        ([json_field ''v'' ''1'',
          json_field ''type'' (json_string ''rstream.webtty.session_key_grant'')]
         @ json_omitempty ''workspace_id'' (trim_space (cf_WorkspaceID cfg))
         @ json_omitempty ''project_id'' (trim_space (cf_ProjectID cfg))
         @ json_omitempty ''server_id'' (trim_space (cf_ServerID cfg))
         @ [json_field ''recipients'' (CHR ''['' # join '','' recipients @ '']'')])))"


section \<open>Key envelopes\<close>

definition sealE2EKeyEnvelope ::
  "crypto \<Rightarrow> bytes \<Rightarrow> bytes \<Rightarrow> enum32 \<Rightarrow> bytes \<Rightarrow> bytes \<Rightarrow> bytes \<Rightarrow> e2e_error + (bytes \<times> bytes)" where
  "sealE2EKeyEnvelope cr seed publicKey suite info aad payloadKey =
    (if suite = KeyEnvelopeSuiteHPKEX25519 then
       (case hpke_sender cr seed publicKey info of
          None \<Rightarrow> Inl WrapFailed
        | Some (enc, sender) \<Rightarrow>
            (case hpke_seal cr sender aad payloadKey of
               None \<Rightarrow> Inl WrapFailed
             | Some wrappedKey \<Rightarrow> Inr (enc, wrappedKey)))
     else if suite = KeyEnvelopeSuiteP256 then
       (case generate_key cr seed P256 of
          None \<Rightarrow> Inl WrapFailed
        | Some ephemeral \<Rightarrow>
            (case ecdh cr ephemeral publicKey of
               None \<Rightarrow> Inl WrapFailed
             | Some sharedSecret \<Rightarrow>
                 (case hkdf cr sharedSecret info 32 of
                    None \<Rightarrow> Inl WrapFailed
                  | Some wrappingKey \<Rightarrow>
                      Inr (public_of cr P256 ephemeral, rgcm_seal cr seed wrappingKey payloadKey aad))))
     else Inl (UnsupportedKeyEnvelopeSuite suite))"

definition openE2EKeyEnvelope ::
  "crypto \<Rightarrow> bytes \<Rightarrow> enum32 \<Rightarrow> bytes \<Rightarrow> bytes \<Rightarrow> bytes \<Rightarrow> bytes \<Rightarrow> e2e_error + bytes" where
  "openE2EKeyEnvelope cr privateKey suite encapsulatedKey wrappedKey info aad =
    (if suite = KeyEnvelopeSuiteHPKEX25519 then
       (case hpke_recipient cr encapsulatedKey privateKey info of
          None \<Rightarrow> Inl UnwrapFailed
        | Some recipient \<Rightarrow>
            (case hpke_open cr recipient aad wrappedKey of
               None \<Rightarrow> Inl UnwrapFailed | Some k \<Rightarrow> Inr k))
     else if suite = KeyEnvelopeSuiteP256 then
       (if \<not> valid_public cr P256 encapsulatedKey then Inl UnwrapFailed
        else case ecdh cr privateKey encapsulatedKey of
          None \<Rightarrow> Inl UnwrapFailed
        | Some sharedSecret \<Rightarrow>
            (case hkdf cr sharedSecret info 32 of
               None \<Rightarrow> Inl UnwrapFailed
             | Some wrappingKey \<Rightarrow>
                 (case rgcm_open cr wrappingKey wrappedKey aad of
                    None \<Rightarrow> Inl UnwrapFailed | Some k \<Rightarrow> Inr k)))
     else Inl (UnsupportedKeyEnvelopeSuite suite))"

definition recipient_suite :: "bool \<Rightarrow> E2ERecipient \<Rightarrow> e2e_error + enum32" where
  "recipient_suite fips recipient =
     (if rc_KeyEnvelopeSuite recipient = 0 then inferE2EKeyEnvelopeSuite fips (rc_PublicKey recipient)
      else Inr (rc_KeyEnvelopeSuite recipient))"

definition recipient_key_id :: "crypto \<Rightarrow> E2ERecipient \<Rightarrow> bytes" where
  "recipient_key_id cr recipient =
     (if rc_KeyID recipient = [] then E2EKeyID cr (rc_PublicKey recipient) else rc_KeyID recipient)"

definition wrapE2EPayloadKey ::
  "crypto \<Rightarrow> bool \<Rightarrow> bytes \<Rightarrow> bytes \<Rightarrow> enum32 \<Rightarrow> bytes \<Rightarrow> bytes \<Rightarrow> enum32 \<Rightarrow> E2ERecipient
     \<Rightarrow> e2e_error + KeyEnvelope" where
  "wrapE2EPayloadKey cr fips seed payloadKey payloadSuite payloadKeyID keyContext suite recipient =
    rbind (e2eCurveParameters fips suite) (\<lambda>(cv, publicKeySize, _).
    rbind (recipient_suite fips recipient) (\<lambda>recipientSuite.
      if recipientSuite \<noteq> suite then Inl RecipientSuiteMismatch
      else if length (rc_PublicKey recipient) \<noteq> publicKeySize then Inl RecipientPublicKeySize
      else let keyID = recipient_key_id cr recipient in
      if length keyID \<noteq> 16 then Inl RecipientKeyIDSize
      else if \<not> valid_public cr cv (rc_PublicKey recipient) then Inl RecipientPublicKeyInvalid
      else rbind (sealE2EKeyEnvelope cr seed (rc_PublicKey recipient) suite
                    (e2eHPKEInfo payloadSuite payloadKeyID keyContext suite)
                    (e2eHPKEAAD keyID payloadSuite payloadKeyID keyContext suite) payloadKey)
        (\<lambda>(enc, wrappedKey).
          Inr \<lparr>RecipientKeyID = keyID, EncapsulatedKey = enc, WrappedKey = wrappedKey\<rparr>)))"

definition unwrapE2EPayloadKey ::
  "crypto \<Rightarrow> KeyEnvelope \<Rightarrow> enum32 \<Rightarrow> bytes \<Rightarrow> bytes \<Rightarrow> enum32 \<Rightarrow> bytes \<Rightarrow> e2e_error + bytes" where
  "unwrapE2EPayloadKey cr envelope payloadSuite payloadKeyID keyContext suite privateKey =
    rbind (openE2EKeyEnvelope cr privateKey suite (EncapsulatedKey envelope) (WrappedKey envelope)
             (e2eHPKEInfo payloadSuite payloadKeyID keyContext suite)
             (e2eHPKEAAD (RecipientKeyID envelope) payloadSuite payloadKeyID keyContext suite))
      (\<lambda>payloadKey. if length payloadKey \<noteq> 32 then Inl UnwrappedKeySize else Inr payloadKey)"

text \<open>The loop over the recipients; the \<open>i\<close>-th seal draws \<open>seeds i\<close>.\<close>

fun wrap_all ::
  "(nat \<Rightarrow> E2ERecipient \<Rightarrow> e2e_error + KeyEnvelope) \<Rightarrow> nat \<Rightarrow> E2ERecipient list
     \<Rightarrow> e2e_error + KeyEnvelope list" where
  "wrap_all wrap i [] = Inr []"
| "wrap_all wrap i (r # rs) =
     rbind (wrap i r) (\<lambda>envelope. rbind (wrap_all wrap (Suc i) rs) (\<lambda>envelopes. Inr (envelope # envelopes)))"


section \<open>Ciphers\<close>

definition read_random :: "nat \<Rightarrow> bytes \<Rightarrow> e2e_error + (bytes \<times> bytes)" where
  "read_random n random = (case read_full n random of Inl _ \<Rightarrow> Inl RandomExhausted | Inr p \<Rightarrow> Inr p)"

text \<open>A configured value is used as it is; an empty one is drawn from the reader.\<close>

definition given_or_random :: "nat \<Rightarrow> bytes \<Rightarrow> bytes \<Rightarrow> e2e_error + (bytes \<times> bytes)" where
  "given_or_random n given random =
     (if given = [] then read_random n random else Inr (given, random))"

definition newE2EClientPayloadCipher ::
  "crypto \<Rightarrow> bool \<Rightarrow> (nat \<Rightarrow> bytes) \<Rightarrow> E2EPayloadCryptoConfig \<Rightarrow> e2e_error + e2ePayloadCipher" where
  "newE2EClientPayloadCipher cr fips seeds cfg =
    rbind (if cf_KeyEnvelopeSuite cfg = 0 then
             rbind (inferE2ERecipientSuite fips (cf_Recipients cfg)) (\<lambda>suite.
               Inr (if suite = 0 then defaultE2EKeyEnvelopeSuite fips else suite))
           else Inr (cf_KeyEnvelopeSuite cfg)) (\<lambda>keyEnvelopeSuite.
    rbind (if cf_PayloadSuite cfg = 0 then e2ePayloadSuiteForKeyEnvelopeSuite fips keyEnvelopeSuite
           else Inr (cf_PayloadSuite cfg)) (\<lambda>payloadSuite.
    case validateE2ESuites fips payloadSuite keyEnvelopeSuite of
      Some e \<Rightarrow> Inl e
    | None \<Rightarrow>
        rbind (given_or_random 32 (cf_PayloadKey cfg) (cf_Random cfg)) (\<lambda>(payloadKey, random).
        if length payloadKey \<noteq> 32 then Inl PayloadKeySize
        else rbind (given_or_random 16 (cf_PayloadKeyID cfg) random) (\<lambda>(payloadKeyID, random).
        if length payloadKeyID \<noteq> 16 then Inl PayloadKeyIDSize
        else if cf_Recipients cfg = [] then Inl NoRecipients
        else rbind (if cf_KeyContext cfg = [] then implicitE2EKeyContextFromRecipients cr cfg
                    else Inr (cf_KeyContext cfg)) (\<lambda>keyContext.
        rbind (wrap_all (\<lambda>i recipient. wrapE2EPayloadKey cr fips (seeds i) payloadKey payloadSuite
                           payloadKeyID keyContext keyEnvelopeSuite recipient)
                 0 (cf_Recipients cfg)) (\<lambda>keyEnvelopes.
        Inr \<lparr>pc_payloadSuite = payloadSuite, pc_payloadKey = payloadKey,
             pc_payloadKeyID = payloadKeyID, pc_keyContext = keyContext,
             pc_keyEnvelopeSuite = keyEnvelopeSuite, pc_keyEnvelopes = keyEnvelopes,
             pc_random = random\<rparr>))))))"

definition newE2EServerPayloadCipher ::
  "crypto \<Rightarrow> bool \<Rightarrow> bytes \<Rightarrow> SessionKeyGrant option \<Rightarrow> E2EIdentity \<Rightarrow> e2e_error + e2ePayloadCipher" where
  "newE2EServerPayloadCipher cr fips random sessionKeyGrant identity =
    (case sessionKeyGrant of
       None \<Rightarrow> Inl MissingGrant
     | Some grant \<Rightarrow>
       (case validateE2ESuites fips (gr_PayloadSuite grant) (gr_KeyEnvelopeSuite grant) of
          Some e \<Rightarrow> Inl e
        | None \<Rightarrow>
          if length (gr_PayloadKeyID grant) \<noteq> 16 then Inl PayloadKeyIDSize
          else rbind (e2eIdentityPrivateKey cr fips identity (gr_KeyEnvelopeSuite grant))
            (\<lambda>(recipientKeyID, privateKey).
              case find (\<lambda>e. RecipientKeyID e = recipientKeyID) (gr_KeyEnvelopes grant) of
                None \<Rightarrow> Inl NoEnvelopeForIdentity
              | Some matched \<Rightarrow>
                  rbind (unwrapE2EPayloadKey cr matched (gr_PayloadSuite grant) (gr_PayloadKeyID grant)
                           (gr_KeyContext grant) (gr_KeyEnvelopeSuite grant) privateKey) (\<lambda>payloadKey.
                    Inr \<lparr>pc_payloadSuite = gr_PayloadSuite grant, pc_payloadKey = payloadKey,
                         pc_payloadKeyID = gr_PayloadKeyID grant, pc_keyContext = gr_KeyContext grant,
                         pc_keyEnvelopeSuite = gr_KeyEnvelopeSuite grant, pc_keyEnvelopes = [],
                         pc_random = random\<rparr>))))"

definition cipher_sessionKeyGrant :: "e2ePayloadCipher \<Rightarrow> SessionKeyGrant" where
  "cipher_sessionKeyGrant c =
     \<lparr>gr_PayloadSuite = pc_payloadSuite c, gr_PayloadKeyID = pc_payloadKeyID c,
      gr_KeyEnvelopes = pc_keyEnvelopes c, gr_KeyContext = pc_keyContext c,
      gr_KeyEnvelopeSuite = pc_keyEnvelopeSuite c\<rparr>"

text \<open>
  The AEAD of a cipher: \<^verbatim>\<open>aes.NewCipher\<close> takes keys of 16, 24 or 32 bytes, and the plain GCM of
  Go panics on a nonce that is not 12 bytes long.
\<close>

datatype aead = GCM bytes | GCMRandomNonce bytes

definition payloadAEAD :: "e2ePayloadCipher \<Rightarrow> e2e_error + aead" where
  "payloadAEAD c =
    (if length (pc_payloadKey c) \<notin> {16, 24, 32} then Inl AESKeySize
     else if pc_payloadSuite c = PayloadCipherSuiteAES256GCM then Inr (GCM (pc_payloadKey c))
     else if pc_payloadSuite c = PayloadCipherSuiteAES256GCMRandomNonce
       then Inr (GCMRandomNonce (pc_payloadKey c))
     else Inl (UnsupportedPayloadSuite (pc_payloadSuite c)))"

definition aead_Seal :: "crypto \<Rightarrow> aead \<Rightarrow> bytes \<Rightarrow> bytes \<Rightarrow> bytes \<Rightarrow> bytes \<Rightarrow> e2e_error + bytes" where
  "aead_Seal cr a seed nonce plaintext aad =
    (case a of
       GCM key \<Rightarrow> if length nonce \<noteq> 12 then Inl NoncePanic else Inr (gcm_seal cr key nonce plaintext aad)
     | GCMRandomNonce key \<Rightarrow> if nonce \<noteq> [] then Inl NoncePanic else Inr (rgcm_seal cr seed key plaintext aad))"

definition aead_Open :: "crypto \<Rightarrow> aead \<Rightarrow> bytes \<Rightarrow> bytes \<Rightarrow> bytes \<Rightarrow> e2e_error + bytes" where
  "aead_Open cr a nonce ciphertext aad =
    (case a of
       GCM key \<Rightarrow>
         if length nonce \<noteq> 12 then Inl NoncePanic
         else (case gcm_open cr key nonce ciphertext aad of None \<Rightarrow> Inl DecryptFailed | Some p \<Rightarrow> Inr p)
     | GCMRandomNonce key \<Rightarrow>
         if nonce \<noteq> [] then Inl NoncePanic
         else (case rgcm_open cr key ciphertext aad of None \<Rightarrow> Inl DecryptFailed | Some p \<Rightarrow> Inr p))"

definition newE2EPayloadNonce :: "enum32 \<Rightarrow> bytes \<Rightarrow> e2e_error + (bytes \<times> bytes)" where
  "newE2EPayloadNonce suite random =
    (if suite = PayloadCipherSuiteAES256GCM then read_random 12 random
     else if suite = PayloadCipherSuiteAES256GCMRandomNonce then Inr ([], random)
     else Inl (UnsupportedPayloadSuite suite))"

definition sealE2EPayload ::
  "crypto \<Rightarrow> bytes \<Rightarrow> aead \<Rightarrow> enum32 \<Rightarrow> bytes \<Rightarrow> bytes \<Rightarrow> bytes \<Rightarrow> e2e_error + bytes" where
  "sealE2EPayload cr seed a suite nonce plaintext aad =
    (if suite = PayloadCipherSuiteAES256GCM then aead_Seal cr a seed nonce plaintext aad
     else if suite = PayloadCipherSuiteAES256GCMRandomNonce then aead_Seal cr a seed [] plaintext aad
     else Inl (UnsupportedPayloadSuite suite))"

definition openE2EPayload ::
  "crypto \<Rightarrow> aead \<Rightarrow> enum32 \<Rightarrow> bytes \<Rightarrow> bytes \<Rightarrow> bytes \<Rightarrow> e2e_error + bytes" where
  "openE2EPayload cr a suite nonce ciphertext aad =
    (if suite = PayloadCipherSuiteAES256GCM then aead_Open cr a nonce ciphertext aad
     else if suite = PayloadCipherSuiteAES256GCMRandomNonce then
       (if nonce \<noteq> [] then Inl NonceInsideCiphertext else aead_Open cr a [] ciphertext aad)
     else Inl (UnsupportedPayloadSuite suite))"

text \<open>\<^verbatim>\<open>encryptFunc\<close>: the encrypted payload and the reader after it.\<close>

definition encryptFunc ::
  "crypto \<Rightarrow> e2ePayloadCipher \<Rightarrow> string \<Rightarrow> bytes \<Rightarrow> bytes \<Rightarrow> e2e_error + (EncryptedPayload \<times> bytes)" where
  "encryptFunc cr c stream seed payload =
    (if length payload > 2 ^ 32 - 1 then Inl PayloadTooLarge
     else rbind (payloadAEAD c) (\<lambda>a.
       let plainLen = word_of_nat (length payload) in
       rbind (newE2EPayloadNonce (pc_payloadSuite c) (pc_random c)) (\<lambda>(nonce, random).
       let metadata = \<lparr>md_PayloadSuite = pc_payloadSuite c, md_PayloadKeyID = pc_payloadKeyID c,
                       md_Nonce = nonce, md_AADContext = pc_keyContext c\<rparr>;
           aad = e2ePayloadAAD stream (md_PayloadSuite metadata) (md_PayloadKeyID metadata)
                   (md_AADContext metadata) (md_Nonce metadata) plainLen
       in rbind (sealE2EPayload cr seed a (pc_payloadSuite c) nonce payload aad) (\<lambda>ciphertext.
            Inr (\<lparr>Ciphertext = ciphertext, PlaintextLength = plainLen, PayloadCrypto = Some metadata\<rparr>,
                 random)))))"

definition validatePayloadEnvelope :: "e2ePayloadCipher \<Rightarrow> PayloadCryptoMetadata \<Rightarrow> e2e_error option" where
  "validatePayloadEnvelope c envelope =
    (if md_PayloadSuite envelope \<noteq> pc_payloadSuite c then Some UnexpectedPayloadSuite
     else if md_PayloadKeyID envelope \<noteq> pc_payloadKeyID c then Some UnexpectedPayloadKeyID
     else if md_AADContext envelope \<noteq> pc_keyContext c then Some UnexpectedKeyContext
     else case e2ePayloadNonceSize (pc_payloadSuite c) of
       Inl e \<Rightarrow> Some e
     | Inr expectedNonceSize \<Rightarrow>
         if length (md_Nonce envelope) \<noteq> expectedNonceSize then Some NonceSize else None)"

definition decryptFunc ::
  "crypto \<Rightarrow> e2ePayloadCipher \<Rightarrow> string \<Rightarrow> EncryptedPayload option \<Rightarrow> e2e_error + bytes" where
  "decryptFunc cr c stream payload =
    (case payload of
       None \<Rightarrow> Inl MissingPayload
     | Some p \<Rightarrow>
       (case PayloadCrypto p of
          None \<Rightarrow> Inl MissingPayloadMetadata
        | Some md \<Rightarrow>
          (case validatePayloadEnvelope c md of
             Some e \<Rightarrow> Inl e
           | None \<Rightarrow>
             rbind (payloadAEAD c) (\<lambda>a.
             let aad = e2ePayloadAAD stream (md_PayloadSuite md) (md_PayloadKeyID md)
                         (md_AADContext md) (md_Nonce md) (PlaintextLength p)
             in rbind (openE2EPayload cr a (pc_payloadSuite c) (md_Nonce md) (Ciphertext p) aad)
                  (\<lambda>plaintext.
                    if word_of_nat (length plaintext) \<noteq> PlaintextLength p then Inl PayloadLengthMismatch
                    else Inr plaintext)))))"


section \<open>Ciphers are well formed\<close>

text \<open>The invariant of a cipher: matching suites of the build profile, key and key id sizes.\<close>

definition cipher_wf :: "bool \<Rightarrow> e2ePayloadCipher \<Rightarrow> bool" where
  "cipher_wf fips c \<longleftrightarrow>
     validateE2ESuites fips (pc_payloadSuite c) (pc_keyEnvelopeSuite c) = None
     \<and> length (pc_payloadKey c) = 32 \<and> length (pc_payloadKeyID c) = 16"

lemma client_cipher_Inr:
  assumes "newE2EClientPayloadCipher cr fips seeds cfg = Inr c"
  shows "cipher_wf fips c"
    and "wrap_all (\<lambda>i recipient. wrapE2EPayloadKey cr fips (seeds i) (pc_payloadKey c)
           (pc_payloadSuite c) (pc_payloadKeyID c) (pc_keyContext c) (pc_keyEnvelopeSuite c) recipient)
           0 (cf_Recipients cfg) = Inr (pc_keyEnvelopes c)"
  using assms unfolding newE2EClientPayloadCipher_def
  by (auto simp: cipher_wf_def split: option.splits if_splits)

lemma server_cipher_Inr:
  assumes "newE2EServerPayloadCipher cr fips random grant identity = Inr c"
  shows "cipher_wf fips c"
  using assms unfolding newE2EServerPayloadCipher_def
  by (auto simp: cipher_wf_def unwrapE2EPayloadKey_def split: option.splits if_splits)

lemma cipher_wf_AEAD:
  assumes "cipher_wf fips c"
  shows "payloadAEAD c = Inr (if pc_payloadSuite c = PayloadCipherSuiteAES256GCM
           then GCM (pc_payloadKey c) else GCMRandomNonce (pc_payloadKey c))"
  using assms validateE2ESuites_payload [of fips "pc_payloadSuite c" "pc_keyEnvelopeSuite c"]
  by (auto simp: cipher_wf_def payloadAEAD_def)


section \<open>Key delivery\<close>

lemma wrap_all_Inr:
  assumes "wrap_all wrap i rs = Inr es"
  shows "\<forall>e\<in>set es. \<exists>j. \<exists>r\<in>set rs. wrap j r = Inr e"
    and "\<forall>r\<in>set rs. \<exists>j. \<exists>e\<in>set es. wrap j r = Inr e"
  using assms by (induction rs arbitrary: i es) (fastforce+)

lemma kem_hpke:
  assumes "kem_correct cr" "valid_private cr X25519 p"
    "hpke_sender cr r (public_of cr X25519 p) i = Some (enc, ctx)" "hpke_seal cr ctx aad m = Some c"
  shows "\<exists>ctx'. hpke_recipient cr enc p i = Some ctx' \<and> hpke_open cr ctx' aad c = Some m"
  using assms unfolding kem_correct_def by simp

lemma kem_generate:
  assumes "kem_correct cr" "generate_key cr r cv = Some e"
  shows "valid_private cr cv e" "valid_public cr cv (public_of cr cv e)"
  using assms unfolding kem_correct_def by simp_all

lemma kem_ecdh:
  assumes "kem_correct cr" "valid_private cr P256 e" "valid_private cr P256 p"
  shows "ecdh cr p (public_of cr P256 e) = ecdh cr e (public_of cr P256 p)"
  using assms unfolding kem_correct_def by simp

lemma unwrap_wrap:
  assumes laws: "aead_correct cr" "kem_correct cr"
    and wrap: "wrapE2EPayloadKey cr fips seed payloadKey ps pid ctx suite r = Inr e"
    and cv: "e2eCurveParameters fips suite = Inr (cv, m, n)"
    and key: "rc_PublicKey r = public_of cr cv sk" "valid_private cr cv sk" "length payloadKey = 32"
  shows "unwrapE2EPayloadKey cr e ps pid ctx suite sk = Inr payloadKey"
proof -
  from wrap cv obtain enc w where
    seal: "sealE2EKeyEnvelope cr seed (rc_PublicKey r) suite (e2eHPKEInfo ps pid ctx suite)
       (e2eHPKEAAD (recipient_key_id cr r) ps pid ctx suite) payloadKey = Inr (enc, w)"
    and e: "e = \<lparr>RecipientKeyID = recipient_key_id cr r, EncapsulatedKey = enc, WrappedKey = w\<rparr>"
    by (auto simp: wrapE2EPayloadKey_def Let_def split: if_splits)
  from e2eCurveParameters_Inr [OF cv]
  consider (x) "suite = KeyEnvelopeSuiteHPKEX25519" "cv = X25519"
    | (p) "suite = KeyEnvelopeSuiteP256" "cv = P256" by blast
  then show ?thesis
  proof cases
    case x
    with seal obtain ctx' where "hpke_sender cr seed (public_of cr X25519 sk)
        (e2eHPKEInfo ps pid ctx suite) = Some (enc, ctx')"
      "hpke_seal cr ctx' (e2eHPKEAAD (recipient_key_id cr r) ps pid ctx suite) payloadKey = Some w"
      using key by (auto simp: sealE2EKeyEnvelope_def split: option.splits)
    with kem_hpke [OF laws(2)] key(2) x(2) obtain ctx'' where
      "hpke_recipient cr enc sk (e2eHPKEInfo ps pid ctx suite) = Some ctx''"
      "hpke_open cr ctx'' (e2eHPKEAAD (recipient_key_id cr r) ps pid ctx suite) w = Some payloadKey"
      by blast
    with x key e show ?thesis
      by (simp add: unwrapE2EPayloadKey_def openE2EKeyEnvelope_def)
  next
    case p
    with seal key obtain eph secret wk where
      g: "generate_key cr seed P256 = Some eph" "enc = public_of cr P256 eph"
      and s: "ecdh cr eph (public_of cr P256 sk) = Some secret"
      and k: "hkdf cr secret (e2eHPKEInfo ps pid ctx suite) 32 = Some wk"
      and w: "w = rgcm_seal cr seed wk payloadKey (e2eHPKEAAD (recipient_key_id cr r) ps pid ctx suite)"
      by (auto simp: sealE2EKeyEnvelope_def split: option.splits)
    note eph = kem_generate [OF laws(2) g(1)]
    from kem_ecdh [OF laws(2) eph(1)] key(2) p(2) s
    have "ecdh cr sk (public_of cr P256 eph) = Some secret" by simp
    moreover have "rgcm_open cr wk w (e2eHPKEAAD (recipient_key_id cr r) ps pid ctx suite) = Some payloadKey"
      using laws(1) w by (simp add: aead_correct_def)
    ultimately show ?thesis
      using p(1) key(3) e g(2) k eph(2)
      by (simp add: unwrapE2EPayloadKey_def openE2EKeyEnvelope_def)
  qed
qed

lemma identity_private_valid:
  assumes "e2eIdentityPrivateKey cr fips identity suite = Inr (kid, sk)"
  obtains cv m n where "e2eCurveParameters fips suite = Inr (cv, m, n)" "valid_private cr cv sk"
  using assms by (auto simp: e2eIdentityPrivateKey_def Let_def split: if_splits)

lemma wrap_key_id:
  "wrapE2EPayloadKey cr fips seed k ps pid ctx suite r = Inr e \<Longrightarrow> RecipientKeyID e = recipient_key_id cr r"
  by (auto simp: wrapE2EPayloadKey_def Let_def split: if_splits)

text \<open>
  An identity is the owner of a recipient entry when it parses for the cipher's suite, its
  key id is the one the entry is addressed to, and the entry's public key is the public half
  of its private key. Key ids identify public keys among the recipients.
\<close>

definition owns_recipient ::
  "crypto \<Rightarrow> bool \<Rightarrow> enum32 \<Rightarrow> E2EIdentity \<Rightarrow> E2ERecipient list \<Rightarrow> E2ERecipient \<Rightarrow> bool" where
  "owns_recipient cr fips suite identity rs r \<longleftrightarrow>
     r \<in> set rs
     \<and> (case (e2eIdentityPrivateKey cr fips identity suite, e2eCurveParameters fips suite) of
          (Inr (kid, sk), Inr (cv, _, _)) \<Rightarrow>
            kid = recipient_key_id cr r \<and> rc_PublicKey r = public_of cr cv sk
        | _ \<Rightarrow> False)
     \<and> list_all (\<lambda>r'. recipient_key_id cr r' = recipient_key_id cr r \<longrightarrow> rc_PublicKey r' = rc_PublicKey r) rs"

lemma server_cipher_of_grant:
  assumes laws: "aead_correct cr" "kem_correct cr"
    and client: "newE2EClientPayloadCipher cr fips seeds cfg = Inr c"
    and owner: "owns_recipient cr fips (pc_keyEnvelopeSuite c) identity (cf_Recipients cfg) r"
  shows "newE2EServerPayloadCipher cr fips random (Some (cipher_sessionKeyGrant c)) identity
     = Inr (c\<lparr>pc_keyEnvelopes := [], pc_random := random\<rparr>)"
proof -
  let ?w = "\<lambda>i recipient. wrapE2EPayloadKey cr fips (seeds i) (pc_payloadKey c)
           (pc_payloadSuite c) (pc_payloadKeyID c) (pc_keyContext c) (pc_keyEnvelopeSuite c) recipient"
  from owner obtain kid sk where
    id: "e2eIdentityPrivateKey cr fips identity (pc_keyEnvelopeSuite c) = Inr (kid, sk)"
    by (auto simp: owns_recipient_def split: sum.splits)
  then obtain cv m n where cv: "e2eCurveParameters fips (pc_keyEnvelopeSuite c) = Inr (cv, m, n)"
    and sk: "valid_private cr cv sk" by (rule identity_private_valid)
  from owner id cv have kid: "kid = recipient_key_id cr r" and pk: "rc_PublicKey r = public_of cr cv sk"
    and r: "r \<in> set (cf_Recipients cfg)"
    and uniq: "\<And>r'. r' \<in> set (cf_Recipients cfg) \<Longrightarrow> recipient_key_id cr r' = kid \<Longrightarrow>
      rc_PublicKey r' = rc_PublicKey r"
    by (auto simp: owns_recipient_def list_all_iff)
  note envs = wrap_all_Inr [OF client_cipher_Inr(2) [OF client]]
  from envs(2) r obtain j e where "e \<in> set (pc_keyEnvelopes c)" "?w j r = Inr e" by blast
  then have "\<exists>e\<in>set (pc_keyEnvelopes c). RecipientKeyID e = kid"
    using kid wrap_key_id by blast
  then obtain e where f: "find (\<lambda>e. RecipientKeyID e = kid) (pc_keyEnvelopes c) = Some e"
    by (metis (mono_tags, lifting) find_None_iff option.exhaust)
  then have "e \<in> set (pc_keyEnvelopes c)" "RecipientKeyID e = kid"
    by (auto simp: find_Some_iff)
  with envs(1) obtain i r' where r': "r' \<in> set (cf_Recipients cfg)" "?w i r' = Inr e" by blast
  with \<open>RecipientKeyID e = kid\<close> uniq pk have "rc_PublicKey r' = public_of cr cv sk"
    by (metis wrap_key_id)
  with laws r'(2) cv sk client_cipher_Inr(1) [OF client]
  have "unwrapE2EPayloadKey cr e (pc_payloadSuite c) (pc_payloadKeyID c) (pc_keyContext c)
      (pc_keyEnvelopeSuite c) sk = Inr (pc_payloadKey c)"
    by (auto intro: unwrap_wrap simp: cipher_wf_def)
  with id f client_cipher_Inr(1) [OF client] show ?thesis
    by (simp add: newE2EServerPayloadCipher_def cipher_sessionKeyGrant_def cipher_wf_def)
qed


section \<open>Payloads\<close>

lemma payload_len32:
  "length p \<le> 2 ^ 32 - 1 \<Longrightarrow> unat (word_of_nat (length p) :: 32 word) = length p"
  by (simp add: unat_of_nat)

lemma encryptFunc_Inr:
  assumes "encryptFunc cr c stream seed payload = Inr (ep, rest)"
  obtains a nonce where "payloadAEAD c = Inr a"
    "newE2EPayloadNonce (pc_payloadSuite c) (pc_random c) = Inr (nonce, rest)"
    "PayloadCrypto ep = Some \<lparr>md_PayloadSuite = pc_payloadSuite c, md_PayloadKeyID = pc_payloadKeyID c,
       md_Nonce = nonce, md_AADContext = pc_keyContext c\<rparr>"
    "PlaintextLength ep = word_of_nat (length payload)"
    "sealE2EPayload cr seed a (pc_payloadSuite c) nonce payload (e2ePayloadAAD stream (pc_payloadSuite c)
       (pc_payloadKeyID c) (pc_keyContext c) nonce (word_of_nat (length payload))) = Inr (Ciphertext ep)"
  using assms by (auto simp: encryptFunc_def Let_def split: if_splits)

lemma nonce_size_ok:
  assumes "newE2EPayloadNonce suite random = Inr (nonce, rest)"
  shows "e2ePayloadNonceSize suite = Inr (length nonce)"
  using assms by (auto simp: newE2EPayloadNonce_def e2ePayloadNonceSize_def read_random_def read_full_def
      split: if_splits)

lemma open_seal:
  assumes "aead_correct cr" "payloadAEAD c = Inr a" "newE2EPayloadNonce (pc_payloadSuite c) random = Inr (nonce, rest)"
    and "sealE2EPayload cr seed a (pc_payloadSuite c) nonce p aad = Inr ct"
  shows "openE2EPayload cr a (pc_payloadSuite c) nonce ct aad = Inr p"
  using assms by (auto simp: sealE2EPayload_def openE2EPayload_def payloadAEAD_def aead_Seal_def aead_Open_def
      aead_correct_def newE2EPayloadNonce_def split: if_splits)

definition same_session :: "e2ePayloadCipher \<Rightarrow> e2ePayloadCipher \<Rightarrow> bool" where
  "same_session c d \<longleftrightarrow>
     pc_payloadSuite d = pc_payloadSuite c \<and> pc_payloadKey d = pc_payloadKey c
     \<and> pc_payloadKeyID d = pc_payloadKeyID c \<and> pc_keyContext d = pc_keyContext c"

lemma payloadAEAD_same: "same_session c d \<Longrightarrow> payloadAEAD d = payloadAEAD c"
  by (simp add: same_session_def payloadAEAD_def)

lemma decrypt_encrypt:
  assumes "aead_correct cr" "encryptFunc cr c stream seed p = Inr (ep, rest)" "same_session c d"
  shows "decryptFunc cr d stream (Some ep) = Inr p"
  using assms(2)
proof (rule encryptFunc_Inr)
  fix a nonce
  assume h: "payloadAEAD c = Inr a"
    "newE2EPayloadNonce (pc_payloadSuite c) (pc_random c) = Inr (nonce, rest)"
    "PayloadCrypto ep = Some \<lparr>md_PayloadSuite = pc_payloadSuite c, md_PayloadKeyID = pc_payloadKeyID c,
       md_Nonce = nonce, md_AADContext = pc_keyContext c\<rparr>"
    "PlaintextLength ep = word_of_nat (length p)"
    "sealE2EPayload cr seed a (pc_payloadSuite c) nonce p (e2ePayloadAAD stream (pc_payloadSuite c)
       (pc_payloadKeyID c) (pc_keyContext c) nonce (word_of_nat (length p))) = Inr (Ciphertext ep)"
  from open_seal [OF assms(1) h(1,2,5)] nonce_size_ok [OF h(2)] h(1,3,4) payloadAEAD_same [OF assms(3)] assms(3)
  show ?thesis
    by (simp add: decryptFunc_def validatePayloadEnvelope_def same_session_def)
qed


lemma encrypt_total:
  assumes wf: "cipher_wf fips c" and len: "length p \<le> 2 ^ 32 - 1" and rnd: "12 \<le> length (pc_random c)"
  shows "\<exists>ep rest. encryptFunc cr c stream seed p = Inr (ep, rest)"
proof -
  have "pc_payloadSuite c = PayloadCipherSuiteAES256GCM \<or>
      pc_payloadSuite c = PayloadCipherSuiteAES256GCMRandomNonce"
    using wf validateE2ESuites_payload unfolding cipher_wf_def by blast
  with wf len rnd show ?thesis
    by (auto simp: encryptFunc_def cipher_wf_AEAD [OF wf] newE2EPayloadNonce_def sealE2EPayload_def
        aead_Seal_def read_random_def read_full_def Let_def)
qed

lemma decryptFunc_Inr:
  assumes "decryptFunc cr c stream (Some ep) = Inr q"
  obtains a md where "PayloadCrypto ep = Some md" "validatePayloadEnvelope c md = None"
    "payloadAEAD c = Inr a"
    "openE2EPayload cr a (pc_payloadSuite c) (md_Nonce md) (Ciphertext ep)
       (e2ePayloadAAD stream (pc_payloadSuite c) (pc_payloadKeyID c) (pc_keyContext c) (md_Nonce md)
          (PlaintextLength ep)) = Inr q"
    "PlaintextLength ep = word_of_nat (length q)"
proof -
  obtain md where md: "PayloadCrypto ep = Some md"
    using assms by (cases "PayloadCrypto ep") (simp_all add: decryptFunc_def)
  have v: "validatePayloadEnvelope c md = None"
    using assms md by (cases "validatePayloadEnvelope c md") (simp_all add: decryptFunc_def)
  then have "md_PayloadSuite md = pc_payloadSuite c" "md_PayloadKeyID md = pc_payloadKeyID c"
    "md_AADContext md = pc_keyContext c"
    by (simp_all add: validatePayloadEnvelope_def split: if_splits)
  with assms md v show thesis
    by (auto simp: decryptFunc_def Let_def intro: that split: if_splits)
qed

lemma open_seal_authentic:
  assumes "aead_authentic cr" "payloadAEAD c = Inr a"
    and "sealE2EPayload cr seed a (pc_payloadSuite c) n p aad = Inr ct"
    and "openE2EPayload cr a (pc_payloadSuite c) n' ct aad' = Inr q"
  shows "aad' = aad"
proof (cases a)
  case (GCM k)
  with assms(2-4) have "ct = gcm_seal cr k n p aad" "gcm_open cr k n' ct aad' = Some q"
    by (auto simp: sealE2EPayload_def openE2EPayload_def payloadAEAD_def aead_Seal_def aead_Open_def
        split: if_splits option.splits)
  with assms(1) show ?thesis unfolding aead_authentic_def by blast
next
  case (GCMRandomNonce k)
  with assms(2-4) have "ct = rgcm_seal cr seed k p aad" "rgcm_open cr k ct aad' = Some q"
    by (auto simp: sealE2EPayload_def openE2EPayload_def payloadAEAD_def aead_Seal_def aead_Open_def
        split: if_splits option.splits)
  with assms(1) show ?thesis unfolding aead_authentic_def by blast
qed


section \<open>The exported constructors\<close>

definition NewE2EClientPayloadCrypto ::
  "crypto \<Rightarrow> Status \<Rightarrow> (nat \<Rightarrow> bytes) \<Rightarrow> E2EPayloadCryptoConfig \<Rightarrow> e2e_error + e2ePayloadCipher" where
  "NewE2EClientPayloadCrypto cr st seeds cfg =
    (case requireFIPSWebTTYRuntime st of
       Some e \<Rightarrow> Inl (E2EFips e)
     | None \<Rightarrow> newE2EClientPayloadCipher cr (Profile st) seeds cfg)"

definition NewE2EServerPayloadCrypto ::
  "crypto \<Rightarrow> Status \<Rightarrow> bytes \<Rightarrow> SessionKeyGrant option \<Rightarrow> E2EIdentity \<Rightarrow> e2e_error + e2ePayloadCipher" where
  "NewE2EServerPayloadCrypto cr st random sessionKeyGrant identity =
    (case requireFIPSWebTTYRuntime st of
       Some e \<Rightarrow> Inl (E2EFips e)
     | None \<Rightarrow> newE2EServerPayloadCipher cr (Profile st) random sessionKeyGrant identity)"

end
