(* ===== verification/Identity.thy ===== *)
theory Identity
  imports E2E
begin

text \<open>
  WebTTY identities and trust stores: signing keys (\<^verbatim>\<open>webtty/auth_proof.go\<close>), endpoint identities
  (\<^verbatim>\<open>webtty/endpoint_identity.go\<close>), known server keys and identity files
  (\<^verbatim>\<open>webtty/e2e_identity_file.go\<close>) and authorized clients
  (\<^verbatim>\<open>webtty/authorized_clients_file.go\<close>).

  A file is modelled by the record its JSON decodes to; JSON syntax, file modes, locks and the
  rename that publishes a file are not part of the model.
\<close>

section \<open>Errors\<close>

datatype id_error =
    IdMaterial key_material_error
  | IdE2E e2e_error
  | IdEmpty
  | IdFormat
  | IdKeyIDMismatch
  | IdPublicKeyMismatch
  | IdPublicKeySize
  | IdKeyIDSize
  | IdMissingKey
  | IdParse
  | IdNotECDSA
  | IdNotP256
  | IdNotOnCurve
  | IdMarshal
  | IdHashSize
  | IdSign
  | IdBadSignature
  | IdVersion
  | IdCryptoSuite string
  | IdNameRequired
  | IdKeyIDRequired
  | IdSigningPairRequired
  | IdMixedMarkerRequired
  | IdFileSuiteMismatch

definition wrap_err :: "('e \<Rightarrow> 'f) \<Rightarrow> 'e + 'a \<Rightarrow> 'f + 'a" where
  "wrap_err f r = (case r of Inl e \<Rightarrow> Inl (f e) | Inr x \<Rightarrow> Inr x)"

lemma wrap_err_Inr_iff [simp]: "wrap_err f r = Inr x \<longleftrightarrow> r = Inr x"
  by (simp add: wrap_err_def split: sum.splits)

lemma wrap_err_Inr [simp]: "wrap_err f (Inr x) = Inr x"
  by simp

abbreviation decode_material :: "string \<Rightarrow> int \<Rightarrow> id_error + bytes" where
  "decode_material text n \<equiv> wrap_err IdMaterial (DecodeE2EKeyMaterial text n)"

lemma decode_material_iff:
  "DecodeE2EKeyMaterial text n = Inr data \<longleftrightarrow>
     trim_space text = b64_encode data \<and> data \<noteq> [] \<and> (n \<le> 0 \<or> int (length data) = n)"
proof
  assume "DecodeE2EKeyMaterial text n = Inr data"
  then have "trim_space text \<noteq> []" "b64_encode data = trim_space text" "n \<le> 0 \<or> int (length data) = n"
    by (auto simp: DecodeE2EKeyMaterial_def EncodeE2EKeyMaterial_def Let_def
        split: option.splits if_splits)
  then show "trim_space text = b64_encode data \<and> data \<noteq> [] \<and> (n \<le> 0 \<or> int (length data) = n)"
    using b64_encode_Nil_iff [of data] by simp
qed (auto simp: DecodeE2EKeyMaterial_def EncodeE2EKeyMaterial_def Let_def)

lemma trim_b64 [simp]: "trim_space (b64_encode v) = b64_encode v"
  by (rule trim_space_all_graphic [OF b64_encode_graphic])


section \<open>Signing keys\<close>

datatype ecdsa_curve = CurveP256 | CurveOther

record ecdsa_public =
  pk_curve :: ecdsa_curve
  pk_point :: bytes
  pk_on_curve :: bool

record ecdsa_private =
  sk_public :: ecdsa_public
  sk_scalar :: bytes

datatype 'k x509_key = EcdsaKey 'k | OtherKey

text \<open>The functions of \<^verbatim>\<open>crypto/x509\<close> and \<^verbatim>\<open>crypto/ecdsa\<close> the sources call.\<close>

record signer =
  pkix_parse :: "bytes \<Rightarrow> ecdsa_public x509_key option"
  pkix_marshal :: "ecdsa_public \<Rightarrow> bytes option"
  pkcs8_parse :: "bytes \<Rightarrow> ecdsa_private x509_key option"
  pkcs8_marshal :: "ecdsa_private \<Rightarrow> bytes option"
  ecdsa_sign :: "bytes \<Rightarrow> ecdsa_private \<Rightarrow> bytes \<Rightarrow> bytes option"
  ecdsa_verify :: "ecdsa_public \<Rightarrow> bytes \<Rightarrow> bytes \<Rightarrow> bool"

text \<open>Documented behaviour: DER round trips, and a signature verifies under its own key.\<close>

definition signer_correct :: "signer \<Rightarrow> bool" where
  "signer_correct sg \<longleftrightarrow>
     (\<forall>pk der. pkix_marshal sg pk = Some der \<longrightarrow> der \<noteq> [] \<and> pkix_parse sg der = Some (EcdsaKey pk)) \<and>
     (\<forall>sk der. pkcs8_marshal sg sk = Some der \<longrightarrow> der \<noteq> [] \<and> pkcs8_parse sg der = Some (EcdsaKey sk)) \<and>
     (\<forall>r sk h s. ecdsa_sign sg r sk h = Some s \<longrightarrow> ecdsa_verify sg (sk_public sk) h s)"

definition webTTYSigningKeyIDDomain :: string where
  "webTTYSigningKeyIDDomain = ''rstream-webtty-signing-key-id-v1''"

definition WebTTYSigningKeyID :: "crypto \<Rightarrow> bytes \<Rightarrow> bytes" where
  "WebTTYSigningKeyID cr publicKeyDER = sha256 cr (webTTYSigningKeyIDDomain @ publicKeyDER)"

definition validateWebTTYSigningPublicKey :: "ecdsa_public option \<Rightarrow> id_error option" where
  "validateWebTTYSigningPublicKey publicKey =
    (case publicKey of
       None \<Rightarrow> Some IdMissingKey
     | Some pk \<Rightarrow>
         if pk_curve pk \<noteq> CurveP256 then Some IdNotP256
         else if \<not> pk_on_curve pk then Some IdNotOnCurve
         else None)"

definition validateWebTTYSigningPrivateKey :: "ecdsa_private option \<Rightarrow> id_error option" where
  "validateWebTTYSigningPrivateKey privateKey =
    (case privateKey of
       None \<Rightarrow> Some IdMissingKey
     | Some sk \<Rightarrow>
         if pk_curve (sk_public sk) \<noteq> CurveP256 then Some IdNotP256
         else validateWebTTYSigningPublicKey (Some (sk_public sk)))"

definition MarshalWebTTYSigningPublicKey :: "signer \<Rightarrow> ecdsa_public option \<Rightarrow> id_error + bytes" where
  "MarshalWebTTYSigningPublicKey sg publicKey =
    (case validateWebTTYSigningPublicKey publicKey of
       Some e \<Rightarrow> Inl e
     | None \<Rightarrow> (case pkix_marshal sg (the publicKey) of None \<Rightarrow> Inl IdMarshal | Some der \<Rightarrow> Inr der))"

definition MarshalWebTTYSigningPrivateKey :: "signer \<Rightarrow> ecdsa_private option \<Rightarrow> id_error + bytes" where
  "MarshalWebTTYSigningPrivateKey sg privateKey =
    (case validateWebTTYSigningPrivateKey privateKey of
       Some e \<Rightarrow> Inl e
     | None \<Rightarrow> (case pkcs8_marshal sg (the privateKey) of None \<Rightarrow> Inl IdMarshal | Some der \<Rightarrow> Inr der))"

definition ParseWebTTYSigningPublicKey :: "signer \<Rightarrow> bytes \<Rightarrow> id_error + ecdsa_public" where
  "ParseWebTTYSigningPublicKey sg der =
    (case pkix_parse sg der of
       None \<Rightarrow> Inl IdParse
     | Some OtherKey \<Rightarrow> Inl IdNotECDSA
     | Some (EcdsaKey pk) \<Rightarrow>
         (case validateWebTTYSigningPublicKey (Some pk) of Some e \<Rightarrow> Inl e | None \<Rightarrow> Inr pk))"

definition ParseWebTTYSigningPrivateKey :: "signer \<Rightarrow> bytes \<Rightarrow> id_error + ecdsa_private" where
  "ParseWebTTYSigningPrivateKey sg der =
    (case pkcs8_parse sg der of
       None \<Rightarrow> Inl IdParse
     | Some OtherKey \<Rightarrow> Inl IdNotECDSA
     | Some (EcdsaKey sk) \<Rightarrow>
         (case validateWebTTYSigningPrivateKey (Some sk) of Some e \<Rightarrow> Inl e | None \<Rightarrow> Inr sk))"

definition signWebTTYProofTranscript ::
  "signer \<Rightarrow> bytes \<Rightarrow> ecdsa_private option \<Rightarrow> bytes \<Rightarrow> id_error + (bytes \<times> bytes)" where
  "signWebTTYProofTranscript sg random privateKey transcriptHash =
    (case validateWebTTYSigningPrivateKey privateKey of
       Some e \<Rightarrow> Inl e
     | None \<Rightarrow>
         if length transcriptHash \<noteq> 32 then Inl IdHashSize
         else case ecdsa_sign sg random (the privateKey) transcriptHash of
           None \<Rightarrow> Inl IdSign
         | Some signature \<Rightarrow> Inr (transcriptHash, signature))"

definition verifyWebTTYProofTranscript :: "signer \<Rightarrow> bytes \<Rightarrow> bytes \<Rightarrow> bytes \<Rightarrow> id_error option" where
  "verifyWebTTYProofTranscript sg publicKeyDER transcriptHash signature =
    (if length transcriptHash \<noteq> 32 then Some IdHashSize
     else case ParseWebTTYSigningPublicKey sg publicKeyDER of
       Inl e \<Rightarrow> Some e
     | Inr publicKey \<Rightarrow>
         if \<not> ecdsa_verify sg publicKey transcriptHash signature then Some IdBadSignature else None)"


section \<open>Endpoint identities\<close>

record WebTTYSigningIdentity =
  sg_KeyID :: bytes
  sg_PublicKey :: bytes
  sg_PrivateKey :: bytes

record WebTTYEndpointIdentity =
  en_Encryption :: E2EIdentity
  en_Signing :: WebTTYSigningIdentity

record WebTTYEndpointIdentityPublic =
  ep_KeyEnvelopeSuite :: enum32
  ep_EncryptionKeyID :: bytes
  ep_EncryptionPublicKey :: bytes
  ep_SigningKeyID :: bytes
  ep_SigningPublicKey :: bytes

definition identity_Public :: "bool \<Rightarrow> WebTTYEndpointIdentity \<Rightarrow> WebTTYEndpointIdentityPublic" where
  "identity_Public fips identity =
    (let suite = id_KeyEnvelopeSuite (en_Encryption identity);
         suite = (if suite = 0 then defaultE2EKeyEnvelopeSuite fips else suite)
     in \<lparr>ep_KeyEnvelopeSuite = suite,
         ep_EncryptionKeyID = id_KeyID (en_Encryption identity),
         ep_EncryptionPublicKey = id_PublicKey (en_Encryption identity),
         ep_SigningKeyID = sg_KeyID (en_Signing identity),
         ep_SigningPublicKey = sg_PublicKey (en_Signing identity)\<rparr>)"

definition E2EIdentityFromPrivateKeyForSuite ::
  "crypto \<Rightarrow> Status \<Rightarrow> bytes \<Rightarrow> enum32 \<Rightarrow> e2e_error + E2EIdentity" where
  "E2EIdentityFromPrivateKeyForSuite cr st privateKey suite =
    (case requireFIPSWebTTYRuntime st of
       Some e \<Rightarrow> Inl (E2EFips e)
     | None \<Rightarrow>
       rbind (e2eCurveParameters (Profile st) suite) (\<lambda>(cv, _, privateKeySize).
         if length privateKey \<noteq> privateKeySize then Inl IdentityPrivateKeySize
         else if \<not> valid_private cr cv privateKey then Inl IdentityPrivateKeyInvalid
         else let publicKey = public_of cr cv privateKey
         in Inr \<lparr>id_KeyEnvelopeSuite = suite, id_KeyID = E2EKeyID cr publicKey,
                 id_PublicKey = publicKey, id_PrivateKey = privateKey\<rparr>))"

definition webTTYSigningIdentityFromPrivateKeyDER ::
  "crypto \<Rightarrow> signer \<Rightarrow> bytes \<Rightarrow> id_error + WebTTYSigningIdentity" where
  "webTTYSigningIdentityFromPrivateKeyDER cr sg privateDER =
    rbind (ParseWebTTYSigningPrivateKey sg privateDER) (\<lambda>privateKey.
    rbind (MarshalWebTTYSigningPublicKey sg (Some (sk_public privateKey))) (\<lambda>publicDER.
      Inr \<lparr>sg_KeyID = WebTTYSigningKeyID cr publicDER, sg_PublicKey = publicDER,
           sg_PrivateKey = privateDER\<rparr>))"

definition validateE2EIdentity :: "crypto \<Rightarrow> Status \<Rightarrow> E2EIdentity \<Rightarrow> id_error option" where
  "validateE2EIdentity cr st identity =
    (let suite = (if id_KeyEnvelopeSuite identity = 0 then defaultE2EKeyEnvelopeSuite (Profile st)
                  else id_KeyEnvelopeSuite identity)
     in case e2eCurveParameters (Profile st) suite of
       Inl e \<Rightarrow> Some (IdE2E e)
     | Inr (_, publicKeySize, privateKeySize) \<Rightarrow>
         if length (id_PrivateKey identity) \<noteq> privateKeySize then Some (IdE2E IdentityPrivateKeySize)
         else case E2EIdentityFromPrivateKeyForSuite cr st (id_PrivateKey identity) suite of
           Inl e \<Rightarrow> Some (IdE2E e)
         | Inr derived \<Rightarrow>
             if length (id_PublicKey identity) \<noteq> publicKeySize then Some IdPublicKeySize
             else if id_PublicKey identity \<noteq> id_PublicKey derived then Some IdPublicKeyMismatch
             else if length (id_KeyID identity) \<noteq> 16 then Some IdKeyIDSize
             else if id_KeyID identity \<noteq> id_KeyID derived then Some IdKeyIDMismatch
             else None)"

definition validateWebTTYSigningIdentity ::
  "crypto \<Rightarrow> signer \<Rightarrow> WebTTYSigningIdentity \<Rightarrow> id_error option" where
  "validateWebTTYSigningIdentity cr sg identity =
    (case ParseWebTTYSigningPrivateKey sg (sg_PrivateKey identity) of
       Inl e \<Rightarrow> Some e
     | Inr privateKey \<Rightarrow>
       (case MarshalWebTTYSigningPublicKey sg (Some (sk_public privateKey)) of
          Inl e \<Rightarrow> Some e
        | Inr publicDER \<Rightarrow>
            if sg_PublicKey identity \<noteq> publicDER then Some IdPublicKeyMismatch
            else if sg_KeyID identity \<noteq> WebTTYSigningKeyID cr publicDER then Some IdKeyIDMismatch
            else None))"

definition validateWebTTYEndpointIdentity ::
  "crypto \<Rightarrow> signer \<Rightarrow> Status \<Rightarrow> WebTTYEndpointIdentity \<Rightarrow> id_error option" where
  "validateWebTTYEndpointIdentity cr sg st identity =
    (case validateE2EIdentity cr st (en_Encryption identity) of
       Some e \<Rightarrow> Some e
     | None \<Rightarrow> validateWebTTYSigningIdentity cr sg (en_Signing identity))"

definition GenerateWebTTYEndpointIdentityForSuite ::
  "crypto \<Rightarrow> signer \<Rightarrow> Status \<Rightarrow> bytes \<Rightarrow> ecdsa_private \<Rightarrow> enum32 \<Rightarrow> id_error + WebTTYEndpointIdentity" where
  "GenerateWebTTYEndpointIdentityForSuite cr sg st seed signingPrivateKey suite =
    rbind (wrap_err IdE2E (GenerateE2EIdentityForSuite cr st seed suite)) (\<lambda>encryption.
    rbind (MarshalWebTTYSigningPrivateKey sg (Some signingPrivateKey)) (\<lambda>privateDER.
    rbind (webTTYSigningIdentityFromPrivateKeyDER cr sg privateDER) (\<lambda>signing.
      Inr \<lparr>en_Encryption = encryption, en_Signing = signing\<rparr>)))"

end
