(* ===== verification/TrustStore.thy ===== *)
theory TrustStore
  imports Identity
begin

text \<open>
  The texts and files that carry identities between machines: the colon-separated key strings,
  the endpoint identity document, the known server keys and the authorized clients
  (\<^verbatim>\<open>webtty/e2e_identity_file.go\<close>, \<^verbatim>\<open>endpoint_identity.go\<close>, \<^verbatim>\<open>authorized_clients_file.go\<close>).
\<close>

section \<open>Suite names\<close>

definition E2EKeyFileCryptoSuite :: string where
  "E2EKeyFileCryptoSuite = ''webtty-e2e-x25519-hpke-aes-256-gcm-v1''"

definition E2EP256KeyFileCryptoSuite :: string where
  "E2EP256KeyFileCryptoSuite = ''webtty-e2e-p256-hkdf-sha256-aes-256-gcm-random-nonce-v1''"

definition E2EMixedKeyFileCryptoSuite :: string where
  "E2EMixedKeyFileCryptoSuite = ''webtty-e2e-mixed-v1''"

definition WebTTYEndpointIdentityCryptoSuite :: string where
  "WebTTYEndpointIdentityCryptoSuite = ''webtty-endpoint-x25519-ecdsa-p256-v1''"

definition WebTTYEndpointIdentityP256CryptoSuite :: string where
  "WebTTYEndpointIdentityP256CryptoSuite =
     ''webtty-endpoint-p256-hkdf-sha256-aes-256-gcm-random-nonce-ecdsa-p256-v1''"

definition e2eKeyFileCryptoSuiteForSuite :: "bool \<Rightarrow> enum32 \<Rightarrow> id_error + string" where
  "e2eKeyFileCryptoSuiteForSuite fips suite =
    (case validateProfileKeyEnvelopeSuite fips suite of
       Some e \<Rightarrow> Inl (IdE2E e)
     | None \<Rightarrow>
         if suite = KeyEnvelopeSuiteHPKEX25519 then Inr E2EKeyFileCryptoSuite
         else if suite = KeyEnvelopeSuiteP256 then Inr E2EP256KeyFileCryptoSuite
         else Inl (IdE2E (UnsupportedKeyEnvelopeSuite suite)))"

definition e2eKeyEnvelopeSuiteForKeyFileCryptoSuite :: "bool \<Rightarrow> string \<Rightarrow> id_error + enum32" where
  "e2eKeyEnvelopeSuiteForKeyFileCryptoSuite fips cryptoSuite =
    (let name = trim_space cryptoSuite in
     rbind (if name = E2EKeyFileCryptoSuite then Inr KeyEnvelopeSuiteHPKEX25519
            else if name = E2EP256KeyFileCryptoSuite then Inr KeyEnvelopeSuiteP256
            else Inl (IdCryptoSuite cryptoSuite)) (\<lambda>suite.
       case validateProfileKeyEnvelopeSuite fips suite of Some e \<Rightarrow> Inl (IdE2E e) | None \<Rightarrow> Inr suite))"

definition webTTYEndpointIdentityCryptoSuiteForKeyEnvelopeSuite ::
  "bool \<Rightarrow> enum32 \<Rightarrow> id_error + string" where
  "webTTYEndpointIdentityCryptoSuiteForKeyEnvelopeSuite fips suite =
    (let suite = (if suite = 0 then defaultE2EKeyEnvelopeSuite fips else suite) in
     case validateProfileKeyEnvelopeSuite fips suite of
       Some e \<Rightarrow> Inl (IdE2E e)
     | None \<Rightarrow>
         if suite = KeyEnvelopeSuiteHPKEX25519 then Inr WebTTYEndpointIdentityCryptoSuite
         else if suite = KeyEnvelopeSuiteP256 then Inr WebTTYEndpointIdentityP256CryptoSuite
         else Inl (IdE2E (UnsupportedKeyEnvelopeSuite suite)))"

definition webTTYEndpointIdentityKeyEnvelopeSuite :: "bool \<Rightarrow> string \<Rightarrow> id_error + enum32" where
  "webTTYEndpointIdentityKeyEnvelopeSuite fips cryptoSuite =
    (let name = trim_space cryptoSuite in
     rbind (if name = WebTTYEndpointIdentityCryptoSuite then Inr KeyEnvelopeSuiteHPKEX25519
            else if name = WebTTYEndpointIdentityP256CryptoSuite then Inr KeyEnvelopeSuiteP256
            else Inl (IdCryptoSuite cryptoSuite)) (\<lambda>suite.
       case validateProfileKeyEnvelopeSuite fips suite of Some e \<Rightarrow> Inl (IdE2E e) | None \<Rightarrow> Inr suite))"


section \<open>Key strings\<close>

definition E2ERecipientFromPublicKey :: "crypto \<Rightarrow> bool \<Rightarrow> bytes \<Rightarrow> e2e_error + E2ERecipient" where
  "E2ERecipientFromPublicKey cr fips publicKey =
    rbind (inferE2EKeyEnvelopeSuite fips publicKey) (\<lambda>suite.
      Inr \<lparr>rc_ID = [], rc_Kind = [], rc_KeyEnvelopeSuite = suite,
           rc_KeyID = E2EKeyID cr publicKey, rc_PublicKey = publicKey\<rparr>)"

definition ParseKnownServerKey :: "crypto \<Rightarrow> bool \<Rightarrow> string \<Rightarrow> id_error + E2ERecipient" where
  "ParseKnownServerKey cr fips text =
    (let value = trim_space text in
     if value = [] then Inl IdEmpty
     else case split_on (CHR '':'') value of
       [p] \<Rightarrow>
         rbind (decode_material p 0) (\<lambda>publicKey.
           wrap_err IdE2E (E2ERecipientFromPublicKey cr fips publicKey))
     | [k, p] \<Rightarrow>
         rbind (decode_material k 16) (\<lambda>keyID.
         rbind (decode_material p 0) (\<lambda>publicKey.
           if keyID \<noteq> E2EKeyID cr publicKey then Inl IdKeyIDMismatch
           else rbind (wrap_err IdE2E (E2ERecipientFromPublicKey cr fips publicKey)) (\<lambda>recipient.
             Inr (recipient\<lparr>rc_KeyID := keyID\<rparr>))))
     | _ \<Rightarrow> Inl IdFormat)"

definition signing_key_parts ::
  "crypto \<Rightarrow> signer \<Rightarrow> string \<Rightarrow> string \<Rightarrow> id_error + (bytes \<times> bytes)" where
  "signing_key_parts cr sg encodedKeyID encodedPublicKey =
    rbind (decode_material encodedKeyID 32) (\<lambda>signingKeyID.
    rbind (decode_material encodedPublicKey 0) (\<lambda>signingPublicKey.
    rbind (ParseWebTTYSigningPublicKey sg signingPublicKey) (\<lambda>_.
      if signingKeyID \<noteq> WebTTYSigningKeyID cr signingPublicKey then Inl IdKeyIDMismatch
      else Inr (signingKeyID, signingPublicKey))))"

definition ParseKnownServerEndpointIdentity ::
  "crypto \<Rightarrow> signer \<Rightarrow> bool \<Rightarrow> string \<Rightarrow> id_error + WebTTYEndpointIdentityPublic" where
  "ParseKnownServerEndpointIdentity cr sg fips text =
    (let value = trim_space text in
     if value = [] then Inl IdEmpty
     else case split_on (CHR '':'') value of
       [a, b, c, d] \<Rightarrow>
         rbind (ParseKnownServerKey cr fips (a @ '':'' @ b)) (\<lambda>encryption.
         rbind (signing_key_parts cr sg c d) (\<lambda>(signingKeyID, signingPublicKey).
           Inr \<lparr>ep_KeyEnvelopeSuite = rc_KeyEnvelopeSuite encryption,
                ep_EncryptionKeyID = rc_KeyID encryption,
                ep_EncryptionPublicKey = rc_PublicKey encryption,
                ep_SigningKeyID = signingKeyID, ep_SigningPublicKey = signingPublicKey\<rparr>))
     | _ \<Rightarrow> Inl IdFormat)"

definition KnownServerEndpointIdentityString :: "WebTTYEndpointIdentityPublic \<Rightarrow> string" where
  "KnownServerEndpointIdentityString identity =
     join '':'' [EncodeE2EKeyMaterial (ep_EncryptionKeyID identity),
       EncodeE2EKeyMaterial (ep_EncryptionPublicKey identity),
       EncodeE2EKeyMaterial (ep_SigningKeyID identity),
       EncodeE2EKeyMaterial (ep_SigningPublicKey identity)]"

definition AuthorizedClientSigningKeyString :: "WebTTYEndpointIdentityPublic \<Rightarrow> string" where
  "AuthorizedClientSigningKeyString identity =
     join '':'' [EncodeE2EKeyMaterial (ep_SigningKeyID identity),
       EncodeE2EKeyMaterial (ep_SigningPublicKey identity)]"

definition ParseAuthorizedClientSigningKey ::
  "crypto \<Rightarrow> signer \<Rightarrow> bool \<Rightarrow> string \<Rightarrow> id_error + (bytes \<times> bytes)" where
  "ParseAuthorizedClientSigningKey cr sg fips text =
    (let value = trim_space text in
     if value = [] then Inl IdEmpty
     else if count_list value (CHR '':'') = 3 then
       rbind (ParseKnownServerEndpointIdentity cr sg fips value) (\<lambda>identity.
         Inr (ep_SigningKeyID identity, ep_SigningPublicKey identity))
     else
       rbind (case split_on (CHR '':'') value of
                [p] \<Rightarrow> Inr ([], trim_space p)
              | [k, p] \<Rightarrow> Inr (trim_space k, trim_space p)
              | _ \<Rightarrow> Inl IdFormat) (\<lambda>(encodedKeyID, encodedPublicKey).
       rbind (decode_material encodedPublicKey 0) (\<lambda>publicKey.
       rbind (ParseWebTTYSigningPublicKey sg publicKey) (\<lambda>_.
         let keyID = WebTTYSigningKeyID cr publicKey in
         if encodedKeyID \<noteq> [] then
           rbind (decode_material encodedKeyID 32) (\<lambda>decodedKeyID.
             if decodedKeyID \<noteq> keyID then Inl IdKeyIDMismatch else Inr (decodedKeyID, publicKey))
         else Inr (keyID, publicKey)))))"


section \<open>The endpoint identity document\<close>

record WebTTYEndpointIdentityFile =
  ef_Version :: int
  ef_CryptoSuite :: string
  ef_EncryptionKeyID :: string
  ef_EncryptionPublicKey :: string
  ef_EncryptionPrivateKey :: string
  ef_SigningKeyID :: string
  ef_SigningPublicKey :: string
  ef_SigningPrivateKey :: string

definition encode_endpoint_identity ::
  "crypto \<Rightarrow> signer \<Rightarrow> Status \<Rightarrow> WebTTYEndpointIdentity \<Rightarrow> id_error + WebTTYEndpointIdentityFile" where
  "encode_endpoint_identity cr sg st identity =
    (case validateWebTTYEndpointIdentity cr sg st identity of
       Some e \<Rightarrow> Inl e
     | None \<Rightarrow>
       rbind (webTTYEndpointIdentityCryptoSuiteForKeyEnvelopeSuite (Profile st)
                (id_KeyEnvelopeSuite (en_Encryption identity))) (\<lambda>cryptoSuite.
         Inr \<lparr>ef_Version = 1, ef_CryptoSuite = cryptoSuite,
              ef_EncryptionKeyID = EncodeE2EKeyMaterial (id_KeyID (en_Encryption identity)),
              ef_EncryptionPublicKey = EncodeE2EKeyMaterial (id_PublicKey (en_Encryption identity)),
              ef_EncryptionPrivateKey = EncodeE2EKeyMaterial (id_PrivateKey (en_Encryption identity)),
              ef_SigningKeyID = EncodeE2EKeyMaterial (sg_KeyID (en_Signing identity)),
              ef_SigningPublicKey = EncodeE2EKeyMaterial (sg_PublicKey (en_Signing identity)),
              ef_SigningPrivateKey = EncodeE2EKeyMaterial (sg_PrivateKey (en_Signing identity))\<rparr>))"

definition validateEncodedE2EPublicMaterial ::
  "bool \<Rightarrow> E2EIdentity \<Rightarrow> string \<Rightarrow> string \<Rightarrow> id_error + unit" where
  "validateEncodedE2EPublicMaterial fips identity encodedKeyID encodedPublicKey =
    rbind (decode_material encodedKeyID 16) (\<lambda>keyID.
    rbind (wrap_err IdE2E (e2eCurveParameters fips (id_KeyEnvelopeSuite identity)))
      (\<lambda>(_, publicKeySize, _).
    rbind (decode_material encodedPublicKey (int publicKeySize)) (\<lambda>publicKey.
      if id_KeyID identity \<noteq> keyID then Inl IdKeyIDMismatch
      else if id_PublicKey identity \<noteq> publicKey then Inl IdPublicKeyMismatch
      else Inr ())))"

definition validateEncodedWebTTYSigningPublicMaterial ::
  "WebTTYSigningIdentity \<Rightarrow> string \<Rightarrow> string \<Rightarrow> id_error + unit" where
  "validateEncodedWebTTYSigningPublicMaterial identity encodedKeyID encodedPublicKey =
    rbind (decode_material encodedKeyID 32) (\<lambda>keyID.
    rbind (decode_material encodedPublicKey 0) (\<lambda>publicKey.
      if sg_KeyID identity \<noteq> keyID then Inl IdKeyIDMismatch
      else if sg_PublicKey identity \<noteq> publicKey then Inl IdPublicKeyMismatch
      else Inr ()))"

definition decode_endpoint_identity ::
  "crypto \<Rightarrow> signer \<Rightarrow> Status \<Rightarrow> WebTTYEndpointIdentityFile \<Rightarrow> id_error + WebTTYEndpointIdentity" where
  "decode_endpoint_identity cr sg st doc =
    (if ef_Version doc \<noteq> 1 then Inl IdVersion
     else
       rbind (webTTYEndpointIdentityKeyEnvelopeSuite (Profile st) (ef_CryptoSuite doc)) (\<lambda>suite.
       rbind (wrap_err IdE2E (e2eCurveParameters (Profile st) suite)) (\<lambda>(_, _, privateKeySize).
       rbind (decode_material (ef_EncryptionPrivateKey doc) (int privateKeySize)) (\<lambda>encryptionPrivateKey.
       rbind (wrap_err IdE2E (E2EIdentityFromPrivateKeyForSuite cr st encryptionPrivateKey suite))
         (\<lambda>encryption.
       rbind (validateEncodedE2EPublicMaterial (Profile st) encryption (ef_EncryptionKeyID doc)
                (ef_EncryptionPublicKey doc)) (\<lambda>_.
       rbind (decode_material (ef_SigningPrivateKey doc) 0) (\<lambda>signingPrivateKey.
       rbind (webTTYSigningIdentityFromPrivateKeyDER cr sg signingPrivateKey) (\<lambda>signing.
       rbind (validateEncodedWebTTYSigningPublicMaterial signing (ef_SigningKeyID doc)
                (ef_SigningPublicKey doc)) (\<lambda>_.
         Inr \<lparr>en_Encryption = encryption, en_Signing = signing\<rparr>)))))))))"


section \<open>Known servers\<close>

record KnownServerKeyEntry =
  ks_Name :: string
  ks_KeyID :: string
  ks_PublicKey :: string
  ks_SigningKeyID :: string
  ks_SigningPublicKey :: string

record KnownServerKeysFile =
  kf_Version :: int
  kf_CryptoSuite :: string
  kf_KnownServers :: "KnownServerKeyEntry list"

definition knownServerKeyFromEntry ::
  "crypto \<Rightarrow> bool \<Rightarrow> KnownServerKeyEntry \<Rightarrow> id_error + E2ERecipient" where
  "knownServerKeyFromEntry cr fips entry =
    (if trim_space (ks_Name entry) = [] then Inl IdNameRequired
     else rbind (decode_material (ks_PublicKey entry) 0) (\<lambda>publicKey.
       let keyID = E2EKeyID cr publicKey in
       if trim_space (ks_KeyID entry) = [] then Inl IdKeyIDRequired
       else rbind (decode_material (ks_KeyID entry) 16) (\<lambda>decodedKeyID.
         if decodedKeyID \<noteq> keyID then Inl IdKeyIDMismatch
         else rbind (wrap_err IdE2E (E2ERecipientFromPublicKey cr fips publicKey)) (\<lambda>recipient.
           Inr (recipient\<lparr>rc_KeyID := decodedKeyID\<rparr>)))))"

definition knownServerEndpointIdentityFromEntry ::
  "crypto \<Rightarrow> signer \<Rightarrow> bool \<Rightarrow> KnownServerKeyEntry \<Rightarrow> id_error + WebTTYEndpointIdentityPublic option" where
  "knownServerEndpointIdentityFromEntry cr sg fips entry =
    rbind (knownServerKeyFromEntry cr fips entry) (\<lambda>encryption.
      let k = trim_space (ks_SigningKeyID entry); p = trim_space (ks_SigningPublicKey entry) in
      if k = [] \<and> p = [] then Inr None
      else if k = [] \<or> p = [] then Inl IdSigningPairRequired
      else rbind (signing_key_parts cr sg (ks_SigningKeyID entry) (ks_SigningPublicKey entry))
        (\<lambda>(signingKeyID, signingPublicKey).
          Inr (Some \<lparr>ep_KeyEnvelopeSuite = rc_KeyEnvelopeSuite encryption,
                ep_EncryptionKeyID = rc_KeyID encryption,
                ep_EncryptionPublicKey = rc_PublicKey encryption,
                ep_SigningKeyID = signingKeyID, ep_SigningPublicKey = signingPublicKey\<rparr>)))"

text \<open>The suite of the entries so far, whether two suites occur, and whether there are entries.\<close>

fun infer_known_suite ::
  "crypto \<Rightarrow> bool \<Rightarrow> enum32 \<Rightarrow> KnownServerKeyEntry list \<Rightarrow> id_error + (enum32 \<times> bool \<times> bool)" where
  "infer_known_suite cr fips suite [] = Inr (suite, False, suite \<noteq> 0)"
| "infer_known_suite cr fips suite (entry # rest) =
    rbind (knownServerKeyFromEntry cr fips entry) (\<lambda>recipient.
      if suite = 0 then infer_known_suite cr fips (rc_KeyEnvelopeSuite recipient) rest
      else if rc_KeyEnvelopeSuite recipient \<noteq> suite then Inr (0, True, True)
      else infer_known_suite cr fips suite rest)"

definition inferKnownServerKeysCryptoSuite ::
  "crypto \<Rightarrow> bool \<Rightarrow> KnownServerKeyEntry list \<Rightarrow> id_error + (enum32 \<times> bool \<times> bool)" where
  "inferKnownServerKeysCryptoSuite cr fips entries = infer_known_suite cr fips 0 entries"

definition validateKnownServerKeysCryptoSuite ::
  "crypto \<Rightarrow> bool \<Rightarrow> KnownServerKeysFile \<Rightarrow> id_error + unit" where
  "validateKnownServerKeysCryptoSuite cr fips doc =
    (let declared = trim_space (kf_CryptoSuite doc) in
     rbind (inferKnownServerKeysCryptoSuite cr fips (kf_KnownServers doc))
       (\<lambda>(inferredSuite, mixed, hasEntries).
         if declared = E2EMixedKeyFileCryptoSuite then Inr ()
         else rbind (e2eKeyEnvelopeSuiteForKeyFileCryptoSuite fips declared) (\<lambda>declaredSuite.
           if mixed then Inl IdMixedMarkerRequired
           else if hasEntries \<and> declaredSuite \<noteq> inferredSuite then Inl IdFileSuiteMismatch
           else Inr ())))"

text \<open>What \<^verbatim>\<open>writeKnownServerKeysFileUnlocked\<close> puts into the file, and what reading it accepts.\<close>

definition write_known_servers ::
  "crypto \<Rightarrow> bool \<Rightarrow> KnownServerKeysFile \<Rightarrow> id_error + KnownServerKeysFile" where
  "write_known_servers cr fips doc0 =
    (let doc = doc0\<lparr>kf_Version := 1\<rparr> in
     rbind (inferKnownServerKeysCryptoSuite cr fips (kf_KnownServers doc))
       (\<lambda>(inferredSuite, mixed, hasEntries).
     rbind (if mixed then Inr (doc\<lparr>kf_CryptoSuite := E2EMixedKeyFileCryptoSuite\<rparr>)
            else if hasEntries then
              rbind (e2eKeyFileCryptoSuiteForSuite fips inferredSuite) (\<lambda>s. Inr (doc\<lparr>kf_CryptoSuite := s\<rparr>))
            else if trim_space (kf_CryptoSuite doc) = [] then
              rbind (e2eKeyFileCryptoSuiteForSuite fips (defaultE2EKeyEnvelopeSuite fips)) (\<lambda>s.
                Inr (doc\<lparr>kf_CryptoSuite := s\<rparr>))
            else Inr doc) (\<lambda>doc.
     rbind (validateKnownServerKeysCryptoSuite cr fips doc) (\<lambda>_. Inr doc))))"

definition DecodeKnownServerKeysFile ::
  "crypto \<Rightarrow> bool \<Rightarrow> KnownServerKeysFile \<Rightarrow> id_error + KnownServerKeysFile" where
  "DecodeKnownServerKeysFile cr fips doc =
    (if kf_Version doc \<noteq> 1 then Inl IdVersion
     else rbind (validateKnownServerKeysCryptoSuite cr fips doc) (\<lambda>_. Inr doc))"


section \<open>Authorized clients\<close>

record AuthorizedClientKeyEntry =
  ac_Name :: string
  ac_SigningKeyID :: string
  ac_SigningPublicKey :: string

definition NewAuthorizedClientKeyEntry ::
  "crypto \<Rightarrow> signer \<Rightarrow> bool \<Rightarrow> string \<Rightarrow> string \<Rightarrow> id_error + AuthorizedClientKeyEntry" where
  "NewAuthorizedClientKeyEntry cr sg fips name rawKey =
    (let name = trim_space name in
     if name = [] then Inl IdNameRequired
     else rbind (ParseAuthorizedClientSigningKey cr sg fips rawKey) (\<lambda>(keyID, publicKey).
       Inr \<lparr>ac_Name = name, ac_SigningKeyID = EncodeE2EKeyMaterial keyID,
            ac_SigningPublicKey = EncodeE2EKeyMaterial publicKey\<rparr>))"

definition authorizedClientSigningKeyFromEntry ::
  "crypto \<Rightarrow> signer \<Rightarrow> bool \<Rightarrow> AuthorizedClientKeyEntry \<Rightarrow> id_error + (bytes \<times> bytes)" where
  "authorizedClientSigningKeyFromEntry cr sg fips entry =
    (if trim_space (ac_Name entry) = [] then Inl IdNameRequired
     else ParseAuthorizedClientSigningKey cr sg fips (ac_SigningKeyID entry @ '':'' @ ac_SigningPublicKey entry))"

fun load_authorized ::
  "crypto \<Rightarrow> signer \<Rightarrow> bool \<Rightarrow> AuthorizedClientKeyEntry list \<Rightarrow> (bytes \<rightharpoonup> bytes) \<Rightarrow> id_error + (bytes \<rightharpoonup> bytes)" where
  "load_authorized cr sg fips [] keys = Inr keys"
| "load_authorized cr sg fips (entry # rest) keys =
     rbind (authorizedClientSigningKeyFromEntry cr sg fips entry) (\<lambda>(keyID, publicKey).
       load_authorized cr sg fips rest (keys(keyID \<mapsto> publicKey)))"

definition LoadAuthorizedClientSigningKeysFile ::
  "crypto \<Rightarrow> signer \<Rightarrow> bool \<Rightarrow> AuthorizedClientKeyEntry list \<Rightarrow> id_error + (bytes \<rightharpoonup> bytes)" where
  "LoadAuthorizedClientSigningKeysFile cr sg fips entries = load_authorized cr sg fips entries Map.empty"


section \<open>Lemmas\<close>

text \<open>The identities the parsers hand out: every key id is derived from its key.\<close>

definition signing_consistent :: "crypto \<Rightarrow> signer \<Rightarrow> bytes \<Rightarrow> bytes \<Rightarrow> bool" where
  "signing_consistent cr sg keyID publicKey \<longleftrightarrow>
     keyID = WebTTYSigningKeyID cr publicKey \<and> length keyID = 32 \<and> publicKey \<noteq> []
     \<and> is_ok (ParseWebTTYSigningPublicKey sg publicKey)"

definition encryption_consistent :: "crypto \<Rightarrow> bool \<Rightarrow> enum32 \<Rightarrow> bytes \<Rightarrow> bytes \<Rightarrow> bool" where
  "encryption_consistent cr fips suite keyID publicKey \<longleftrightarrow>
     inferE2EKeyEnvelopeSuite fips publicKey = Inr suite
     \<and> keyID = E2EKeyID cr publicKey \<and> length keyID = 16"

definition public_consistent :: "crypto \<Rightarrow> signer \<Rightarrow> bool \<Rightarrow> WebTTYEndpointIdentityPublic \<Rightarrow> bool" where
  "public_consistent cr sg fips idy \<longleftrightarrow>
     encryption_consistent cr fips (ep_KeyEnvelopeSuite idy) (ep_EncryptionKeyID idy) (ep_EncryptionPublicKey idy)
     \<and> signing_consistent cr sg (ep_SigningKeyID idy) (ep_SigningPublicKey idy)"

lemma infer_nonempty: "inferE2EKeyEnvelopeSuite fips pk = Inr s \<Longrightarrow> pk \<noteq> []"
  by (auto simp: inferE2EKeyEnvelopeSuite_def)

lemma signing_key_parts_iff:
  "signing_key_parts cr sg a b = Inr (k, p) \<longleftrightarrow>
     trim_space a = b64_encode k \<and> trim_space b = b64_encode p \<and> signing_consistent cr sg k p"
proof
  assume "signing_key_parts cr sg a b = Inr (k, p)"
  then show "trim_space a = b64_encode k \<and> trim_space b = b64_encode p \<and> signing_consistent cr sg k p"
    by (auto simp: signing_key_parts_def signing_consistent_def decode_material_iff is_ok_def split: if_splits)
next
  assume h: "trim_space a = b64_encode k \<and> trim_space b = b64_encode p \<and> signing_consistent cr sg k p"
  then have "k \<noteq> []" "DecodeE2EKeyMaterial b 0 = Inr p"
    by (auto simp: decode_material_iff signing_consistent_def)
  moreover from this h have "DecodeE2EKeyMaterial a 32 = Inr k"
    by (auto simp: decode_material_iff signing_consistent_def)
  ultimately show "signing_key_parts cr sg a b = Inr (k, p)"
    using h by (auto simp: signing_key_parts_def signing_consistent_def is_ok_def split: sum.splits)
qed

lemma b64_no_colon: "CHR '':'' \<notin> set (b64_encode v)"
proof
  assume "CHR '':'' \<in> set (b64_encode v)"
  then obtain n where n: "n < 64" "CHR '':'' = b64_char n" using b64_encode_chars by blast
  then have "nat_of_byte (CHR '':'') = nat_of_byte (b64_char n)" by simp
  with n(1) show False by (simp add: b64_char_code split: if_splits)
qed

lemma split_two_keys:
  "split_on (CHR '':'') (b64_encode a @ CHR '':'' # b64_encode b) = [b64_encode a, b64_encode b]"
  by (simp add: split_on_append split_on_no_sep b64_no_colon)

lemma trim_key_pair:
  "a \<noteq> [] \<Longrightarrow> b \<noteq> [] \<Longrightarrow> trim_space (b64_encode a @ CHR '':'' # b64_encode b)
     = b64_encode a @ CHR '':'' # b64_encode b"
  using b64_encode_graphic [of a] b64_encode_graphic [of b]
  by (intro trim_space_all_graphic) (simp add: graphic_def)

text \<open>SHA-256 has digests of 32 bytes.\<close>

definition hash_correct :: "crypto \<Rightarrow> bool" where
  "hash_correct cr \<longleftrightarrow> (\<forall>b. length (sha256 cr b) = 32)"

lemma hash_lengths:
  assumes "hash_correct cr"
  shows "length (E2EKeyID cr pk) = 16" "length (WebTTYSigningKeyID cr der) = 32"
  using assms by (simp_all add: hash_correct_def E2EKeyID_def WebTTYSigningKeyID_def)

lemma recipient_from_key_iff:
  "E2ERecipientFromPublicKey cr fips pk = Inr r \<longleftrightarrow>
     (\<exists>suite. inferE2EKeyEnvelopeSuite fips pk = Inr suite \<and>
        r = \<lparr>rc_ID = [], rc_Kind = [], rc_KeyEnvelopeSuite = suite,
             rc_KeyID = E2EKeyID cr pk, rc_PublicKey = pk\<rparr>)"
  by (auto simp: E2ERecipientFromPublicKey_def)

lemma ParseKnownServerKey_consistent:
  assumes "hash_correct cr" "ParseKnownServerKey cr fips text = Inr r"
  shows "encryption_consistent cr fips (rc_KeyEnvelopeSuite r) (rc_KeyID r) (rc_PublicKey r)"
proof -
  let ?parts = "split_on (CHR '':'') (trim_space text)"
  have ne: "trim_space text \<noteq> []"
    using assms(2) by (auto simp: ParseKnownServerKey_def Let_def)
  from assms(2) ne consider p where "?parts = [p]" | k p where "?parts = [k, p]"
    by (simp add: ParseKnownServerKey_def Let_def split: list.splits)
  then show ?thesis
    using assms ne
    by cases (auto simp: ParseKnownServerKey_def encryption_consistent_def recipient_from_key_iff
        hash_lengths Let_def split: if_splits)
qed

lemma ParseKnownServerKey_string:
  assumes "encryption_consistent cr fips suite k p"
  shows "ParseKnownServerKey cr fips (b64_encode k @ CHR '':'' # b64_encode p)
     = Inr \<lparr>rc_ID = [], rc_Kind = [], rc_KeyEnvelopeSuite = suite, rc_KeyID = k, rc_PublicKey = p\<rparr>"
proof -
  from assms have "k \<noteq> []" "p \<noteq> []"
    by (auto simp: encryption_consistent_def dest: infer_nonempty)
  moreover have "DecodeE2EKeyMaterial (b64_encode k) 16 = Inr k" "DecodeE2EKeyMaterial (b64_encode p) 0 = Inr p"
    using assms calculation by (auto simp: decode_material_iff encryption_consistent_def)
  ultimately show ?thesis
    using assms by (simp add: ParseKnownServerKey_def trim_key_pair split_two_keys
        encryption_consistent_def E2ERecipientFromPublicKey_def Let_def)
qed

lemma endpoint_string_parts:
  assumes "public_consistent cr sg fips idy"
  shows "trim_space (KnownServerEndpointIdentityString idy) = KnownServerEndpointIdentityString idy"
    and "KnownServerEndpointIdentityString idy \<noteq> []"
    and "split_on (CHR '':'') (KnownServerEndpointIdentityString idy) =
      [b64_encode (ep_EncryptionKeyID idy), b64_encode (ep_EncryptionPublicKey idy),
       b64_encode (ep_SigningKeyID idy), b64_encode (ep_SigningPublicKey idy)]"
proof -
  have "list_all graphic (KnownServerEndpointIdentityString idy)"
    using b64_encode_graphic
    by (simp add: KnownServerEndpointIdentityString_def EncodeE2EKeyMaterial_def graphic_def)
  then show "trim_space (KnownServerEndpointIdentityString idy) = KnownServerEndpointIdentityString idy"
    by (rule trim_space_all_graphic)
  show "KnownServerEndpointIdentityString idy \<noteq> []"
    by (simp add: KnownServerEndpointIdentityString_def)
  show "split_on (CHR '':'') (KnownServerEndpointIdentityString idy) =
      [b64_encode (ep_EncryptionKeyID idy), b64_encode (ep_EncryptionPublicKey idy),
       b64_encode (ep_SigningKeyID idy), b64_encode (ep_SigningPublicKey idy)]"
    unfolding KnownServerEndpointIdentityString_def EncodeE2EKeyMaterial_def
    by (rule split_on_join) (auto simp: b64_no_colon)
qed

lemma ParseKnownServerEndpointIdentity_string:
  assumes "public_consistent cr sg fips idy"
  shows "ParseKnownServerEndpointIdentity cr sg fips (KnownServerEndpointIdentityString idy) = Inr idy"
proof -
  have "signing_key_parts cr sg (b64_encode (ep_SigningKeyID idy)) (b64_encode (ep_SigningPublicKey idy))
      = Inr (ep_SigningKeyID idy, ep_SigningPublicKey idy)"
    using assms by (simp add: signing_key_parts_iff public_consistent_def)
  moreover have "ParseKnownServerKey cr fips
      (b64_encode (ep_EncryptionKeyID idy) @ CHR '':'' # b64_encode (ep_EncryptionPublicKey idy))
     = Inr \<lparr>rc_ID = [], rc_Kind = [], rc_KeyEnvelopeSuite = ep_KeyEnvelopeSuite idy,
            rc_KeyID = ep_EncryptionKeyID idy, rc_PublicKey = ep_EncryptionPublicKey idy\<rparr>"
    using assms unfolding public_consistent_def by (blast intro: ParseKnownServerKey_string)
  ultimately show ?thesis
    using endpoint_string_parts [OF assms] by (simp add: ParseKnownServerEndpointIdentity_def)
qed

lemma ParseKnownServerEndpointIdentity_consistent:
  assumes "hash_correct cr" "ParseKnownServerEndpointIdentity cr sg fips text = Inr idy"
  shows "public_consistent cr sg fips idy"
proof -
  let ?parts = "split_on (CHR '':'') (trim_space text)"
  have ne: "trim_space text \<noteq> []"
    using assms(2) by (auto simp: ParseKnownServerEndpointIdentity_def Let_def)
  from assms(2) ne obtain a b c d where "?parts = [a, b, c, d]"
    by (simp add: ParseKnownServerEndpointIdentity_def Let_def split: list.splits)
  with assms ne obtain enc k p where "ParseKnownServerKey cr fips (a @ '':'' @ b) = Inr enc"
    "signing_key_parts cr sg c d = Inr (k, p)"
    "idy = \<lparr>ep_KeyEnvelopeSuite = rc_KeyEnvelopeSuite enc, ep_EncryptionKeyID = rc_KeyID enc,
      ep_EncryptionPublicKey = rc_PublicKey enc, ep_SigningKeyID = k, ep_SigningPublicKey = p\<rparr>"
    by (auto simp: ParseKnownServerEndpointIdentity_def)
  with ParseKnownServerKey_consistent [OF assms(1)] show ?thesis
    by (simp add: public_consistent_def signing_key_parts_iff)
qed

lemma ParseAuthorized_consistent:
  assumes "hash_correct cr" "ParseAuthorizedClientSigningKey cr sg fips text = Inr (k, p)"
  shows "signing_consistent cr sg k p"
proof (cases "count_list (trim_space text) (CHR '':'') = 3")
  case True
  with assms obtain idy where "ParseKnownServerEndpointIdentity cr sg fips (trim_space text) = Inr idy"
    "k = ep_SigningKeyID idy" "p = ep_SigningPublicKey idy"
    by (auto simp: ParseAuthorizedClientSigningKey_def Let_def split: if_splits)
  with ParseKnownServerEndpointIdentity_consistent [OF assms(1)] show ?thesis
    by (simp add: public_consistent_def)
next
  case False
  with assms show ?thesis
    by (auto simp: ParseAuthorizedClientSigningKey_def Let_def decode_material_iff signing_consistent_def
        hash_lengths is_ok_def split: if_splits)
qed

lemma load_authorized_keys:
  assumes "hash_correct cr" "load_authorized cr sg fips entries m = Inr m'"
    and "\<And>k p. m k = Some p \<Longrightarrow> signing_consistent cr sg k p"
  shows "m' k = Some p \<Longrightarrow> signing_consistent cr sg k p"
  using assms(2,3)
proof (induction entries arbitrary: m)
  case (Cons entry rest)
  then obtain k' p' where e: "authorizedClientSigningKeyFromEntry cr sg fips entry = Inr (k', p')"
    and rest: "load_authorized cr sg fips rest (m(k' \<mapsto> p')) = Inr m'"
    by auto
  from e have "signing_consistent cr sg k' p'"
    by (auto simp: authorizedClientSigningKeyFromEntry_def intro: ParseAuthorized_consistent [OF assms(1)]
        split: if_splits)
  with Cons.prems show ?case
    by (intro Cons.IH [OF Cons.prems(1) rest]) (auto split: if_splits)
qed simp


text \<open>Documents.\<close>

definition suite_or_default :: "bool \<Rightarrow> enum32 \<Rightarrow> enum32" where
  "suite_or_default fips suite = (if suite = 0 then defaultE2EKeyEnvelopeSuite fips else suite)"

lemma trim_suite_names [simp]:
  "trim_space WebTTYEndpointIdentityCryptoSuite = WebTTYEndpointIdentityCryptoSuite"
  "trim_space WebTTYEndpointIdentityP256CryptoSuite = WebTTYEndpointIdentityP256CryptoSuite"
  "trim_space E2EKeyFileCryptoSuite = E2EKeyFileCryptoSuite"
  "trim_space E2EP256KeyFileCryptoSuite = E2EP256KeyFileCryptoSuite"
  "trim_space E2EMixedKeyFileCryptoSuite = E2EMixedKeyFileCryptoSuite"
  by (rule trim_space_graphic, simp add: graphic_def WebTTYEndpointIdentityCryptoSuite_def
      WebTTYEndpointIdentityP256CryptoSuite_def E2EKeyFileCryptoSuite_def
      E2EP256KeyFileCryptoSuite_def E2EMixedKeyFileCryptoSuite_def)+

lemma suite_names_distinct [simp]:
  "WebTTYEndpointIdentityP256CryptoSuite \<noteq> WebTTYEndpointIdentityCryptoSuite"
  "E2EP256KeyFileCryptoSuite \<noteq> E2EKeyFileCryptoSuite"
  "E2EP256KeyFileCryptoSuite \<noteq> E2EMixedKeyFileCryptoSuite"
  "E2EKeyFileCryptoSuite \<noteq> E2EMixedKeyFileCryptoSuite"
  by (simp_all add: WebTTYEndpointIdentityCryptoSuite_def
      WebTTYEndpointIdentityP256CryptoSuite_def E2EKeyFileCryptoSuite_def
      E2EP256KeyFileCryptoSuite_def E2EMixedKeyFileCryptoSuite_def)

lemmas suite_names_distinct' [simp] = suite_names_distinct [symmetric]

lemma endpoint_suite_roundtrip:
  assumes "webTTYEndpointIdentityCryptoSuiteForKeyEnvelopeSuite fips suite = Inr name"
  shows "webTTYEndpointIdentityKeyEnvelopeSuite fips name = Inr (suite_or_default fips suite)"
  using assms
  by (auto simp: webTTYEndpointIdentityCryptoSuiteForKeyEnvelopeSuite_def Let_def suite_or_default_def
      webTTYEndpointIdentityKeyEnvelopeSuite_def split: option.splits if_splits)

lemma file_suite_roundtrip:
  assumes "e2eKeyFileCryptoSuiteForSuite fips suite = Inr name"
  shows "e2eKeyEnvelopeSuiteForKeyFileCryptoSuite fips name = Inr suite"
    and "trim_space name = name" "name \<noteq> E2EMixedKeyFileCryptoSuite"
  using assms
  by (auto simp: e2eKeyFileCryptoSuiteForSuite_def e2eKeyEnvelopeSuiteForKeyFileCryptoSuite_def Let_def
      split: option.splits if_splits)

lemma file_suite_nonempty:
  assumes "e2eKeyFileCryptoSuiteForSuite fips suite = Inr name"
  shows "trim_space name \<noteq> []"
  using assms
  by (auto simp: e2eKeyFileCryptoSuiteForSuite_def split: option.splits if_splits)
     (simp_all add: E2EKeyFileCryptoSuite_def E2EP256KeyFileCryptoSuite_def)

lemma validateE2EIdentity_None:
  assumes "validateE2EIdentity cr st identity = None"
  shows "\<exists>cv pubSize. e2eCurveParameters (Profile st) (suite_or_default (Profile st) (id_KeyEnvelopeSuite identity))
        = Inr (cv, pubSize, 32) \<and> length (id_PrivateKey identity) = 32
      \<and> length (id_PublicKey identity) = pubSize \<and> pubSize > 0 \<and> length (id_KeyID identity) = 16
      \<and> E2EIdentityFromPrivateKeyForSuite cr st (id_PrivateKey identity)
           (suite_or_default (Profile st) (id_KeyEnvelopeSuite identity))
         = Inr (identity\<lparr>id_KeyEnvelopeSuite := suite_or_default (Profile st) (id_KeyEnvelopeSuite identity)\<rparr>)"
proof -
  let ?s = "suite_or_default (Profile st) (id_KeyEnvelopeSuite identity)"
  obtain cv m n where cv: "e2eCurveParameters (Profile st) ?s = Inr (cv, m, n)"
    using assms by (auto simp: validateE2EIdentity_def suite_or_default_def Let_def split: sum.splits)
  then have sizes: "n = 32" "m > 0" using e2eCurveParameters_Inr by fastforce+
  obtain d where d: "E2EIdentityFromPrivateKeyForSuite cr st (id_PrivateKey identity) ?s = Inr d"
    using assms cv
    by (auto simp: validateE2EIdentity_def suite_or_default_def Let_def split: sum.splits if_splits)
  with assms cv sizes have f: "length (id_PrivateKey identity) = 32" "length (id_PublicKey identity) = m"
    "id_PublicKey d = id_PublicKey identity" "length (id_KeyID identity) = 16" "id_KeyID d = id_KeyID identity"
    by (auto simp: validateE2EIdentity_def suite_or_default_def Let_def split: if_splits)
  from d have "id_KeyEnvelopeSuite d = ?s" "id_PrivateKey d = id_PrivateKey identity"
    by (auto simp: E2EIdentityFromPrivateKeyForSuite_def Let_def split: option.splits if_splits)
  with f have "d = identity\<lparr>id_KeyEnvelopeSuite := ?s\<rparr>" by (cases d; cases identity) simp
  with cv d f sizes show ?thesis by auto
qed

lemma validateWebTTYSigningIdentity_None:
  assumes "hash_correct cr" "validateWebTTYSigningIdentity cr sg identity = None"
  shows "webTTYSigningIdentityFromPrivateKeyDER cr sg (sg_PrivateKey identity) = Inr identity
    \<and> length (sg_KeyID identity) = 32"
  using assms
  by (cases identity) (auto simp: validateWebTTYSigningIdentity_def webTTYSigningIdentityFromPrivateKeyDER_def
      hash_lengths split: sum.splits if_splits)

end
