(* ===== verification/Handshake.thy ===== *)
theory Handshake
  imports TrustStore
begin

text \<open>
  The WebTTY handshake (\<^verbatim>\<open>webtty/auth_handshake.go\<close>): the server hello and its proof, the
  client's check of it, the client proof of an open or attach request, and the server's
  verification.

  Protocol messages are records; a missing sub-message is \<open>None\<close>. Times are nanoseconds since
  the epoch, read from and written to RFC 3339 text by a \<open>clock_text\<close>. The configuration
  message of an open request is opaque: only its deterministic encoding is hashed.
\<close>

section \<open>Messages and sessions\<close>

record pb_EndpointIdentity =
  pe_SigningKeyId :: bytes
  pe_SigningPublicKey :: bytes
  pe_SignatureSuite :: enum32
  pe_EncryptionKeyId :: bytes
  pe_EncryptionPublicKey :: bytes
  pe_KeyEnvelopeSuite :: enum32

record pb_ServerProof =
  sp_SignatureSuite :: enum32
  sp_SigningKeyId :: bytes
  sp_TranscriptHash :: bytes
  sp_Signature :: bytes

record pb_ServerHello =
  sh_ProtocolVersion :: enum32
  sh_SessionNonce :: bytes
  sh_ServerIdentity :: "pb_EndpointIdentity option"
  sh_PayloadSuites :: "enum32 list"
  sh_KeyEnvelopeSuites :: "enum32 list"
  sh_SignatureSuites :: "enum32 list"
  sh_AuthRequirement :: enum32
  sh_WorkspaceId :: "string option"
  sh_ProjectId :: "string option"
  sh_ServerId :: "string option"
  sh_SessionId :: string
  sh_ServerProof :: "pb_ServerProof option"

record pb_ClientProof =
  cp_PrincipalId :: "string option"
  cp_SigningKeyId :: bytes
  cp_SigningPublicKey :: bytes
  cp_SignatureSuite :: enum32
  cp_TranscriptHash :: bytes
  cp_Signature :: bytes
  cp_IssuedAt :: string
  cp_ExpiresAt :: string
  cp_DeviceId :: "string option"
  cp_BrowserId :: "string option"
  cp_Credential :: "bytes option"

record 'cfg pb_Open =
  op_Config :: "'cfg option"
  op_SessionKeyGrant :: "SessionKeyGrant option"
  op_ClientProof :: "pb_ClientProof option"

datatype hs_error =
    HsIdentity id_error
  | HsSuite e2e_error
  | HsSessionClosed
  | HsProofRequired
  | HsProofInvalid
  | HsUnauthorized
  | HsServerIdentityRequired
  | HsVerifier string
  | HsHelloRequired
  | HsHelloIdentityMissing
  | HsHelloCrypto
  | HsHelloIdentityMismatch
  | HsHelloSuiteMismatch
  | HsHelloProofRequired
  | HsHelloHashMismatch
  | HsHelloSignature
  | HsNoClientIdentity
  | HsNoExpectedServer
  | HsMarshal
  | HsAttachConfig
  | HsAttachMessage

text \<open>
  The environment: RFC 3339 text of times, and the deterministic protobuf encodings that are
  hashed.
\<close>

record 'cfg codec =
  time_parse :: "string \<Rightarrow> int option"
  time_format :: "int \<Rightarrow> string"
  marshal_config :: "'cfg \<Rightarrow> bytes option"
  marshal_grant :: "SessionKeyGrant \<Rightarrow> bytes option"

record ServerConfig =
  sc_RequireClientProof :: "bool option"
  sc_EndpointIdentity :: "WebTTYEndpointIdentity option"
  sc_WorkspaceID :: string
  sc_ProjectID :: string
  sc_ServerID :: string
  sc_AuthorizedClientSigningKeys :: "bytes \<rightharpoonup> bytes"
  sc_AuthorizedClientSigningKey :: "(bytes \<Rightarrow> hs_error + bytes) option"
  sc_ClientProofVerifier :: "(pb_ClientProof \<Rightarrow> bytes \<Rightarrow> ClientProofTranscript \<Rightarrow> hs_error + bytes) option"

record session =
  ss_cfg :: "ServerConfig option"
  ss_transport :: string
  ss_sessionID :: string
  ss_serverNonce :: bytes
  ss_serverKeyID :: string
  ss_clientKeyID :: string
  ss_clientPrincipal :: string
  ss_clientDeviceID :: string
  ss_clientBrowserID :: string
  ss_closed :: bool

record SessionConfig =
  cc_EndpointIdentity :: "WebTTYEndpointIdentity option"
  cc_ExpectedServerIdentity :: "WebTTYEndpointIdentityPublic option"
  cc_ClientPrincipalID :: string
  cc_ClientDeviceID :: string
  cc_ClientBrowserID :: string
  cc_ClientCredential :: bytes


section \<open>Small conversions\<close>

abbreviation ProtocolVersionWebTTY1 :: enum32 where
  "ProtocolVersionWebTTY1 \<equiv> 1"

abbreviation SignatureSuiteECDSAP256SHA256 :: enum32 where
  "SignatureSuiteECDSAP256SHA256 \<equiv> 1"

abbreviation AuthRequirementNone :: enum32 where
  "AuthRequirementNone \<equiv> 1"

abbreviation AuthRequirementClientProof :: enum32 where
  "AuthRequirementClientProof \<equiv> 2"

definition webTTYProofTTL :: int where
  "webTTYProofTTL = 30 * 1000000000"

definition webTTYStringValue :: "string \<Rightarrow> string option" where
  "webTTYStringValue value = (let value = trim_space value in if value = [] then None else Some value)"

definition webTTYStringValueText :: "string option \<Rightarrow> string" where
  "webTTYStringValueText value = (case value of None \<Rightarrow> [] | Some v \<Rightarrow> v)"

definition webTTYBytesValue :: "bytes \<Rightarrow> bytes option" where
  "webTTYBytesValue value = (if value = [] then None else Some value)"

definition webTTYBytesValueBytes :: "bytes option \<Rightarrow> bytes" where
  "webTTYBytesValueBytes value = (case value of None \<Rightarrow> [] | Some v \<Rightarrow> v)"

lemma string_value_roundtrip [simp]: "webTTYStringValueText (webTTYStringValue s) = trim_space s"
  by (simp add: webTTYStringValueText_def webTTYStringValue_def Let_def)

lemma bytes_value_roundtrip [simp]: "webTTYBytesValueBytes (webTTYBytesValue b) = b"
  by (simp add: webTTYBytesValueBytes_def webTTYBytesValue_def)

definition endpointIdentityPublicToProto ::
  "bool \<Rightarrow> WebTTYEndpointIdentityPublic \<Rightarrow> pb_EndpointIdentity" where
  "endpointIdentityPublicToProto fips identity =
    (let suite = ep_KeyEnvelopeSuite identity;
         suite = (if suite = 0 then
                    (case inferE2EKeyEnvelopeSuite fips (ep_EncryptionPublicKey identity) of
                       Inl _ \<Rightarrow> 0 | Inr s \<Rightarrow> s)
                  else suite)
     in \<lparr>pe_SigningKeyId = ep_SigningKeyID identity,
         pe_SigningPublicKey = ep_SigningPublicKey identity,
         pe_SignatureSuite = SignatureSuiteECDSAP256SHA256,
         pe_EncryptionKeyId = ep_EncryptionKeyID identity,
         pe_EncryptionPublicKey = ep_EncryptionPublicKey identity,
         pe_KeyEnvelopeSuite = suite\<rparr>)"

definition webTTYAuthRequirement :: "ServerConfig option \<Rightarrow> enum32" where
  "webTTYAuthRequirement cfg =
    (case cfg of
       Some c \<Rightarrow> if sc_RequireClientProof c = Some True then AuthRequirementClientProof else AuthRequirementNone
     | None \<Rightarrow> AuthRequirementNone)"

definition webTTYAuthRequirementFromProto :: "enum32 \<Rightarrow> enum32" where
  "webTTYAuthRequirementFromProto value =
    (if value = AuthRequirementClientProof then AuthRequirementClientProof else AuthRequirementNone)"

definition webTTYPublicIdentityKeyEnvelopeSuite ::
  "bool \<Rightarrow> WebTTYEndpointIdentityPublic \<Rightarrow> e2e_error + enum32" where
  "webTTYPublicIdentityKeyEnvelopeSuite fips identity =
    rbind (if ep_KeyEnvelopeSuite identity = 0
           then inferE2EKeyEnvelopeSuite fips (ep_EncryptionPublicKey identity)
           else Inr (ep_KeyEnvelopeSuite identity)) (\<lambda>suite.
      case validateProfileKeyEnvelopeSuite fips suite of Some e \<Rightarrow> Inl e | None \<Rightarrow> Inr suite)"

definition webTTYProofSuites ::
  "bool \<Rightarrow> SessionKeyGrant option \<Rightarrow> enum32 \<Rightarrow> e2e_error + (enum32 \<times> enum32)" where
  "webTTYProofSuites fips grant fallback =
    rbind (e2ePayloadSuiteForKeyEnvelopeSuite fips fallback) (\<lambda>payloadSuite.
      case grant of
        None \<Rightarrow> Inr (payloadSuite, fallback)
      | Some g \<Rightarrow>
          (case validateE2ESuites fips (gr_PayloadSuite g) (gr_KeyEnvelopeSuite g) of
             Some e \<Rightarrow> Inl e
           | None \<Rightarrow> Inr (gr_PayloadSuite g, gr_KeyEnvelopeSuite g)))"

text \<open>
  \<^verbatim>\<open>hashWebTTYProtoMessage\<close>: a nil message hashes like the empty encoding.
\<close>

definition hashWebTTYProtoMessage :: "crypto \<Rightarrow> ('m \<Rightarrow> bytes option) \<Rightarrow> 'm option \<Rightarrow> hs_error + bytes" where
  "hashWebTTYProtoMessage cr marshal message =
    (case message of
       None \<Rightarrow> Inr (sha256 cr [])
     | Some m \<Rightarrow> (case marshal m of None \<Rightarrow> Inl HsMarshal | Some data \<Rightarrow> Inr (sha256 cr data)))"

definition HashWebTTYClientCredential :: "crypto \<Rightarrow> bytes \<Rightarrow> bytes" where
  "HashWebTTYClientCredential cr credential = sha256 cr credential"

definition HashWebTTYAttachGrant :: "crypto \<Rightarrow> bytes \<Rightarrow> bytes" where
  "HashWebTTYAttachGrant cr grant = sha256 cr grant"

definition client_hash :: "crypto \<Rightarrow> ClientProofTranscript \<Rightarrow> bytes" where
  "client_hash cr t = sha256 cr (client_canonical_bytes t)"

definition server_hash :: "crypto \<Rightarrow> ServerProofTranscript \<Rightarrow> bytes" where
  "server_hash cr t = sha256 cr (server_canonical_bytes t)"


section \<open>The server hello\<close>

definition hello_transcript ::
  "session \<Rightarrow> ServerConfig \<Rightarrow> WebTTYEndpointIdentityPublic \<Rightarrow> bytes \<Rightarrow> enum32 \<Rightarrow> enum32 \<Rightarrow> ServerProofTranscript" where
  "hello_transcript s cfg identity nonce payloadSuite keyEnvelopeSuite =
     \<lparr>st_ProtocolVersion = ProtocolVersionWebTTY1, st_Transport = ss_transport s,
      st_WorkspaceID = trim_space (sc_WorkspaceID cfg), st_ProjectID = trim_space (sc_ProjectID cfg),
      st_ServerID = trim_space (sc_ServerID cfg), st_SessionID = ss_sessionID s,
      st_ServerSigningKeyID = ep_SigningKeyID identity,
      st_ServerEncryptionKeyID = ep_EncryptionKeyID identity, st_ServerNonce = nonce,
      st_AuthRequirement = webTTYAuthRequirement (Some cfg), st_PayloadSuites = [payloadSuite],
      st_KeyEnvelopeSuites = [keyEnvelopeSuite], st_SignatureSuites = [SignatureSuiteECDSAP256SHA256]\<rparr>"

text \<open>The session after the call, and the error, the hello to send, or nothing to send.\<close>

definition sendServerHelloIfConfigured ::
  "crypto \<Rightarrow> signer \<Rightarrow> bool \<Rightarrow> bytes \<Rightarrow> bytes \<Rightarrow> session \<Rightarrow> session \<times> (hs_error + pb_ServerHello option)" where
  "sendServerHelloIfConfigured cr sg fips nonce random s =
    (case ss_cfg s of
       None \<Rightarrow> (s, Inr None)
     | Some cfg \<Rightarrow>
     (case sc_EndpointIdentity cfg of
       None \<Rightarrow> (s, Inr None)
     | Some endpoint \<Rightarrow>
     let identity = identity_Public fips endpoint in
     (case webTTYPublicIdentityKeyEnvelopeSuite fips identity of
       Inl e \<Rightarrow> (s, Inl (HsSuite e))
     | Inr keyEnvelopeSuite \<Rightarrow>
     (case e2ePayloadSuiteForKeyEnvelopeSuite fips keyEnvelopeSuite of
       Inl e \<Rightarrow> (s, Inl (HsSuite e))
     | Inr payloadSuite \<Rightarrow>
     if ss_closed s then (s, Inl HsSessionClosed)
     else
       let s = s\<lparr>ss_serverNonce := nonce, ss_serverKeyID := EncodeE2EKeyMaterial (ep_SigningKeyID identity)\<rparr>;
           transcript = hello_transcript s cfg identity nonce payloadSuite keyEnvelopeSuite
       in (s,
           rbind (wrap_err HsIdentity (ParseWebTTYSigningPrivateKey sg (sg_PrivateKey (en_Signing endpoint))))
             (\<lambda>privateKey.
           rbind (wrap_err HsIdentity (signWebTTYProofTranscript sg random (Some privateKey)
                    (server_hash cr transcript))) (\<lambda>(transcriptHash, signature).
           Inr (Some
             \<lparr>sh_ProtocolVersion = ProtocolVersionWebTTY1, sh_SessionNonce = nonce,
              sh_ServerIdentity = Some (endpointIdentityPublicToProto fips identity),
              sh_PayloadSuites = [payloadSuite], sh_KeyEnvelopeSuites = [keyEnvelopeSuite],
              sh_SignatureSuites = [SignatureSuiteECDSAP256SHA256],
              sh_AuthRequirement = webTTYAuthRequirement (Some cfg),
              sh_WorkspaceId = webTTYStringValue (trim_space (sc_WorkspaceID cfg)),
              sh_ProjectId = webTTYStringValue (trim_space (sc_ProjectID cfg)),
              sh_ServerId = webTTYStringValue (trim_space (sc_ServerID cfg)),
              sh_SessionId = ss_sessionID s,
              sh_ServerProof = Some \<lparr>sp_SignatureSuite = SignatureSuiteECDSAP256SHA256,
                sp_SigningKeyId = ep_SigningKeyID identity, sp_TranscriptHash = transcriptHash,
                sp_Signature = signature\<rparr>\<rparr>))))))))"

definition validateWebTTYServerHelloCrypto :: "bool \<Rightarrow> pb_ServerHello \<Rightarrow> hs_error option" where
  "validateWebTTYServerHelloCrypto fips hello =
    (if sh_ProtocolVersion hello \<noteq> ProtocolVersionWebTTY1 then Some HsHelloCrypto
     else case sh_ServerIdentity hello of
       None \<Rightarrow> Some HsHelloIdentityMissing
     | Some identity \<Rightarrow>
       let keyEnvelopeSuite = pe_KeyEnvelopeSuite identity in
       (case validateProfileKeyEnvelopeSuite fips keyEnvelopeSuite of
          Some _ \<Rightarrow> Some HsHelloCrypto
        | None \<Rightarrow>
       (case e2ePayloadSuiteForKeyEnvelopeSuite fips keyEnvelopeSuite of
          Inl e \<Rightarrow> Some (HsSuite e)
        | Inr payloadSuite \<Rightarrow>
          if sh_PayloadSuites hello \<noteq> [payloadSuite] then Some HsHelloCrypto
          else if sh_KeyEnvelopeSuites hello \<noteq> [keyEnvelopeSuite] then Some HsHelloCrypto
          else if sh_SignatureSuites hello \<noteq> [SignatureSuiteECDSAP256SHA256] then Some HsHelloCrypto
          else (case sh_ServerProof hello of
             None \<Rightarrow> Some HsHelloCrypto
           | Some proof \<Rightarrow>
               if sp_SignatureSuite proof \<noteq> SignatureSuiteECDSAP256SHA256 then Some HsHelloCrypto
               else None))))"

definition received_hello_transcript ::
  "pb_ServerHello \<Rightarrow> pb_EndpointIdentity \<Rightarrow> string \<Rightarrow> ServerProofTranscript" where
  "received_hello_transcript hello actual transport =
     \<lparr>st_ProtocolVersion = ProtocolVersionWebTTY1, st_Transport = transport,
      st_WorkspaceID = webTTYStringValueText (sh_WorkspaceId hello),
      st_ProjectID = webTTYStringValueText (sh_ProjectId hello),
      st_ServerID = webTTYStringValueText (sh_ServerId hello), st_SessionID = sh_SessionId hello,
      st_ServerSigningKeyID = pe_SigningKeyId actual,
      st_ServerEncryptionKeyID = pe_EncryptionKeyId actual, st_ServerNonce = sh_SessionNonce hello,
      st_AuthRequirement = webTTYAuthRequirementFromProto (sh_AuthRequirement hello),
      st_PayloadSuites = sh_PayloadSuites hello, st_KeyEnvelopeSuites = sh_KeyEnvelopeSuites hello,
      st_SignatureSuites = sh_SignatureSuites hello\<rparr>"

definition verifyServerHello ::
  "crypto \<Rightarrow> signer \<Rightarrow> bool \<Rightarrow> SessionConfig \<Rightarrow> pb_ServerHello option \<Rightarrow> string \<Rightarrow> hs_error option" where
  "verifyServerHello cr sg fips cfg hello0 transport =
    (case cc_ExpectedServerIdentity cfg of
       None \<Rightarrow> None
     | Some expected \<Rightarrow>
     (case hello0 of
       None \<Rightarrow> Some HsHelloRequired
     | Some hello \<Rightarrow>
     (case sh_ServerIdentity hello of
       None \<Rightarrow> Some HsHelloIdentityMissing
     | Some actual \<Rightarrow>
     (case validateWebTTYServerHelloCrypto fips hello of
       Some e \<Rightarrow> Some e
     | None \<Rightarrow>
     (case webTTYPublicIdentityKeyEnvelopeSuite fips expected of
       Inl e \<Rightarrow> Some (HsSuite e)
     | Inr expectedSuite \<Rightarrow>
       if pe_SigningKeyId actual \<noteq> ep_SigningKeyID expected
          \<or> pe_SigningPublicKey actual \<noteq> ep_SigningPublicKey expected
          \<or> pe_EncryptionKeyId actual \<noteq> ep_EncryptionKeyID expected
          \<or> pe_EncryptionPublicKey actual \<noteq> ep_EncryptionPublicKey expected
       then Some HsHelloIdentityMismatch
       else if pe_KeyEnvelopeSuite actual \<noteq> expectedSuite then Some HsHelloSuiteMismatch
       else (case sh_ServerProof hello of
         None \<Rightarrow> Some HsHelloProofRequired
       | Some proof \<Rightarrow>
           let transcript = received_hello_transcript hello actual transport in
           if sp_TranscriptHash proof \<noteq> server_hash cr transcript then Some HsHelloHashMismatch
           else if verifyWebTTYProofTranscript sg (pe_SigningPublicKey actual) (server_hash cr transcript)
                     (sp_Signature proof) \<noteq> None then Some HsHelloSignature
           else None))))))"


section \<open>The client proof\<close>

definition validateClientProofTimeWindow :: "'cfg codec \<Rightarrow> pb_ClientProof \<Rightarrow> int \<Rightarrow> bool" where
  "validateClientProofTimeWindow cd proof now =
    (case (time_parse cd (cp_IssuedAt proof), time_parse cd (cp_ExpiresAt proof)) of
       (Some issuedAt, Some expiresAt) \<Rightarrow>
         \<not> (expiresAt < now) \<and> \<not> (issuedAt > now + 5 * 1000000000)
         \<and> \<not> (expiresAt - issuedAt > webTTYProofTTL)
     | _ \<Rightarrow> False)"

text \<open>\<^verbatim>\<open>time.Now().UTC().Truncate(time.Second)\<close>\<close>

definition truncate_second :: "int \<Rightarrow> int" where
  "truncate_second t = t - t mod 1000000000"

definition open_proof_transcript ::
  "crypto \<Rightarrow> pb_ServerHello \<Rightarrow> pb_EndpointIdentity \<Rightarrow> string \<Rightarrow> enum32 \<Rightarrow> enum32 \<Rightarrow> bytes \<Rightarrow> bytes
     \<Rightarrow> string \<Rightarrow> bytes \<Rightarrow> bytes \<Rightarrow> string \<Rightarrow> string \<Rightarrow> ClientProofTranscript" where
  "open_proof_transcript cr hello serverIdentity transport payloadSuite keyEnvelopeSuite grantHash
     configHash principalID signingKeyID credential issuedAt expiresAt =
     \<lparr>ct_ProtocolVersion = ProtocolVersionWebTTY1, ct_Transport = transport,
      ct_WorkspaceID = webTTYStringValueText (sh_WorkspaceId hello),
      ct_ProjectID = webTTYStringValueText (sh_ProjectId hello),
      ct_ServerID = webTTYStringValueText (sh_ServerId hello), ct_SessionID = sh_SessionId hello,
      ct_ServerSigningKeyID = pe_SigningKeyId serverIdentity,
      ct_ServerEncryptionKeyID = pe_EncryptionKeyId serverIdentity,
      ct_ServerNonce = sh_SessionNonce hello, ct_AuthRequirement = AuthRequirementClientProof,
      ct_PayloadSuite = payloadSuite, ct_KeyEnvelopeSuite = keyEnvelopeSuite,
      ct_SessionKeyGrantHash = grantHash, ct_CommandConfigHash = configHash, ct_AttachGrantHash = [],
      ct_RequestedRole = [], ct_ClientPrincipalID = principalID, ct_ClientSigningKeyID = signingKeyID,
      ct_ClientCredentialHash = HashWebTTYClientCredential cr credential, ct_IssuedAt = issuedAt,
      ct_ExpiresAt = expiresAt\<rparr>"

text \<open>The message both proof builders end with.\<close>

definition client_proof_message ::
  "SessionConfig \<Rightarrow> WebTTYEndpointIdentity \<Rightarrow> ClientProofTranscript \<Rightarrow> bytes \<Rightarrow> bytes \<Rightarrow> pb_ClientProof" where
  "client_proof_message cfg endpoint transcript transcriptHash signature =
     \<lparr>cp_PrincipalId = webTTYStringValue (trim_space (cc_ClientPrincipalID cfg)),
      cp_SigningKeyId = sg_KeyID (en_Signing endpoint),
      cp_SigningPublicKey = sg_PublicKey (en_Signing endpoint),
      cp_SignatureSuite = SignatureSuiteECDSAP256SHA256, cp_TranscriptHash = transcriptHash,
      cp_Signature = signature, cp_IssuedAt = ct_IssuedAt transcript, cp_ExpiresAt = ct_ExpiresAt transcript,
      cp_DeviceId = webTTYStringValue (cc_ClientDeviceID cfg),
      cp_BrowserId = webTTYStringValue (cc_ClientBrowserID cfg),
      cp_Credential = webTTYBytesValue (cc_ClientCredential cfg)\<rparr>"

definition clientProofForOpen ::
  "crypto \<Rightarrow> signer \<Rightarrow> 'cfg codec \<Rightarrow> bool \<Rightarrow> int \<Rightarrow> bytes \<Rightarrow> SessionConfig \<Rightarrow> 'cfg pb_Open
     \<Rightarrow> pb_ServerHello option \<Rightarrow> string \<Rightarrow> hs_error + pb_ClientProof option" where
  "clientProofForOpen cr sg cd fips now random cfg openCfg hello0 transport =
    (case hello0 of
       None \<Rightarrow> Inr None
     | Some hello \<Rightarrow>
     if sh_AuthRequirement hello \<noteq> AuthRequirementClientProof then Inr None
     else (case cc_EndpointIdentity cfg of
       None \<Rightarrow> Inl HsNoClientIdentity
     | Some endpoint \<Rightarrow>
     if cc_ExpectedServerIdentity cfg = None then Inl HsNoExpectedServer
     else (case sh_ServerIdentity hello of
       None \<Rightarrow> Inl HsHelloIdentityMissing
     | Some serverIdentity \<Rightarrow>
     rbind (wrap_err HsSuite (webTTYProofSuites fips (op_SessionKeyGrant openCfg)
              (pe_KeyEnvelopeSuite serverIdentity))) (\<lambda>(payloadSuite, keyEnvelopeSuite).
     rbind (hashWebTTYProtoMessage cr (marshal_grant cd) (op_SessionKeyGrant openCfg)) (\<lambda>grantHash.
     rbind (hashWebTTYProtoMessage cr (marshal_config cd) (op_Config openCfg)) (\<lambda>configHash.
     let issuedAt = truncate_second now;
         expiresAt = issuedAt + webTTYProofTTL;
         transcript = open_proof_transcript cr hello serverIdentity transport payloadSuite keyEnvelopeSuite
           grantHash configHash (trim_space (cc_ClientPrincipalID cfg)) (sg_KeyID (en_Signing endpoint))
           (cc_ClientCredential cfg) (time_format cd issuedAt) (time_format cd expiresAt)
     in rbind (wrap_err HsIdentity (ParseWebTTYSigningPrivateKey sg (sg_PrivateKey (en_Signing endpoint))))
       (\<lambda>privateKey.
     rbind (wrap_err HsIdentity (signWebTTYProofTranscript sg random (Some privateKey)
              (client_hash cr transcript))) (\<lambda>(transcriptHash, signature).
     Inr (Some (client_proof_message cfg endpoint transcript transcriptHash signature))))))))))"

text \<open>The transcript the server rebuilds from its own session and the presented proof.\<close>

definition verify_transcript ::
  "crypto \<Rightarrow> session \<Rightarrow> ServerConfig \<Rightarrow> WebTTYEndpointIdentityPublic \<Rightarrow> enum32 \<Rightarrow> enum32 \<Rightarrow> bytes \<Rightarrow> bytes
     \<Rightarrow> pb_ClientProof \<Rightarrow> ClientProofTranscript" where
  "verify_transcript cr s cfg serverIdentity payloadSuite keyEnvelopeSuite grantHash configHash proof =
     \<lparr>ct_ProtocolVersion = ProtocolVersionWebTTY1, ct_Transport = ss_transport s,
      ct_WorkspaceID = sc_WorkspaceID cfg, ct_ProjectID = sc_ProjectID cfg,
      ct_ServerID = sc_ServerID cfg, ct_SessionID = ss_sessionID s,
      ct_ServerSigningKeyID = ep_SigningKeyID serverIdentity,
      ct_ServerEncryptionKeyID = ep_EncryptionKeyID serverIdentity,
      ct_ServerNonce = ss_serverNonce s, ct_AuthRequirement = AuthRequirementClientProof,
      ct_PayloadSuite = payloadSuite, ct_KeyEnvelopeSuite = keyEnvelopeSuite,
      ct_SessionKeyGrantHash = grantHash, ct_CommandConfigHash = configHash, ct_AttachGrantHash = [],
      ct_RequestedRole = [], ct_ClientPrincipalID = webTTYStringValueText (cp_PrincipalId proof),
      ct_ClientSigningKeyID = cp_SigningKeyId proof,
      ct_ClientCredentialHash = HashWebTTYClientCredential cr (webTTYBytesValueBytes (cp_Credential proof)),
      ct_IssuedAt = cp_IssuedAt proof, ct_ExpiresAt = cp_ExpiresAt proof\<rparr>"

text \<open>Which public key, if any, the configuration accepts for the presented proof.\<close>

definition authorized_key ::
  "ServerConfig \<Rightarrow> pb_ClientProof \<Rightarrow> ClientProofTranscript \<Rightarrow> hs_error + bytes" where
  "authorized_key cfg proof transcript =
    rbind (case sc_ClientProofVerifier cfg of
             Some verifier \<Rightarrow> verifier proof (webTTYBytesValueBytes (cp_Credential proof)) transcript
           | None \<Rightarrow> Inr (case sc_AuthorizedClientSigningKeys cfg (cp_SigningKeyId proof) of
                            None \<Rightarrow> [] | Some k \<Rightarrow> k)) (\<lambda>authorizedPublicKey.
      if authorizedPublicKey = [] \<and> sc_ClientProofVerifier cfg = None then
        (case sc_AuthorizedClientSigningKey cfg of
           None \<Rightarrow> Inr authorizedPublicKey
         | Some resolver \<Rightarrow> resolver (cp_SigningKeyId proof))
      else Inr authorizedPublicKey)"

text \<open>The checks, up to the transcript and key they accept.\<close>

definition check_client_proof ::
  "crypto \<Rightarrow> signer \<Rightarrow> 'cfg codec \<Rightarrow> bool \<Rightarrow> int \<Rightarrow> session \<Rightarrow> ServerConfig \<Rightarrow> WebTTYEndpointIdentity
     \<Rightarrow> 'cfg pb_Open \<Rightarrow> pb_ClientProof \<Rightarrow> hs_error + unit" where
  "check_client_proof cr sg cd fips now s cfg endpoint openCfg proof =
    (if cp_SignatureSuite proof \<noteq> SignatureSuiteECDSAP256SHA256 then Inl HsProofInvalid
     else
     let serverIdentity = identity_Public fips endpoint in
     rbind (wrap_err (\<lambda>_. HsProofInvalid) (webTTYPublicIdentityKeyEnvelopeSuite fips serverIdentity))
       (\<lambda>serverSuite.
     rbind (wrap_err (\<lambda>_. HsProofInvalid) (webTTYProofSuites fips (op_SessionKeyGrant openCfg) serverSuite))
       (\<lambda>(payloadSuite, keyEnvelopeSuite).
     if length (cp_SigningKeyId proof) \<noteq> 32 then Inl HsProofInvalid
     else if cp_SigningKeyId proof \<noteq> WebTTYSigningKeyID cr (cp_SigningPublicKey proof) then Inl HsProofInvalid
     else if \<not> validateClientProofTimeWindow cd proof now then Inl HsProofInvalid
     else
     rbind (wrap_err (\<lambda>_. HsProofInvalid)
              (hashWebTTYProtoMessage cr (marshal_grant cd) (op_SessionKeyGrant openCfg))) (\<lambda>grantHash.
     rbind (wrap_err (\<lambda>_. HsProofInvalid)
              (hashWebTTYProtoMessage cr (marshal_config cd) (op_Config openCfg))) (\<lambda>configHash.
     let transcript = verify_transcript cr s cfg serverIdentity payloadSuite keyEnvelopeSuite grantHash
           configHash proof in
     if cp_TranscriptHash proof \<noteq> client_hash cr transcript then Inl HsProofInvalid
     else if verifyWebTTYProofTranscript sg (cp_SigningPublicKey proof) (client_hash cr transcript)
               (cp_Signature proof) \<noteq> None then Inl HsProofInvalid
     else
     rbind (authorized_key cfg proof transcript) (\<lambda>authorizedPublicKey.
     if authorizedPublicKey = [] then Inl HsUnauthorized
     else if authorizedPublicKey \<noteq> cp_SigningPublicKey proof then Inl HsProofInvalid
     else Inr ()))))))"

definition verifyClientProof ::
  "crypto \<Rightarrow> signer \<Rightarrow> 'cfg codec \<Rightarrow> bool \<Rightarrow> int \<Rightarrow> session \<Rightarrow> 'cfg pb_Open option
     \<Rightarrow> session \<times> hs_error option" where
  "verifyClientProof cr sg cd fips now s openCfg0 =
    (case ss_cfg s of
       None \<Rightarrow> (s, None)
     | Some cfg \<Rightarrow>
     if sc_RequireClientProof cfg \<noteq> Some True then (s, None)
     else (case openCfg0 of
       None \<Rightarrow> (s, Some HsProofRequired)
     | Some openCfg \<Rightarrow>
     (case op_ClientProof openCfg of
       None \<Rightarrow> (s, Some HsProofRequired)
     | Some proof \<Rightarrow>
     (case sc_EndpointIdentity cfg of
       None \<Rightarrow> (s, Some HsServerIdentityRequired)
     | Some endpoint \<Rightarrow>
     (case check_client_proof cr sg cd fips now s cfg endpoint openCfg proof of
       Inl e \<Rightarrow> (s, Some e)
     | Inr _ \<Rightarrow>
         if ss_closed s then (s, Some HsSessionClosed)
         else (s\<lparr>ss_clientKeyID := EncodeE2EKeyMaterial (cp_SigningKeyId proof),
                 ss_clientPrincipal := trim_space (webTTYStringValueText (cp_PrincipalId proof)),
                 ss_clientDeviceID := trim_space (webTTYStringValueText (cp_DeviceId proof)),
                 ss_clientBrowserID := trim_space (webTTYStringValueText (cp_BrowserId proof))\<rparr>, None))))))"


section \<open>Attaching to a session\<close>

record pb_Attach =
  at_SessionId :: string
  at_AttachGrant :: bytes
  at_RequestedRole :: enum32

record AttachConfig =
  ac_WorkspaceID :: string
  ac_ProjectID :: string
  ac_ServerID :: string

definition attachRoleTranscriptValue :: "enum32 \<Rightarrow> string" where
  "attachRoleTranscriptValue role =
    (if role = 2 then ''controller''
     else if role = 1 \<or> role = 0 then ''spectator''
     else if sint role < 0 then CHR ''-'' # format_nat (nat (- sint role))
     else format_nat (nat (sint role)))"

definition attach_transcript ::
  "crypto \<Rightarrow> AttachConfig \<Rightarrow> pb_Attach \<Rightarrow> string \<Rightarrow> enum32 \<Rightarrow> enum32 \<Rightarrow> string \<Rightarrow> bytes \<Rightarrow> bytes \<Rightarrow> string
     \<Rightarrow> string \<Rightarrow> ClientProofTranscript" where
  "attach_transcript cr attach attachCfg transport payloadSuite keyEnvelopeSuite principalID signingKeyID
     credential issuedAt expiresAt =
     \<lparr>ct_ProtocolVersion = ProtocolVersionWebTTY1, ct_Transport = transport,
      ct_WorkspaceID = trim_space (ac_WorkspaceID attach), ct_ProjectID = trim_space (ac_ProjectID attach),
      ct_ServerID = trim_space (ac_ServerID attach), ct_SessionID = trim_space (at_SessionId attachCfg),
      ct_ServerSigningKeyID = [], ct_ServerEncryptionKeyID = [], ct_ServerNonce = [],
      ct_AuthRequirement = AuthRequirementClientProof, ct_PayloadSuite = payloadSuite,
      ct_KeyEnvelopeSuite = keyEnvelopeSuite, ct_SessionKeyGrantHash = [], ct_CommandConfigHash = [],
      ct_AttachGrantHash = HashWebTTYAttachGrant cr (at_AttachGrant attachCfg),
      ct_RequestedRole = attachRoleTranscriptValue (at_RequestedRole attachCfg),
      ct_ClientPrincipalID = principalID, ct_ClientSigningKeyID = signingKeyID,
      ct_ClientCredentialHash = HashWebTTYClientCredential cr credential, ct_IssuedAt = issuedAt,
      ct_ExpiresAt = expiresAt\<rparr>"

definition clientProofForAttach ::
  "crypto \<Rightarrow> signer \<Rightarrow> 'cfg codec \<Rightarrow> bool \<Rightarrow> int \<Rightarrow> bytes \<Rightarrow> SessionConfig \<Rightarrow> AttachConfig option
     \<Rightarrow> pb_Attach option \<Rightarrow> string \<Rightarrow> hs_error + pb_ClientProof option" where
  "clientProofForAttach cr sg cd fips now random cfg attach0 attachCfg0 transport =
    (if cc_ClientCredential cfg = [] \<and> cc_EndpointIdentity cfg = None then Inr None
     else (case cc_EndpointIdentity cfg of
       None \<Rightarrow> Inl HsNoClientIdentity
     | Some endpoint \<Rightarrow>
     (case attach0 of
       None \<Rightarrow> Inl HsAttachConfig
     | Some attach \<Rightarrow>
     (case attachCfg0 of
       None \<Rightarrow> Inl HsAttachMessage
     | Some attachCfg \<Rightarrow>
     let issuedAt = truncate_second now;
         expiresAt = issuedAt + webTTYProofTTL;
         suite = id_KeyEnvelopeSuite (en_Encryption endpoint);
         keyEnvelopeSuite = (if suite = 0 then defaultE2EKeyEnvelopeSuite fips else suite)
     in rbind (wrap_err HsSuite (e2ePayloadSuiteForKeyEnvelopeSuite fips keyEnvelopeSuite)) (\<lambda>payloadSuite.
     let transcript = attach_transcript cr attach attachCfg transport payloadSuite keyEnvelopeSuite
           (trim_space (cc_ClientPrincipalID cfg)) (sg_KeyID (en_Signing endpoint))
           (cc_ClientCredential cfg) (time_format cd issuedAt) (time_format cd expiresAt)
     in rbind (wrap_err HsIdentity (ParseWebTTYSigningPrivateKey sg (sg_PrivateKey (en_Signing endpoint))))
       (\<lambda>privateKey.
     rbind (wrap_err HsIdentity (signWebTTYProofTranscript sg random (Some privateKey)
              (client_hash cr transcript))) (\<lambda>(transcriptHash, signature).
     Inr (Some (client_proof_message cfg endpoint transcript transcriptHash signature)))))))))"

end
