(* ===== verification/E2EProps.thy ===== *)
theory E2EProps
  imports E2E
begin

text \<open>
  What the end-to-end encryption of \<^verbatim>\<open>webtty/e2e_crypto.go\<close> guarantees to a session: delivery
  of the payload key and of the payloads, rejection of relabelled payloads, and the limits of
  the build profile. The concrete library \<open>sample_crypto\<close> shows that the laws assumed of the
  cryptographic packages can hold together.
\<close>

section \<open>Properties\<close>

text \<open>
  A library that satisfies the laws, for the witnesses: authenticated data and nonces are
  prepended in a self-delimiting form.
\<close>

definition delimited :: "bytes \<Rightarrow> bytes" where
  "delimited b = replicate (length b) (CHR 0x01) @ CHR 0x00 # b"

definition sample_open :: "bytes \<Rightarrow> bytes \<Rightarrow> bytes option" where
  "sample_open tag ct = (if take (length tag) ct = tag then Some (drop (length tag) ct) else None)"

definition sample_crypto :: crypto where
  "sample_crypto = \<lparr>
     sha256 = (\<lambda>b. take 32 (b @ replicate 32 (CHR 0x00))),
     gcm_seal = (\<lambda>k n p a. (delimited n @ delimited a) @ p),
     gcm_open = (\<lambda>k n c a. sample_open (delimited n @ delimited a) c),
     rgcm_seal = (\<lambda>r k p a. delimited a @ p),
     rgcm_open = (\<lambda>k c a. sample_open (delimited a) c),
     generate_key = (\<lambda>r cv. Some (take 32 (r @ replicate 32 (CHR 0x00)))),
     public_of = (\<lambda>cv k. if cv = X25519 then k else CHR 0x04 # k @ k),
     valid_public = (\<lambda>cv k. True),
     valid_private = (\<lambda>cv k. True),
     ecdh = (\<lambda>k p. Some []),
     hkdf = (\<lambda>s i n. Some (replicate n (CHR 0x00))),
     hpke_sender = (\<lambda>r p i. Some ([], i)),
     hpke_seal = (\<lambda>ctx a m. Some (delimited a @ m)),
     hpke_recipient = (\<lambda>enc k i. Some i),
     hpke_open = (\<lambda>ctx a c. sample_open (delimited a) c)\<rparr>"

lemma delimited_cancel: "delimited a @ x = delimited b @ y \<longleftrightarrow> a = b \<and> x = y"
proof -
  have "replicate m (CHR 0x01) @ CHR 0x00 # u = replicate n (CHR 0x01) @ CHR 0x00 # v \<Longrightarrow>
      m = n \<and> u = v" for m n :: nat and u v :: bytes
  proof (induction m arbitrary: n)
    case 0
    then show ?case by (cases n) auto
  next
    case (Suc m)
    then show ?case by (cases n) auto
  qed
  from this [of "length a" "a @ x" "length b" "b @ y"] show ?thesis
    by (auto simp: delimited_def)
qed

lemma sample_open_Some: "sample_open tag ct = Some q \<longleftrightarrow> ct = tag @ q"
  by (auto simp: sample_open_def) (metis append_take_drop_id)

lemma sample_crypto_laws:
  "aead_correct sample_crypto" "aead_authentic sample_crypto" "kem_correct sample_crypto"
  by (auto simp: aead_correct_def aead_authentic_def kem_correct_def sample_crypto_def
      sample_open_Some delimited_cancel)

text \<open>
  C4. End-to-end delivery: when a client cipher is set up, the owner of any of its recipient
  keys obtains from the session key grant a cipher with the very same payload key, key id,
  context and suites; then everything either side encrypts on a stream decrypts on the other
  side to the original bytes, and encryption only fails for a payload of four gigabytes or an
  exhausted random source.
\<close>

theorem e2e_session_delivery:
  assumes "aead_correct cr" "kem_correct cr"
    and "newE2EClientPayloadCipher cr fips seeds cfg = Inr c"
    and "owns_recipient cr fips (pc_keyEnvelopeSuite c) identity (cf_Recipients cfg) r"
  shows "\<exists>d. newE2EServerPayloadCipher cr fips random (Some (cipher_sessionKeyGrant c)) identity = Inr d
    \<and> (\<forall>stream seed p ep rest. encryptFunc cr c stream seed p = Inr (ep, rest) \<longrightarrow>
          decryptFunc cr d stream (Some ep) = Inr p)
    \<and> (\<forall>stream seed p ep rest. encryptFunc cr d stream seed p = Inr (ep, rest) \<longrightarrow>
          decryptFunc cr c stream (Some ep) = Inr p)
    \<and> (\<forall>stream seed p. length p \<le> 2 ^ 32 - 1 \<longrightarrow> 12 \<le> length (pc_random c) \<longrightarrow>
          (\<exists>ep rest. encryptFunc cr c stream seed p = Inr (ep, rest)))"
proof -
  define d where "d = c\<lparr>pc_keyEnvelopes := [], pc_random := random\<rparr>"
  have "newE2EServerPayloadCipher cr fips random (Some (cipher_sessionKeyGrant c)) identity = Inr d"
    unfolding d_def by (rule server_cipher_of_grant [OF assms])
  moreover have "same_session c d" "same_session d c"
    by (simp_all add: d_def same_session_def)
  ultimately show ?thesis
    using decrypt_encrypt [OF assms(1)] encrypt_total [OF client_cipher_Inr(1) [OF assms(3)]] by blast
qed

definition sample_key :: bytes where
  "sample_key = replicate 32 (CHR ''k'')"

definition sample_identity :: E2EIdentity where
  "sample_identity = \<lparr>id_KeyEnvelopeSuite = 3, id_KeyID = replicate 16 (CHR ''i''), id_PublicKey = [],
     id_PrivateKey = sample_key\<rparr>"

definition sample_recipient :: E2ERecipient where
  "sample_recipient = \<lparr>rc_ID = ''srv'', rc_Kind = ''server'', rc_KeyEnvelopeSuite = 3,
     rc_KeyID = replicate 16 (CHR ''i''), rc_PublicKey = CHR 0x04 # sample_key @ sample_key\<rparr>"

definition sample_config :: E2EPayloadCryptoConfig where
  "sample_config = \<lparr>cf_WorkspaceID = ''w'', cf_ProjectID = ''p'', cf_ServerID = ''s'', cf_PayloadSuite = 0,
     cf_PayloadKey = replicate 32 (CHR ''x''), cf_PayloadKeyID = replicate 16 (CHR ''y''),
     cf_KeyContext = ''ctx'', cf_KeyEnvelopeSuite = 0, cf_Recipients = [sample_recipient],
     cf_Random = replicate 64 (CHR ''r'')\<rparr>"

definition sample_cipher :: e2ePayloadCipher where
  "sample_cipher = (case newE2EClientPayloadCipher sample_crypto True (\<lambda>_. []) sample_config of
     Inr c \<Rightarrow> c | Inl _ \<Rightarrow> undefined)"

lemma sample_parts:
  "length sample_key = 32"
  "rc_KeyEnvelopeSuite sample_recipient = 3" "length (rc_KeyID sample_recipient) = 16"
  "rc_KeyID sample_recipient \<noteq> []" "length (rc_PublicKey sample_recipient) = 65"
  "recipient_key_id sample_crypto sample_recipient = replicate 16 (CHR ''i'')"
  by (simp_all add: sample_key_def sample_recipient_def recipient_key_id_def)

lemma sample_suite:
  "validateProfileKeyEnvelopeSuite True 3 = None" "validateE2ESuites True 3 3 = None"
  "e2ePayloadSuiteForKeyEnvelopeSuite True 3 = Inr 3" "e2eCurveParameters True 3 = Inr (P256, 65, 32)"
  by (simp_all add: validateProfileKeyEnvelopeSuite_def validateE2ESuites_def
      e2ePayloadSuiteForKeyEnvelopeSuite_def e2eCurveParameters_def)

lemma sample_wrap:
  "\<exists>e. wrapE2EPayloadKey sample_crypto True s k p i c 3 sample_recipient = Inr e"
  by (simp add: wrapE2EPayloadKey_def sample_suite sample_parts recipient_suite_def sealE2EKeyEnvelope_def Let_def)
     (simp add: sample_crypto_def)

lemma sample_client:
  "newE2EClientPayloadCipher sample_crypto True (\<lambda>_. []) sample_config = Inr sample_cipher"
  "pc_keyEnvelopeSuite sample_cipher = 3"
proof -
  obtain e where "wrapE2EPayloadKey sample_crypto True [] (replicate 32 (CHR ''x'')) 3
      (replicate 16 (CHR ''y'')) ''ctx'' 3 sample_recipient = Inr e"
    using sample_wrap by blast
  then have "\<exists>c. newE2EClientPayloadCipher sample_crypto True (\<lambda>_. []) sample_config = Inr c
      \<and> pc_keyEnvelopeSuite c = 3"
    by (simp add: newE2EClientPayloadCipher_def sample_config_def inferE2ERecipientSuite_def sample_parts
        sample_suite given_or_random_def)
  then show "newE2EClientPayloadCipher sample_crypto True (\<lambda>_. []) sample_config = Inr sample_cipher"
    "pc_keyEnvelopeSuite sample_cipher = 3"
    by (auto simp: sample_cipher_def)
qed

lemma sample_owner:
  "owns_recipient sample_crypto True (pc_keyEnvelopeSuite sample_cipher) sample_identity
     (cf_Recipients sample_config) sample_recipient"
proof -
  have "e2eIdentityPrivateKey sample_crypto True sample_identity 3
      = Inr (replicate 16 (CHR ''i''), sample_key)"
    by (simp add: e2eIdentityPrivateKey_def sample_identity_def sample_suite sample_parts)
       (simp add: sample_crypto_def)
  then show ?thesis
    by (simp add: owns_recipient_def sample_client sample_suite sample_parts sample_config_def)
       (simp add: sample_recipient_def sample_crypto_def)
qed

theorem e2e_session_delivery_witness:
  "\<exists>d. newE2EServerPayloadCipher sample_crypto True [] (Some (cipher_sessionKeyGrant sample_cipher))
     sample_identity = Inr d"
  using e2e_session_delivery [OF sample_crypto_laws(1,3) sample_client(1) sample_owner] by blast


text \<open>
  C10. A ciphertext only decrypts as what it is: if any party that holds the payload key gets
  plaintext out of a ciphertext that \<^verbatim>\<open>encryptFunc\<close> produced, it was presented on the same
  stream, with the same nonce, key id, context and declared length, and the plaintext is the
  one encrypted. A payload moved from stdin to stdout, or with an edited envelope, is refused.
\<close>

theorem e2e_payload_not_relabelled:
  assumes "aead_correct cr" "aead_authentic cr"
    and enc: "encryptFunc cr c stream seed p = Inr (ep, rest)"
    and dec: "decryptFunc cr d stream' (Some ep') = Inr q"
    and ct: "Ciphertext ep' = Ciphertext ep"
    and key: "pc_payloadKey d = pc_payloadKey c" "pc_payloadSuite d = pc_payloadSuite c"
    and fits: "list_all fits32 [stream, stream', pc_payloadKeyID c, pc_payloadKeyID d,
      pc_keyContext c, pc_keyContext d]"
  shows "stream' = stream \<and> ep' = ep \<and> q = p"
  using enc
proof (rule encryptFunc_Inr)
  fix a nonce
  assume e: "payloadAEAD c = Inr a"
    "newE2EPayloadNonce (pc_payloadSuite c) (pc_random c) = Inr (nonce, rest)"
    "PayloadCrypto ep = Some \<lparr>md_PayloadSuite = pc_payloadSuite c, md_PayloadKeyID = pc_payloadKeyID c,
       md_Nonce = nonce, md_AADContext = pc_keyContext c\<rparr>"
    "PlaintextLength ep = word_of_nat (length p)"
    "sealE2EPayload cr seed a (pc_payloadSuite c) nonce p (e2ePayloadAAD stream (pc_payloadSuite c)
       (pc_payloadKeyID c) (pc_keyContext c) nonce (word_of_nat (length p))) = Inr (Ciphertext ep)"
  from dec obtain a' md where d: "PayloadCrypto ep' = Some md" "validatePayloadEnvelope d md = None"
    "payloadAEAD d = Inr a'"
    "openE2EPayload cr a' (pc_payloadSuite d) (md_Nonce md) (Ciphertext ep')
       (e2ePayloadAAD stream' (pc_payloadSuite d) (pc_payloadKeyID d) (pc_keyContext d) (md_Nonce md)
          (PlaintextLength ep')) = Inr q"
    by (rule decryptFunc_Inr)
  have a': "a' = a" using d(3) e(1) key by (simp add: payloadAEAD_def split: if_splits)
  have nonces: "length nonce \<le> 12" "length (md_Nonce md) \<le> 12"
    using nonce_size_ok [OF e(2)] d(2)
    by (auto simp: validatePayloadEnvelope_def e2ePayloadNonceSize_def split: if_splits)
  from open_seal_authentic [OF assms(2) e(1,5), of "md_Nonce md"] d(4) ct key a'
  have "e2ePayloadAAD stream' (pc_payloadSuite d) (pc_payloadKeyID d) (pc_keyContext d) (md_Nonce md)
          (PlaintextLength ep') = e2ePayloadAAD stream (pc_payloadSuite c) (pc_payloadKeyID c)
          (pc_keyContext c) nonce (word_of_nat (length p))"
    by simp
  then have eqs: "stream' = stream" "pc_payloadKeyID d = pc_payloadKeyID c"
    "pc_keyContext d = pc_keyContext c" "md_Nonce md = nonce"
    "PlaintextLength ep' = word_of_nat (length p)"
    using fits nonces by (simp_all add: e2ePayloadAAD_iff fits32_def)
  moreover have "md = \<lparr>md_PayloadSuite = pc_payloadSuite c, md_PayloadKeyID = pc_payloadKeyID c,
       md_Nonce = nonce, md_AADContext = pc_keyContext c\<rparr>"
    using d(2) eqs key by (cases md) (simp add: validatePayloadEnvelope_def split: if_splits)
  ultimately have "ep' = ep"
    using ct d(1) e(3,4) by (cases ep; cases ep') simp
  moreover have "decryptFunc cr d stream (Some ep) = Inr p"
    using assms(1) enc by (rule decrypt_encrypt) (simp add: same_session_def eqs key)
  ultimately show ?thesis using dec eqs(1) by simp
qed

lemma sample_encrypt:
  obtains ep rest where "encryptFunc sample_crypto sample_cipher ''stdin'' [] ''ls'' = Inr (ep, rest)"
proof -
  have wf: "cipher_wf True sample_cipher" by (rule client_cipher_Inr(1) [OF sample_client(1)])
  then have "pc_payloadSuite sample_cipher = 3"
    using sample_client(2) by (simp add: cipher_wf_def validateE2ESuites_None_iff)
  with wf show thesis
    using that by (auto simp: encryptFunc_def cipher_wf_AEAD [OF wf] newE2EPayloadNonce_def
        sealE2EPayload_def aead_Seal_def Let_def)
qed

lemma sample_cipher_fields:
  "pc_payloadKeyID sample_cipher = replicate 16 (CHR ''y'')" "pc_keyContext sample_cipher = ''ctx''"
proof -
  have "pc_payloadKeyID c = replicate 16 (CHR ''y'') \<and> pc_keyContext c = ''ctx''"
    if "newE2EClientPayloadCipher sample_crypto True (\<lambda>_. []) sample_config = Inr c" for c
    using that by (auto simp: newE2EClientPayloadCipher_def sample_config_def given_or_random_def
        split: option.splits if_splits)
  with sample_client(1) show "pc_payloadKeyID sample_cipher = replicate 16 (CHR ''y'')"
    "pc_keyContext sample_cipher = ''ctx''" by blast+
qed

theorem e2e_payload_not_relabelled_witness:
  "\<exists>ep rest. encryptFunc sample_crypto sample_cipher ''stdin'' [] ''ls'' = Inr (ep, rest)
     \<and> (\<forall>q. decryptFunc sample_crypto sample_cipher ''stdout'' (Some ep) \<noteq> Inr q)"
proof -
  obtain ep rest where enc: "encryptFunc sample_crypto sample_cipher ''stdin'' [] ''ls'' = Inr (ep, rest)"
    by (rule sample_encrypt)
  have "list_all fits32 [''stdin'', ''stdout'', pc_payloadKeyID sample_cipher,
      pc_payloadKeyID sample_cipher, pc_keyContext sample_cipher, pc_keyContext sample_cipher]"
    by (simp add: sample_cipher_fields fits32_def)
  from e2e_payload_not_relabelled [OF sample_crypto_laws(1,2) enc _ refl refl refl this]
  have "\<forall>q. decryptFunc sample_crypto sample_cipher ''stdout'' (Some ep) \<noteq> Inr q" by auto
  with enc show ?thesis by blast
qed

text \<open>
  C15. Whatever arrives, encryption and decryption never hand the AEAD a nonce of the wrong
  length, on which Go's GCM panics, and a decrypted payload carries the cipher's own suite,
  key id and context and has the declared length.
\<close>

theorem e2e_no_nonce_panic:
  "encryptFunc cr c stream seed p \<noteq> Inl NoncePanic \<and> decryptFunc cr c stream payload \<noteq> Inl NoncePanic
   \<and> (case decryptFunc cr c stream payload of
        Inl _ \<Rightarrow> True
      | Inr q \<Rightarrow> (\<exists>ep md. payload = Some ep \<and> PayloadCrypto ep = Some md
          \<and> md_PayloadSuite md = pc_payloadSuite c \<and> md_PayloadKeyID md = pc_payloadKeyID c
          \<and> md_AADContext md = pc_keyContext c \<and> PlaintextLength ep = word_of_nat (length q)))"
proof (intro conjI)
  show "encryptFunc cr c stream seed p \<noteq> Inl NoncePanic"
    by (auto simp: encryptFunc_def payloadAEAD_def newE2EPayloadNonce_def sealE2EPayload_def aead_Seal_def
        read_random_def read_full_def rbind_eq_Inl_iff Let_def split: sum.splits if_splits)
  show "decryptFunc cr c stream payload \<noteq> Inl NoncePanic"
    by (auto simp: decryptFunc_def validatePayloadEnvelope_def e2ePayloadNonceSize_def payloadAEAD_def
        openE2EPayload_def aead_Open_def rbind_eq_Inl_iff Let_def
        split: option.splits sum.splits if_splits)
  show "case decryptFunc cr c stream payload of Inl _ \<Rightarrow> True
      | Inr q \<Rightarrow> (\<exists>ep md. payload = Some ep \<and> PayloadCrypto ep = Some md
          \<and> md_PayloadSuite md = pc_payloadSuite c \<and> md_PayloadKeyID md = pc_payloadKeyID c
          \<and> md_AADContext md = pc_keyContext c \<and> PlaintextLength ep = word_of_nat (length q))"
  proof (cases "decryptFunc cr c stream payload")
    case (Inr q)
    then obtain ep where ep: "payload = Some ep"
      by (cases payload) (auto simp: decryptFunc_def)
    from Inr show ?thesis unfolding ep
      by (rule decryptFunc_Inr) (use Inr ep in \<open>auto simp: validatePayloadEnvelope_def split: if_splits\<close>)
  qed simp
qed

text \<open>
  C14. The build profile is enforced on both sides: whichever constructor returns a cipher,
  its suites match each other and belong to the profile, its key has 32 bytes and its key id
  16; in a FIPS build the runtime was validated and the only possible suites are P-256 with
  the random-nonce AES-GCM.
\<close>

theorem e2e_profile_enforced:
  assumes "NewE2EClientPayloadCrypto cr st seeds cfg = Inr c
    \<or> NewE2EServerPayloadCrypto cr st random grant identity = Inr c"
  shows "cipher_wf (Profile st) c
    \<and> (Profile st \<longrightarrow> fips_Require st = None \<and> pc_keyEnvelopeSuite c = KeyEnvelopeSuiteP256
        \<and> pc_payloadSuite c = PayloadCipherSuiteAES256GCMRandomNonce)"
proof -
  from assms have rt: "requireFIPSWebTTYRuntime st = None" and wf: "cipher_wf (Profile st) c"
    by (auto simp: NewE2EClientPayloadCrypto_def NewE2EServerPayloadCrypto_def
        split: option.splits dest: client_cipher_Inr(1) server_cipher_Inr)
  from rt have "Profile st \<longrightarrow> fips_Require st = None"
    by (simp add: requireFIPSWebTTYRuntime_def split: if_splits)
  with wf show ?thesis by (auto simp: cipher_wf_def validateE2ESuites_None_iff)
qed

definition sample_status :: Status where
  "sample_status = \<lparr>Profile = True, Enabled = True, ModuleVersion = RequiredModuleVersion,
     ModuleBuild = RequiredModuleBuild, QUICVersion = RequiredQUICModuleVersion,
     WebTransportVersion = RequiredWebTransportModuleVersion\<rparr>"

theorem e2e_profile_enforced_witness: "pc_payloadSuite sample_cipher = 3"
proof -
  have "NewE2EClientPayloadCrypto sample_crypto sample_status (\<lambda>_. []) sample_config = Inr sample_cipher"
    using sample_client(1)
    by (simp add: NewE2EClientPayloadCrypto_def requireFIPSWebTTYRuntime_def fips_Require_def sample_status_def)
  then have "NewE2EClientPayloadCrypto sample_crypto sample_status (\<lambda>_. []) sample_config = Inr sample_cipher
    \<or> NewE2EServerPayloadCrypto sample_crypto sample_status [] None sample_identity = Inr sample_cipher" ..
  from e2e_profile_enforced [OF this] show ?thesis by (simp add: sample_status_def)
qed

end
