(* ===== verification/TrustProps.thy ===== *)
theory TrustProps
  imports TrustStore E2EProps
begin

text \<open>
  What the trust stores of WebTTY guarantee: texts and documents round trip, and nothing is
  accepted whose key id is not the digest of its key.
\<close>

section \<open>A concrete signature library\<close>

definition sample_pk :: ecdsa_public where
  "sample_pk = \<lparr>pk_curve = CurveP256, pk_point = ''pt'', pk_on_curve = True\<rparr>"

definition sample_sk :: ecdsa_private where
  "sample_sk = \<lparr>sk_public = sample_pk, sk_scalar = ''s''\<rparr>"

definition sample_signer :: signer where
  "sample_signer = \<lparr>
     pkix_parse = (\<lambda>der. if der = ''pub'' then Some (EcdsaKey sample_pk) else None),
     pkix_marshal = (\<lambda>pk. if pk = sample_pk then Some ''pub'' else None),
     pkcs8_parse = (\<lambda>der. if der = ''priv'' then Some (EcdsaKey sample_sk) else None),
     pkcs8_marshal = (\<lambda>sk. if sk = sample_sk then Some ''priv'' else None),
     ecdsa_sign = (\<lambda>r sk h. if sk = sample_sk then Some h else None),
     ecdsa_verify = (\<lambda>pk h s. pk = sample_pk \<and> s = h)\<rparr>"

lemma sample_signer_correct: "signer_correct sample_signer"
  by (simp add: signer_correct_def sample_signer_def sample_sk_def)

lemma sample_hash: "hash_correct sample_crypto"
  by (auto simp: hash_correct_def sample_crypto_def min_def)

lemma sample_parse_public: "ParseWebTTYSigningPublicKey sample_signer ''pub'' = Inr sample_pk"
  by (simp add: ParseWebTTYSigningPublicKey_def sample_signer_def validateWebTTYSigningPublicKey_def sample_pk_def)

lemma sample_parse_private: "ParseWebTTYSigningPrivateKey sample_signer ''priv'' = Inr sample_sk"
  by (simp add: ParseWebTTYSigningPrivateKey_def sample_signer_def validateWebTTYSigningPrivateKey_def
      validateWebTTYSigningPublicKey_def sample_pk_def sample_sk_def)

lemma sample_marshal_public: "MarshalWebTTYSigningPublicKey sample_signer (Some (sk_public sample_sk)) = Inr ''pub''"
  by (simp add: MarshalWebTTYSigningPublicKey_def sample_signer_def
      validateWebTTYSigningPublicKey_def sample_pk_def sample_sk_def)

definition sample_public_key :: bytes where
  "sample_public_key = CHR 0x04 # sample_key @ sample_key"

definition sample_endpoint :: WebTTYEndpointIdentity where
  "sample_endpoint = \<lparr>
     en_Encryption = \<lparr>id_KeyEnvelopeSuite = 3, id_KeyID = E2EKeyID sample_crypto sample_public_key,
       id_PublicKey = sample_public_key, id_PrivateKey = sample_key\<rparr>,
     en_Signing = \<lparr>sg_KeyID = WebTTYSigningKeyID sample_crypto ''pub'', sg_PublicKey = ''pub'',
       sg_PrivateKey = ''priv''\<rparr>\<rparr>"

definition sample_public :: WebTTYEndpointIdentityPublic where
  "sample_public = identity_Public True sample_endpoint"

lemma sample_public_key_length: "length sample_public_key = 65"
  by (simp add: sample_public_key_def sample_key_def)

lemma sample_public_consistent: "public_consistent sample_crypto sample_signer True sample_public"
  by (simp add: public_consistent_def encryption_consistent_def signing_consistent_def sample_public_def
      identity_Public_def sample_endpoint_def inferE2EKeyEnvelopeSuite_def sample_suite Let_def
      sample_public_key_length hash_lengths [OF sample_hash] sample_parse_public)

lemma sample_public_of: "public_of sample_crypto P256 sample_key = sample_public_key"
  "valid_private sample_crypto P256 sample_key"
  by (simp_all add: sample_crypto_def sample_public_key_def)

lemma sample_status_ok: "requireFIPSWebTTYRuntime sample_status = None" "Profile sample_status"
  by (simp_all add: requireFIPSWebTTYRuntime_def fips_Require_def sample_status_def)

lemma sample_endpoint_valid:
  "validateWebTTYEndpointIdentity sample_crypto sample_signer sample_status sample_endpoint = None"
proof -
  have "validateE2EIdentity sample_crypto sample_status (en_Encryption sample_endpoint) = None"
    by (simp add: validateE2EIdentity_def sample_endpoint_def sample_status_ok sample_suite sample_parts
        E2EIdentityFromPrivateKeyForSuite_def sample_public_of sample_public_key_length
        hash_lengths [OF sample_hash] Let_def)
  moreover have "validateWebTTYSigningIdentity sample_crypto sample_signer (en_Signing sample_endpoint) = None"
    by (simp add: validateWebTTYSigningIdentity_def sample_endpoint_def sample_parse_private sample_marshal_public)
  ultimately show ?thesis by (simp add: validateWebTTYEndpointIdentity_def)
qed


section \<open>Properties\<close>

text \<open>
  C16. Key strings: whatever text the parser accepts, every key id in the result is the digest
  of its key, the suite is the one of the encryption key and the signing key is a valid P-256
  key; printing the result and parsing it again gives the same identity.
\<close>

theorem endpoint_identity_string_roundtrip:
  assumes "hash_correct cr" "ParseKnownServerEndpointIdentity cr sg fips text = Inr idy"
  shows "public_consistent cr sg fips idy
    \<and> ParseKnownServerEndpointIdentity cr sg fips (KnownServerEndpointIdentityString idy) = Inr idy"
  using ParseKnownServerEndpointIdentity_consistent [OF assms]
  by (simp add: ParseKnownServerEndpointIdentity_string)

theorem endpoint_identity_string_roundtrip_witness:
  "public_consistent sample_crypto sample_signer True sample_public"
  using endpoint_identity_string_roundtrip [OF sample_hash
      ParseKnownServerEndpointIdentity_string [OF sample_public_consistent]]
  by blast



text \<open>
  C18. Authorized clients: every entry of the table a server loads maps a key id to a valid
  P-256 key with exactly that id, so looking up a client's key id can only ever return the
  key the id was derived from.
\<close>

theorem authorized_clients_consistent:
  assumes "hash_correct cr" "LoadAuthorizedClientSigningKeysFile cr sg fips entries = Inr keys"
    and "keys keyID = Some publicKey"
  shows "keyID = WebTTYSigningKeyID cr publicKey \<and> is_ok (ParseWebTTYSigningPublicKey sg publicKey)"
proof -
  have "signing_consistent cr sg keyID publicKey"
    using assms(2,3) unfolding LoadAuthorizedClientSigningKeysFile_def
    by (auto intro: load_authorized_keys [OF assms(1)])
  then show ?thesis by (simp add: signing_consistent_def)
qed

theorem authorized_clients_consistent_witness:
  "\<exists>keys. LoadAuthorizedClientSigningKeysFile sample_crypto sample_signer True
     [\<lparr>ac_Name = ''ci'', ac_SigningKeyID = [], ac_SigningPublicKey = b64_encode ''pub''\<rparr>] = Inr keys
   \<and> keys (WebTTYSigningKeyID sample_crypto ''pub'') = Some ''pub''
   \<and> is_ok (ParseWebTTYSigningPublicKey sample_signer ''pub'')"
proof -
  let ?e = "\<lparr>ac_Name = ''ci'', ac_SigningKeyID = [], ac_SigningPublicKey = b64_encode ''pub''\<rparr>"
  have parse: "ParseAuthorizedClientSigningKey sample_crypto sample_signer True (CHR '':'' # b64_encode ''pub'')
      = Inr (WebTTYSigningKeyID sample_crypto ''pub'', ''pub'')"
  proof -
    have "trim_space (CHR '':'' # b64_encode ''pub'') = CHR '':'' # b64_encode ''pub''"
      using b64_encode_graphic by (intro trim_space_all_graphic) (simp add: graphic_def)
    moreover have "split_on (CHR '':'') (CHR '':'' # b64_encode ''pub'') = [[], b64_encode ''pub'']"
      by (simp add: split_on_no_sep b64_no_colon)
    moreover have "count_list (CHR '':'' # b64_encode ''pub'') (CHR '':'') = 1"
      by (simp add: b64_no_colon)
    moreover have "DecodeE2EKeyMaterial (b64_encode ''pub'') 0 = Inr ''pub''"
      by (simp add: decode_material_iff)
    ultimately show ?thesis
      by (simp add: ParseAuthorizedClientSigningKey_def sample_parse_public Let_def)
  qed
  then have load: "LoadAuthorizedClientSigningKeysFile sample_crypto sample_signer True [?e]
      = Inr [WebTTYSigningKeyID sample_crypto ''pub'' \<mapsto> ''pub'']"
    by (simp add: LoadAuthorizedClientSigningKeysFile_def authorizedClientSigningKeyFromEntry_def
        trim_space_graphic graphic_def)
  from authorized_clients_consistent [OF sample_hash load, of "WebTTYSigningKeyID sample_crypto ''pub''" "''pub''"]
  show ?thesis using load by simp
qed

text \<open>
  C17. The identity document: encoding an identity and decoding the document restores it, keys
  and key ids included, with an unset suite made explicit.
\<close>

theorem endpoint_identity_document_roundtrip:
  assumes "hash_correct cr" "encode_endpoint_identity cr sg st identity = Inr doc"
    and "sg_PrivateKey (en_Signing identity) \<noteq> []" "sg_PublicKey (en_Signing identity) \<noteq> []"
  shows "decode_endpoint_identity cr sg st doc = Inr (identity\<lparr>en_Encryption :=
      (en_Encryption identity)\<lparr>id_KeyEnvelopeSuite :=
         suite_or_default (Profile st) (id_KeyEnvelopeSuite (en_Encryption identity))\<rparr>\<rparr>)"
proof -
  let ?e = "en_Encryption identity" and ?s = "en_Signing identity"
  from assms(2) obtain name where v: "validateE2EIdentity cr st ?e = None"
    "validateWebTTYSigningIdentity cr sg ?s = None"
    and name: "webTTYEndpointIdentityCryptoSuiteForKeyEnvelopeSuite (Profile st) (id_KeyEnvelopeSuite ?e) = Inr name"
    and doc: "doc = \<lparr>ef_Version = 1, ef_CryptoSuite = name,
       ef_EncryptionKeyID = b64_encode (id_KeyID ?e), ef_EncryptionPublicKey = b64_encode (id_PublicKey ?e),
       ef_EncryptionPrivateKey = b64_encode (id_PrivateKey ?e), ef_SigningKeyID = b64_encode (sg_KeyID ?s),
       ef_SigningPublicKey = b64_encode (sg_PublicKey ?s), ef_SigningPrivateKey = b64_encode (sg_PrivateKey ?s)\<rparr>"
    by (auto simp: encode_endpoint_identity_def validateWebTTYEndpointIdentity_def EncodeE2EKeyMaterial_def
        split: option.splits)
  note e = validateE2EIdentity_None [OF v(1)]
  note s = validateWebTTYSigningIdentity_None [OF assms(1) v(2)]
  have nonempty: "id_KeyID ?e \<noteq> []" "id_PublicKey ?e \<noteq> []" "id_PrivateKey ?e \<noteq> []" "sg_KeyID ?s \<noteq> []"
    using e s by auto
  have dec: "DecodeE2EKeyMaterial (b64_encode d) n = Inr d" if "d \<noteq> []" "n \<le> 0 \<or> int (length d) = n" for d n
    using that by (simp add: decode_material_iff)
  from e s nonempty assms(3,4) show ?thesis
    by (auto simp: decode_endpoint_identity_def doc endpoint_suite_roundtrip [OF name] dec
        validateEncodedE2EPublicMaterial_def validateEncodedWebTTYSigningPublicMaterial_def)
qed

theorem endpoint_identity_document_roundtrip_witness:
  "\<exists>doc. encode_endpoint_identity sample_crypto sample_signer sample_status sample_endpoint = Inr doc
     \<and> decode_endpoint_identity sample_crypto sample_signer sample_status doc = Inr sample_endpoint"
proof -
  obtain doc where d: "encode_endpoint_identity sample_crypto sample_signer sample_status sample_endpoint = Inr doc"
    using sample_endpoint_valid
    by (auto simp: encode_endpoint_identity_def webTTYEndpointIdentityCryptoSuiteForKeyEnvelopeSuite_def
        validateProfileKeyEnvelopeSuite_def sample_endpoint_def sample_status_def Let_def)
  from endpoint_identity_document_roundtrip [OF sample_hash d] d show ?thesis
    by (simp add: sample_endpoint_def suite_or_default_def)
qed


end
