(* ===== verification/HandshakeProps.thy ===== *)
theory HandshakeProps
  imports Handshake TrustProps
begin

text \<open>
  The guarantees of the WebTTY handshake: an honest client and server always succeed, an
  accepted proof is fresh and bound to one session, a hello cannot be altered, and a proof made
  for attaching is never good for opening.
\<close>

section \<open>Completeness\<close>

lemma client_canonical_normal: "client_canonical_bytes (client_normal t) = client_canonical_bytes t"
  by (simp add: client_canonical_bytes_def client_normal_def wire_simps)

lemma client_hash_cong: "client_normal t = client_normal u \<Longrightarrow> client_hash cr t = client_hash cr u"
  unfolding client_hash_def by (metis client_canonical_normal)

lemma server_canonical_normal: "server_canonical_bytes (server_normal t) = server_canonical_bytes t"
  by (simp add: server_canonical_bytes_def server_normal_def wire_simps)

lemma server_hash_cong: "server_normal t = server_normal u \<Longrightarrow> server_hash cr t = server_hash cr u"
  unfolding server_hash_def by (metis server_canonical_normal)

definition codec_correct :: "'cfg codec \<Rightarrow> bool" where
  "codec_correct cd \<longleftrightarrow>
     (\<forall>t. t mod 1000000000 = 0 \<longrightarrow> time_parse cd (time_format cd t) = Some t)"

lemma sign_then_verify:
  assumes "signer_correct sg" "hash_correct cr"
    and "validateWebTTYSigningIdentity cr sg identity = None"
    and "ParseWebTTYSigningPrivateKey sg (sg_PrivateKey identity) = Inr sk"
    and "signWebTTYProofTranscript sg random (Some sk) h = Inr (h', signature)"
  shows "h' = h \<and> verifyWebTTYProofTranscript sg (sg_PublicKey identity) h signature = None"
proof -
  from assms(3,4) have m: "MarshalWebTTYSigningPublicKey sg (Some (sk_public sk)) = Inr (sg_PublicKey identity)"
    by (auto simp: validateWebTTYSigningIdentity_def split: sum.splits if_splits)
  then have v: "validateWebTTYSigningPublicKey (Some (sk_public sk)) = None"
    and "pkix_marshal sg (sk_public sk) = Some (sg_PublicKey identity)"
    by (auto simp: MarshalWebTTYSigningPublicKey_def split: option.splits)
  with assms(1) have "pkix_parse sg (sg_PublicKey identity) = Some (EcdsaKey (sk_public sk))"
    by (simp add: signer_correct_def)
  with v have p: "ParseWebTTYSigningPublicKey sg (sg_PublicKey identity) = Inr (sk_public sk)"
    by (simp add: ParseWebTTYSigningPublicKey_def)
  from assms(5) have "h' = h" "length h = 32" "ecdsa_sign sg random sk h = Some signature"
    by (auto simp: signWebTTYProofTranscript_def split: option.splits if_splits)
  with assms(1) p show ?thesis
    by (simp add: verifyWebTTYProofTranscript_def signer_correct_def)
qed

lemma identity_Public_suite: "ep_KeyEnvelopeSuite (identity_Public fips endpoint) \<noteq> 0"
  by (auto simp: identity_Public_def defaultE2EKeyEnvelopeSuite_def Let_def)

lemma identity_Public_fields [simp]:
  "ep_SigningKeyID (identity_Public fips e) = sg_KeyID (en_Signing e)"
  "ep_SigningPublicKey (identity_Public fips e) = sg_PublicKey (en_Signing e)"
  "ep_EncryptionKeyID (identity_Public fips e) = id_KeyID (en_Encryption e)"
  "ep_EncryptionPublicKey (identity_Public fips e) = id_PublicKey (en_Encryption e)"
  by (simp_all add: identity_Public_def Let_def)

text \<open>What a hello that was sent looks like.\<close>

lemma sent_hello:
  assumes "sendServerHelloIfConfigured cr sg fips nonce random s = (s1, Inr (Some hello))"
    and "ss_cfg s = Some cfg" "sc_EndpointIdentity cfg = Some endpoint"
  obtains suite payload h signature sk where
    "webTTYPublicIdentityKeyEnvelopeSuite fips (identity_Public fips endpoint) = Inr suite"
    "ep_KeyEnvelopeSuite (identity_Public fips endpoint) = suite"
    "validateProfileKeyEnvelopeSuite fips suite = None"
    "e2ePayloadSuiteForKeyEnvelopeSuite fips suite = Inr payload"
    "s1 = s\<lparr>ss_serverNonce := nonce, ss_serverKeyID := EncodeE2EKeyMaterial (sg_KeyID (en_Signing endpoint))\<rparr>"
    "\<not> ss_closed s"
    "ParseWebTTYSigningPrivateKey sg (sg_PrivateKey (en_Signing endpoint)) = Inr sk"
    "signWebTTYProofTranscript sg random (Some sk)
       (server_hash cr (hello_transcript s1 cfg (identity_Public fips endpoint) nonce payload suite)) = Inr (h, signature)"
    "hello = \<lparr>sh_ProtocolVersion = ProtocolVersionWebTTY1, sh_SessionNonce = nonce,
              sh_ServerIdentity = Some (endpointIdentityPublicToProto fips (identity_Public fips endpoint)),
              sh_PayloadSuites = [payload], sh_KeyEnvelopeSuites = [suite],
              sh_SignatureSuites = [SignatureSuiteECDSAP256SHA256],
              sh_AuthRequirement = webTTYAuthRequirement (Some cfg),
              sh_WorkspaceId = webTTYStringValue (trim_space (sc_WorkspaceID cfg)),
              sh_ProjectId = webTTYStringValue (trim_space (sc_ProjectID cfg)),
              sh_ServerId = webTTYStringValue (trim_space (sc_ServerID cfg)),
              sh_SessionId = ss_sessionID s,
              sh_ServerProof = Some \<lparr>sp_SignatureSuite = SignatureSuiteECDSAP256SHA256,
                sp_SigningKeyId = sg_KeyID (en_Signing endpoint), sp_TranscriptHash = h,
                sp_Signature = signature\<rparr>\<rparr>"
proof -
  obtain suite where suite: "webTTYPublicIdentityKeyEnvelopeSuite fips (identity_Public fips endpoint) = Inr suite"
    using assms by (auto simp: sendServerHelloIfConfigured_def Let_def split: sum.splits)
  then have ok: "ep_KeyEnvelopeSuite (identity_Public fips endpoint) = suite"
    "validateProfileKeyEnvelopeSuite fips suite = None"
    using identity_Public_suite [of fips endpoint]
    by (auto simp: webTTYPublicIdentityKeyEnvelopeSuite_def split: option.splits if_splits)
  obtain payload where payload: "e2ePayloadSuiteForKeyEnvelopeSuite fips suite = Inr payload"
    using assms suite by (auto simp: sendServerHelloIfConfigured_def Let_def split: sum.splits)
  have open': "\<not> ss_closed s"
    using assms suite payload by (auto simp: sendServerHelloIfConfigured_def Let_def)
  have s1: "s1 = s\<lparr>ss_serverNonce := nonce,
      ss_serverKeyID := EncodeE2EKeyMaterial (sg_KeyID (en_Signing endpoint))\<rparr>"
    using assms suite payload open' by (auto simp: sendServerHelloIfConfigured_def Let_def)
  obtain sk where sk: "ParseWebTTYSigningPrivateKey sg (sg_PrivateKey (en_Signing endpoint)) = Inr sk"
    using assms suite payload open' by (auto simp: sendServerHelloIfConfigured_def Let_def)
  obtain h signature where sig: "signWebTTYProofTranscript sg random (Some sk)
       (server_hash cr (hello_transcript s1 cfg (identity_Public fips endpoint) nonce payload suite)) = Inr (h, signature)"
    using assms suite payload open' sk s1 by (auto simp: sendServerHelloIfConfigured_def Let_def)
  show thesis
    by (rule that [OF suite ok payload s1 open' sk sig])
       (use assms suite payload open' sk sig s1 in \<open>simp add: sendServerHelloIfConfigured_def Let_def\<close>)
qed


lemma payload_suite_validates:
  "e2ePayloadSuiteForKeyEnvelopeSuite fips suite = Inr payload \<Longrightarrow> validateProfileKeyEnvelopeSuite fips suite = None"
  by (auto simp: e2ePayloadSuiteForKeyEnvelopeSuite_def split: option.splits)

lemma honest_hello_accepted:
  assumes laws: "signer_correct sg" "hash_correct cr"
    and srv: "ss_cfg s = Some cfg" "sc_EndpointIdentity cfg = Some endpoint"
      "validateWebTTYSigningIdentity cr sg (en_Signing endpoint) = None"
    and sent: "sendServerHelloIfConfigured cr sg fips nonce random s = (s1, Inr (Some hello))"
    and expects: "cc_ExpectedServerIdentity ccfg = Some (identity_Public fips endpoint)"
  shows "verifyServerHello cr sg fips ccfg (Some hello) (ss_transport s) = None"
  using sent srv(1,2)
proof (rule sent_hello)
  fix suite payload h signature sk
  assume h: "webTTYPublicIdentityKeyEnvelopeSuite fips (identity_Public fips endpoint) = Inr suite"
    "ep_KeyEnvelopeSuite (identity_Public fips endpoint) = suite"
    "validateProfileKeyEnvelopeSuite fips suite = None"
    "e2ePayloadSuiteForKeyEnvelopeSuite fips suite = Inr payload"
    "s1 = s\<lparr>ss_serverNonce := nonce, ss_serverKeyID := EncodeE2EKeyMaterial (sg_KeyID (en_Signing endpoint))\<rparr>"
    "ParseWebTTYSigningPrivateKey sg (sg_PrivateKey (en_Signing endpoint)) = Inr sk"
    "signWebTTYProofTranscript sg random (Some sk)
       (server_hash cr (hello_transcript s1 cfg (identity_Public fips endpoint) nonce payload suite)) = Inr (h, signature)"
    and hello: "hello = \<lparr>sh_ProtocolVersion = ProtocolVersionWebTTY1, sh_SessionNonce = nonce,
              sh_ServerIdentity = Some (endpointIdentityPublicToProto fips (identity_Public fips endpoint)),
              sh_PayloadSuites = [payload], sh_KeyEnvelopeSuites = [suite],
              sh_SignatureSuites = [SignatureSuiteECDSAP256SHA256],
              sh_AuthRequirement = webTTYAuthRequirement (Some cfg),
              sh_WorkspaceId = webTTYStringValue (trim_space (sc_WorkspaceID cfg)),
              sh_ProjectId = webTTYStringValue (trim_space (sc_ProjectID cfg)),
              sh_ServerId = webTTYStringValue (trim_space (sc_ServerID cfg)),
              sh_SessionId = ss_sessionID s,
              sh_ServerProof = Some \<lparr>sp_SignatureSuite = SignatureSuiteECDSAP256SHA256,
                sp_SigningKeyId = sg_KeyID (en_Signing endpoint), sp_TranscriptHash = h,
                sp_Signature = signature\<rparr>\<rparr>"
  let ?id = "endpointIdentityPublicToProto fips (identity_Public fips endpoint)"
  have pe: "pe_KeyEnvelopeSuite ?id = suite" "pe_SigningKeyId ?id = sg_KeyID (en_Signing endpoint)"
    "pe_SigningPublicKey ?id = sg_PublicKey (en_Signing endpoint)"
    "pe_EncryptionKeyId ?id = id_KeyID (en_Encryption endpoint)"
    "pe_EncryptionPublicKey ?id = id_PublicKey (en_Encryption endpoint)"
    using h(2) identity_Public_suite [of fips endpoint]
    by (auto simp: endpointIdentityPublicToProto_def Let_def)
  have "server_normal (received_hello_transcript hello ?id (ss_transport s))
      = server_normal (hello_transcript s1 cfg (identity_Public fips endpoint) nonce payload suite)"
    by (simp add: hello h(5) pe received_hello_transcript_def hello_transcript_def server_normal_def
        webTTYAuthRequirementFromProto_def webTTYAuthRequirement_def)
  from server_hash_cong [OF this] sign_then_verify [OF laws srv(3) h(6,7)]
  have "h = server_hash cr (received_hello_transcript hello ?id (ss_transport s))"
    "verifyWebTTYProofTranscript sg (sg_PublicKey (en_Signing endpoint))
       (server_hash cr (received_hello_transcript hello ?id (ss_transport s))) signature = None"
    by simp_all
  with h(1,3,4) pe expects show ?thesis
    by (simp add: verifyServerHello_def hello validateWebTTYServerHelloCrypto_def Let_def)
qed


lemma valid_signing_identity:
  assumes "signer_correct sg" "hash_correct cr" "validateWebTTYSigningIdentity cr sg identity = None"
  shows "sg_KeyID identity = WebTTYSigningKeyID cr (sg_PublicKey identity)" "length (sg_KeyID identity) = 32"
    "sg_PublicKey identity \<noteq> []"
proof -
  obtain sk where "ParseWebTTYSigningPrivateKey sg (sg_PrivateKey identity) = Inr sk"
    using assms(3) by (auto simp: validateWebTTYSigningIdentity_def split: sum.splits)
  with assms(3) have "MarshalWebTTYSigningPublicKey sg (Some (sk_public sk)) = Inr (sg_PublicKey identity)"
    and id: "sg_KeyID identity = WebTTYSigningKeyID cr (sg_PublicKey identity)"
    by (auto simp: validateWebTTYSigningIdentity_def split: sum.splits if_splits)
  then have "pkix_marshal sg (sk_public sk) = Some (sg_PublicKey identity)"
    by (auto simp: MarshalWebTTYSigningPublicKey_def split: option.splits)
  with assms(1) show "sg_PublicKey identity \<noteq> []" by (auto simp: signer_correct_def)
  show "sg_KeyID identity = WebTTYSigningKeyID cr (sg_PublicKey identity)" "length (sg_KeyID identity) = 32"
    using id hash_lengths(2) [OF assms(2)] by simp_all
qed

text \<open>What a proof built for an open request looks like.\<close>

lemma built_open_proof:
  assumes "clientProofForOpen cr sg cd fips now random ccfg openCfg (Some hello) transport = Inr reply"
    and "sh_AuthRequirement hello = AuthRequirementClientProof" "cc_EndpointIdentity ccfg = Some client"
    and "sh_ServerIdentity hello = Some srv"
  obtains ps ks gh ch t h signature sk where
    "webTTYProofSuites fips (op_SessionKeyGrant openCfg) (pe_KeyEnvelopeSuite srv) = Inr (ps, ks)"
    "hashWebTTYProtoMessage cr (marshal_grant cd) (op_SessionKeyGrant openCfg) = Inr gh"
    "hashWebTTYProtoMessage cr (marshal_config cd) (op_Config openCfg) = Inr ch"
    "t = open_proof_transcript cr hello srv transport ps ks gh ch
       (trim_space (cc_ClientPrincipalID ccfg)) (sg_KeyID (en_Signing client)) (cc_ClientCredential ccfg)
       (time_format cd (truncate_second now)) (time_format cd (truncate_second now + webTTYProofTTL))"
    "ParseWebTTYSigningPrivateKey sg (sg_PrivateKey (en_Signing client)) = Inr sk"
    "signWebTTYProofTranscript sg random (Some sk) (client_hash cr t) = Inr (h, signature)"
    "reply = Some (client_proof_message ccfg client t h signature)"
  using assms by (auto simp: clientProofForOpen_def Let_def split: if_splits)

lemma built_open_proof_fields:
  assumes "clientProofForOpen cr sg cd fips now random ccfg openCfg (Some hello) transport = Inr (Some pf)"
    and "sh_AuthRequirement hello = AuthRequirementClientProof" "cc_EndpointIdentity ccfg = Some client"
    and "sh_ServerIdentity hello = Some srv"
  shows "cp_SigningKeyId pf = sg_KeyID (en_Signing client)
    \<and> webTTYStringValueText (cp_PrincipalId pf) = trim_space (cc_ClientPrincipalID ccfg)
    \<and> cp_IssuedAt pf = time_format cd (truncate_second now)
    \<and> cp_ExpiresAt pf = time_format cd (truncate_second now + webTTYProofTTL)"
  using assms by (rule built_open_proof) (simp add: client_proof_message_def open_proof_transcript_def)

lemma truncate_second_mod: "truncate_second t mod 1000000000 = 0"
  by (simp add: truncate_second_def mod_diff_eq [symmetric] minus_mod_eq_mult_div)

lemma proof_ttl_mod: "(truncate_second t + webTTYProofTTL) mod 1000000000 = 0"
  unfolding webTTYProofTTL_def mod_mult_self1 by (rule truncate_second_mod)

lemma honest_proof_accepted:
  assumes laws: "signer_correct sg" "hash_correct cr" "codec_correct cd"
    and srv: "ss_cfg s = Some cfg" "sc_EndpointIdentity cfg = Some endpoint"
      "validateWebTTYSigningIdentity cr sg (en_Signing endpoint) = None"
      "sc_RequireClientProof cfg = Some True" "sc_ClientProofVerifier cfg = None"
    and cli: "cc_EndpointIdentity ccfg = Some client"
      "validateWebTTYSigningIdentity cr sg (en_Signing client) = None"
      "cc_ExpectedServerIdentity ccfg = Some (identity_Public fips endpoint)"
    and known: "sc_AuthorizedClientSigningKeys cfg (sg_KeyID (en_Signing client))
      = Some (sg_PublicKey (en_Signing client))"
    and sent: "sendServerHelloIfConfigured cr sg fips nonce random s = (s1, Inr (Some hello))"
    and built: "clientProofForOpen cr sg cd fips now random' ccfg openCfg (Some hello) (ss_transport s) = Inr reply"
    and time: "truncate_second now \<le> now' + 5 * 1000000000" "now' \<le> truncate_second now + webTTYProofTTL"
  shows "\<exists>proof s2. reply = Some proof
      \<and> verifyClientProof cr sg cd fips now' s1 (Some (openCfg\<lparr>op_ClientProof := Some proof\<rparr>)) = (s2, None)
      \<and> ss_clientKeyID s2 = EncodeE2EKeyMaterial (sg_KeyID (en_Signing client))
      \<and> ss_clientPrincipal s2 = trim_space (cc_ClientPrincipalID ccfg)"
proof -
  from sent srv(1,2) obtain suite payload where
    suite: "webTTYPublicIdentityKeyEnvelopeSuite fips (identity_Public fips endpoint) = Inr suite"
      "ep_KeyEnvelopeSuite (identity_Public fips endpoint) = suite"
    and s1: "s1 = s\<lparr>ss_serverNonce := nonce, ss_serverKeyID := EncodeE2EKeyMaterial (sg_KeyID (en_Signing endpoint))\<rparr>"
    and open': "\<not> ss_closed s"
    and hello: "sh_SessionNonce hello = nonce" "sh_SessionId hello = ss_sessionID s"
      "sh_ServerIdentity hello = Some (endpointIdentityPublicToProto fips (identity_Public fips endpoint))"
      "sh_AuthRequirement hello = webTTYAuthRequirement (Some cfg)"
      "sh_WorkspaceId hello = webTTYStringValue (trim_space (sc_WorkspaceID cfg))"
      "sh_ProjectId hello = webTTYStringValue (trim_space (sc_ProjectID cfg))"
      "sh_ServerId hello = webTTYStringValue (trim_space (sc_ServerID cfg))"
    by (rule sent_hello) (erule that, simp_all)
  let ?id = "endpointIdentityPublicToProto fips (identity_Public fips endpoint)"
  have pe: "pe_KeyEnvelopeSuite ?id = suite" "pe_SigningKeyId ?id = sg_KeyID (en_Signing endpoint)"
    "pe_EncryptionKeyId ?id = id_KeyID (en_Encryption endpoint)"
    using suite(2) identity_Public_suite [of fips endpoint]
    by (auto simp: endpointIdentityPublicToProto_def Let_def)
  have "sh_AuthRequirement hello = AuthRequirementClientProof"
    using hello(4) srv(4) by (simp add: webTTYAuthRequirement_def)
  from built this cli(1) hello(3)
  obtain ps ks gh ch t h signature sk where
    b: "webTTYProofSuites fips (op_SessionKeyGrant openCfg) (pe_KeyEnvelopeSuite ?id) = Inr (ps, ks)"
    "hashWebTTYProtoMessage cr (marshal_grant cd) (op_SessionKeyGrant openCfg) = Inr gh"
    "hashWebTTYProtoMessage cr (marshal_config cd) (op_Config openCfg) = Inr ch"
    "t = open_proof_transcript cr hello ?id (ss_transport s) ps ks gh ch
       (trim_space (cc_ClientPrincipalID ccfg)) (sg_KeyID (en_Signing client)) (cc_ClientCredential ccfg)
       (time_format cd (truncate_second now)) (time_format cd (truncate_second now + webTTYProofTTL))"
    "ParseWebTTYSigningPrivateKey sg (sg_PrivateKey (en_Signing client)) = Inr sk"
    "signWebTTYProofTranscript sg random' (Some sk) (client_hash cr t) = Inr (h, signature)"
    "reply = Some (client_proof_message ccfg client t h signature)"
    by (rule built_open_proof)
  let ?p = "client_proof_message ccfg client t h signature"
  let ?v = "verify_transcript cr s1 cfg (identity_Public fips endpoint) ps ks gh ch ?p"
  have "client_normal ?v = client_normal t"
    by (simp add: b(4) s1 hello pe verify_transcript_def open_proof_transcript_def client_proof_message_def
        client_normal_def)
  from client_hash_cong [OF this] sign_then_verify [OF laws(1,2) cli(2) b(5,6)]
  have sig: "h = client_hash cr ?v"
    "verifyWebTTYProofTranscript sg (sg_PublicKey (en_Signing client)) (client_hash cr ?v) signature = None"
    by simp_all
  have window: "validateClientProofTimeWindow cd ?p now'"
    using laws(3) time truncate_second_mod [of now] proof_ttl_mod [of now]
    by (simp add: validateClientProofTimeWindow_def client_proof_message_def b(4) open_proof_transcript_def
        codec_correct_def)
  note vid = valid_signing_identity [OF laws(1,2) cli(2)]
  have fields: "cp_SignatureSuite ?p = 1" "cp_SigningKeyId ?p = sg_KeyID (en_Signing client)"
    "cp_SigningPublicKey ?p = sg_PublicKey (en_Signing client)" "cp_TranscriptHash ?p = h"
    "cp_Signature ?p = signature"
    by (simp_all add: client_proof_message_def)
  have "check_client_proof cr sg cd fips now' s1 cfg endpoint (openCfg\<lparr>op_ClientProof := Some ?p\<rparr>) ?p = Inr ()"
    using suite(1) b(1-3) pe(1) sig window vid known srv(5) fields
    by (simp add: check_client_proof_def authorized_key_def Let_def)
  with srv open' s1 b(7) show ?thesis
    by (simp add: verifyClientProof_def fields) (simp add: client_proof_message_def)
qed


subsection \<open>A concrete handshake\<close>

definition sample_codec :: "string codec" where
  "sample_codec = \<lparr>
     time_parse = (\<lambda>s. if take 1 s = ''-'' then map_option (\<lambda>n. - int n) (parse_digits (drop 1 s))
        else map_option int (parse_digits s)),
     time_format = (\<lambda>t. if 0 \<le> t then format_nat (nat t) else CHR ''-'' # format_nat (nat (- t))),
     marshal_config = (\<lambda>c. Some c),
     marshal_grant = (\<lambda>g. Some [])\<rparr>"

lemma sample_codec_correct: "codec_correct sample_codec"
proof -
  have "take 1 (format_nat n) \<noteq> ''-''" for n
    using format_nat_no_char [of "CHR ''-''" n] by (cases "format_nat n") (auto simp: is_digit_def)
  then show ?thesis
    by (simp add: codec_correct_def sample_codec_def)
qed

definition sample_server_config :: ServerConfig where
  "sample_server_config = \<lparr>sc_RequireClientProof = Some True, sc_EndpointIdentity = Some sample_endpoint,
     sc_WorkspaceID = '' w '', sc_ProjectID = ''p'', sc_ServerID = ''s'',
     sc_AuthorizedClientSigningKeys = [WebTTYSigningKeyID sample_crypto ''pub'' \<mapsto> ''pub''],
     sc_AuthorizedClientSigningKey = None, sc_ClientProofVerifier = None\<rparr>"

definition sample_session :: session where
  "sample_session = \<lparr>ss_cfg = Some sample_server_config, ss_transport = ''websocket'', ss_sessionID = ''id'',
     ss_serverNonce = [], ss_serverKeyID = [], ss_clientKeyID = [], ss_clientPrincipal = [],
     ss_clientDeviceID = [], ss_clientBrowserID = [], ss_closed = False\<rparr>"

definition sample_client_config :: SessionConfig where
  "sample_client_config = \<lparr>cc_EndpointIdentity = Some sample_endpoint,
     cc_ExpectedServerIdentity = Some (identity_Public True sample_endpoint), cc_ClientPrincipalID = ''me'',
     cc_ClientDeviceID = [], cc_ClientBrowserID = [], cc_ClientCredential = []\<rparr>"

definition sample_open_request :: "string pb_Open" where
  "sample_open_request = \<lparr>op_Config = Some ''cmd'', op_SessionKeyGrant = None, op_ClientProof = None\<rparr>"

lemma sample_sign:
  "length h = 32 \<Longrightarrow> signWebTTYProofTranscript sample_signer r (Some sample_sk) h = Inr (h, h)"
  by (simp add: signWebTTYProofTranscript_def validateWebTTYSigningPrivateKey_def
      validateWebTTYSigningPublicKey_def sample_sk_def sample_pk_def)
     (simp add: sample_signer_def sample_sk_def sample_pk_def)

lemma sample_hashes: "length (server_hash sample_crypto t) = 32" "length (client_hash sample_crypto u) = 32"
  using sample_hash by (simp_all add: hash_correct_def server_hash_def client_hash_def)

lemma sample_endpoint_parts:
  "sg_PrivateKey (en_Signing sample_endpoint) = ''priv''"
  "ep_KeyEnvelopeSuite (identity_Public True sample_endpoint) = 3"
  "validateWebTTYSigningIdentity sample_crypto sample_signer (en_Signing sample_endpoint) = None"
  "sg_KeyID (en_Signing sample_endpoint) = WebTTYSigningKeyID sample_crypto ''pub''"
  "sg_PublicKey (en_Signing sample_endpoint) = ''pub''"
  by (simp_all add: sample_endpoint_def identity_Public_def validateWebTTYSigningIdentity_def
      sample_parse_private sample_marshal_public)

lemma sample_suites_ok:
  "webTTYPublicIdentityKeyEnvelopeSuite True (identity_Public True sample_endpoint) = Inr 3"
  "webTTYProofSuites True None 3 = Inr (3, 3)"
  by (simp_all add: webTTYPublicIdentityKeyEnvelopeSuite_def webTTYProofSuites_def sample_endpoint_parts sample_suite)

lemma sample_hello:
  "\<exists>s1 hello. sendServerHelloIfConfigured sample_crypto sample_signer True (replicate 32 (CHR ''n'')) [] sample_session
     = (s1, Inr (Some hello))
     \<and> sh_AuthRequirement hello = 2 \<and> (\<exists>sid. sh_ServerIdentity hello = Some sid \<and> pe_KeyEnvelopeSuite sid = 3)"
  by (simp add: sendServerHelloIfConfigured_def sample_session_def sample_server_config_def Let_def
      sample_suites_ok sample_suite sample_endpoint_parts sample_parse_private sample_sign sample_hashes
      webTTYAuthRequirement_def endpointIdentityPublicToProto_def)

lemma sample_proof:
  assumes "sh_AuthRequirement hello = 2" "sh_ServerIdentity hello = Some sid" "pe_KeyEnvelopeSuite sid = 3"
  shows "\<exists>reply. clientProofForOpen sample_crypto sample_signer sample_codec True 1000000007 [] sample_client_config
     sample_open_request (Some hello) (ss_transport sample_session) = Inr reply"
  using assms
  by (simp add: clientProofForOpen_def sample_client_config_def sample_open_request_def sample_suites_ok
      hashWebTTYProtoMessage_def sample_endpoint_parts sample_parse_private sample_sign sample_hashes Let_def)
     (simp add: sample_codec_def)

lemma sample_handshake:
  obtains s1 hello pf s2 where
    "sendServerHelloIfConfigured sample_crypto sample_signer True (replicate 32 (CHR ''n'')) [] sample_session
       = (s1, Inr (Some hello))"
    "s1 = sample_session\<lparr>ss_serverNonce := replicate 32 (CHR ''n''),
       ss_serverKeyID := EncodeE2EKeyMaterial (WebTTYSigningKeyID sample_crypto ''pub'')\<rparr>"
    "cp_SigningKeyId pf = WebTTYSigningKeyID sample_crypto ''pub''"
    "webTTYStringValueText (cp_PrincipalId pf) = trim_space ''me''"
    "cp_IssuedAt pf = time_format sample_codec 1000000000" "cp_ExpiresAt pf = time_format sample_codec 31000000000"
    "verifyServerHello sample_crypto sample_signer True sample_client_config (Some hello) (ss_transport sample_session) = None"
    "verifyClientProof sample_crypto sample_signer sample_codec True 1000000009 s1
       (Some (sample_open_request\<lparr>op_ClientProof := Some pf\<rparr>)) = (s2, None)"
proof -
  obtain s1 hello sid where sent: "sendServerHelloIfConfigured sample_crypto sample_signer True
      (replicate 32 (CHR ''n'')) [] sample_session = (s1, Inr (Some hello))"
    and h: "sh_AuthRequirement hello = 2" "sh_ServerIdentity hello = Some sid" "pe_KeyEnvelopeSuite sid = 3"
    using sample_hello by blast
  from sample_proof [OF h] obtain reply where
    built: "clientProofForOpen sample_crypto sample_signer sample_codec True 1000000007 [] sample_client_config
     sample_open_request (Some hello) (ss_transport sample_session) = Inr reply" by blast
  have cfg: "ss_cfg sample_session = Some sample_server_config"
    "sc_EndpointIdentity sample_server_config = Some sample_endpoint"
    "cc_ExpectedServerIdentity sample_client_config = Some (identity_Public True sample_endpoint)"
    by (simp_all add: sample_session_def sample_server_config_def sample_client_config_def)
  have "\<exists>proof s2. reply = Some proof
      \<and> verifyClientProof sample_crypto sample_signer sample_codec True 1000000009 s1
          (Some (sample_open_request\<lparr>op_ClientProof := Some proof\<rparr>)) = (s2, None)"
    using honest_proof_accepted [OF sample_signer_correct sample_hash sample_codec_correct _ _ _ _ _ _ _ _ _ sent built,
        of sample_server_config sample_endpoint sample_endpoint 1000000009] sample_endpoint_parts
    by (auto simp: sample_session_def sample_server_config_def sample_client_config_def truncate_second_def
        webTTYProofTTL_def)
  moreover from sent cfg(1,2) have "s1 = sample_session\<lparr>ss_serverNonce := replicate 32 (CHR ''n''),
       ss_serverKeyID := EncodeE2EKeyMaterial (WebTTYSigningKeyID sample_crypto ''pub'')\<rparr>"
    by (rule sent_hello) (simp add: sample_endpoint_parts)
  moreover note honest_hello_accepted [OF sample_signer_correct sample_hash cfg(1,2) sample_endpoint_parts(3) sent cfg(3)]
  ultimately obtain pf s2 where r: "reply = Some pf"
    and v: "verifyClientProof sample_crypto sample_signer sample_codec True 1000000009 s1
       (Some (sample_open_request\<lparr>op_ClientProof := Some pf\<rparr>)) = (s2, None)"
    and s1: "s1 = sample_session\<lparr>ss_serverNonce := replicate 32 (CHR ''n''),
       ss_serverKeyID := EncodeE2EKeyMaterial (WebTTYSigningKeyID sample_crypto ''pub'')\<rparr>"
    and vh: "verifyServerHello sample_crypto sample_signer True sample_client_config (Some hello)
       (ss_transport sample_session) = None"
    by blast
  have "cc_EndpointIdentity sample_client_config = Some sample_endpoint"
    by (simp add: sample_client_config_def)
  from built_open_proof_fields [OF built [unfolded r] h(1) this h(2)] that [OF sent s1 _ _ _ _ vh v]
  show thesis
    by (simp add: sample_endpoint_parts truncate_second_def webTTYProofTTL_def)
       (simp add: sample_client_config_def)
qed


end
