(* ===== verification/HandshakeSound.thy ===== *)
theory HandshakeSound
  imports HandshakeProps
begin

text \<open>
  Soundness of the WebTTY handshake: what follows from an accepted client proof or server
  hello. Digest collisions are excluded only between the transcripts at hand.
\<close>

section \<open>The transcript a session checks\<close>

definition session_transcript ::
  "crypto \<Rightarrow> 'cfg codec \<Rightarrow> bool \<Rightarrow> session \<Rightarrow> 'cfg pb_Open \<Rightarrow> ClientProofTranscript option" where
  "session_transcript cr cd fips s openCfg =
    (case (ss_cfg s, op_ClientProof openCfg) of
       (Some cfg, Some proof) \<Rightarrow>
         (case sc_EndpointIdentity cfg of
            None \<Rightarrow> None
          | Some endpoint \<Rightarrow>
            (case rbind (wrap_err HsSuite (webTTYPublicIdentityKeyEnvelopeSuite fips (identity_Public fips endpoint)))
                   (\<lambda>suite. rbind (wrap_err HsSuite (webTTYProofSuites fips (op_SessionKeyGrant openCfg) suite)) (\<lambda>(ps, ks).
                    rbind (hashWebTTYProtoMessage cr (marshal_grant cd) (op_SessionKeyGrant openCfg)) (\<lambda>gh.
                    rbind (hashWebTTYProtoMessage cr (marshal_config cd) (op_Config openCfg)) (\<lambda>ch.
                      Inr (verify_transcript cr s cfg (identity_Public fips endpoint) ps ks gh ch proof))))) of
               Inl _ \<Rightarrow> None
             | Inr t \<Rightarrow> Some t))
     | _ \<Rightarrow> None)"

lemma check_client_proof_Inr:
  assumes "check_client_proof cr sg cd fips now s cfg endpoint openCfg proof = Inr ()"
    and "ss_cfg s = Some cfg" "sc_EndpointIdentity cfg = Some endpoint" "op_ClientProof openCfg = Some proof"
  obtains t where "session_transcript cr cd fips s openCfg = Some t"
    "cp_TranscriptHash proof = client_hash cr t"
    "verifyWebTTYProofTranscript sg (cp_SigningPublicKey proof) (client_hash cr t) (cp_Signature proof) = None"
    "authorized_key cfg proof t = Inr (cp_SigningPublicKey proof)" "cp_SigningPublicKey proof \<noteq> []"
    "validateClientProofTimeWindow cd proof now"
    "cp_SigningKeyId proof = WebTTYSigningKeyID cr (cp_SigningPublicKey proof)"
proof -
  from assms(1) obtain suite ps ks gh ch where
    f: "webTTYPublicIdentityKeyEnvelopeSuite fips (identity_Public fips endpoint) = Inr suite"
    "webTTYProofSuites fips (op_SessionKeyGrant openCfg) suite = Inr (ps, ks)"
    "hashWebTTYProtoMessage cr (marshal_grant cd) (op_SessionKeyGrant openCfg) = Inr gh"
    "hashWebTTYProtoMessage cr (marshal_config cd) (op_Config openCfg) = Inr ch"
    by (auto simp: check_client_proof_def Let_def split: if_splits)
  let ?t = "verify_transcript cr s cfg (identity_Public fips endpoint) ps ks gh ch proof"
  have "session_transcript cr cd fips s openCfg = Some ?t"
    using assms(2-4) f by (simp add: session_transcript_def)
  then show thesis
    by (rule that) (use assms(1) f in \<open>auto simp: check_client_proof_def Let_def split: if_splits\<close>)
qed

lemma session_transcript_fields:
  assumes "session_transcript cr cd fips s openCfg = Some t"
  shows "ct_ServerNonce t = ss_serverNonce s" "ct_SessionID t = ss_sessionID s"
    "ct_Transport t = ss_transport s" "ct_AttachGrantHash t = []"
    "hashWebTTYProtoMessage cr (marshal_grant cd) (op_SessionKeyGrant openCfg) = Inr (ct_SessionKeyGrantHash t)"
    "hashWebTTYProtoMessage cr (marshal_config cd) (op_Config openCfg) = Inr (ct_CommandConfigHash t)"
  using assms
  by (auto simp: session_transcript_def verify_transcript_def split: option.splits sum.splits)

lemma verifyClientProof_accepted:
  assumes "verifyClientProof cr sg cd fips now s (Some openCfg) = (s', None)"
    and "ss_cfg s = Some cfg" "sc_RequireClientProof cfg = Some True"
  obtains pf endpoint where "op_ClientProof openCfg = Some pf" "sc_EndpointIdentity cfg = Some endpoint"
    "check_client_proof cr sg cd fips now s cfg endpoint openCfg pf = Inr ()" "\<not> ss_closed s"
    "ss_clientKeyID s' = EncodeE2EKeyMaterial (cp_SigningKeyId pf)"
  using assms by (auto simp: verifyClientProof_def split: option.splits sum.splits if_splits)

lemma sample_trims:
  "length (trim_space '' w '') < 4294967296" "length (trim_space ''p'') < 4294967296" "length (trim_space ''s'') < 4294967296"
  using trim_space_length [of "'' w ''"] trim_space_length [of "''p''"] trim_space_length [of "''s''"] by simp_all

text \<open>The concrete handshake again, with the transcript it is about.\<close>

lemma sample_transcript:
  obtains s1 pf s2 t where "ss_cfg s1 = Some sample_server_config"
    "verifyClientProof sample_crypto sample_signer sample_codec True 1000000009 s1
       (Some (sample_open_request\<lparr>op_ClientProof := Some pf\<rparr>)) = (s2, None)"
    "session_transcript sample_crypto sample_codec True s1
       (sample_open_request\<lparr>op_ClientProof := Some pf\<rparr>) = Some t" "client_fits t"
proof -
  from sample_handshake obtain s1 hello pf s2 where
    s1: "s1 = sample_session\<lparr>ss_serverNonce := replicate 32 (CHR ''n''),
       ss_serverKeyID := EncodeE2EKeyMaterial (WebTTYSigningKeyID sample_crypto ''pub'')\<rparr>"
    and pf: "cp_SigningKeyId pf = WebTTYSigningKeyID sample_crypto ''pub''"
    "webTTYStringValueText (cp_PrincipalId pf) = trim_space ''me''"
    "cp_IssuedAt pf = time_format sample_codec 1000000000" "cp_ExpiresAt pf = time_format sample_codec 31000000000"
    and v: "verifyClientProof sample_crypto sample_signer sample_codec True 1000000009 s1
       (Some (sample_open_request\<lparr>op_ClientProof := Some pf\<rparr>)) = (s2, None)"
    by metis
  let ?t = "verify_transcript sample_crypto s1 sample_server_config (identity_Public True sample_endpoint) 3 3
     (sha256 sample_crypto []) (sha256 sample_crypto ''cmd'') pf"
  have "session_transcript sample_crypto sample_codec True s1
       (sample_open_request\<lparr>op_ClientProof := Some pf\<rparr>) = Some ?t"
  proof -
    have "ss_cfg s1 = Some sample_server_config" "sc_EndpointIdentity sample_server_config = Some sample_endpoint"
      by (simp_all add: s1 sample_session_def sample_server_config_def)
    moreover have "hashWebTTYProtoMessage sample_crypto (marshal_config sample_codec) (Some ''cmd'')
        = Inr (sha256 sample_crypto ''cmd'')"
      "hashWebTTYProtoMessage sample_crypto (marshal_grant sample_codec) None = Inr (sha256 sample_crypto [])"
      by (simp_all add: hashWebTTYProtoMessage_def) (simp add: sample_codec_def)
    ultimately show ?thesis
      by (simp add: session_transcript_def sample_open_request_def sample_suites_ok)
  qed
  moreover have "client_fits ?t"
  proof -
    have len: "length (sha256 sample_crypto b) = 32" for b using sample_hash by (simp add: hash_correct_def)
    have time: "fits32 (time_format sample_codec 1000000000)" "fits32 (time_format sample_codec 31000000000)"
      using format_nat_length [of 1000000000 9] format_nat_length [of 31000000000 10]
      by (simp_all add: sample_codec_def fits32_def del: format_nat.simps)
    show ?thesis
      using pf time len hash_lengths [OF sample_hash] trim_space_length [of "''me''"]
      by (simp add: client_fits_def verify_transcript_def s1 sample_session_def sample_server_config_def
          sample_endpoint_parts HashWebTTYClientCredential_def fits32_def)
         (simp add: sample_endpoint_def hash_lengths [OF sample_hash])
  qed
  moreover have "ss_cfg s1 = Some sample_server_config" by (simp add: s1 sample_session_def)
  ultimately show thesis using that v by blast
qed

text \<open>
  C3. An accepted proof is genuine and fresh: when a server that requires proofs accepts an
  open request, the request carries a signature that verifies, under a key the configuration
  authorizes for this client, over the digest of a transcript with this session's own nonce,
  session id and transport and the digests of the requested command and key grant; and it was
  issued at most thirty seconds ago and at most five seconds ahead.
\<close>

theorem client_proof_sound:
  assumes "verifyClientProof cr sg cd fips now s (Some openCfg) = (s', None)"
    and "ss_cfg s = Some cfg" "sc_RequireClientProof cfg = Some True"
  shows "\<exists>proof t pk issued. op_ClientProof openCfg = Some proof
    \<and> session_transcript cr cd fips s openCfg = Some t
    \<and> ct_ServerNonce t = ss_serverNonce s \<and> ct_SessionID t = ss_sessionID s \<and> ct_Transport t = ss_transport s
    \<and> ParseWebTTYSigningPublicKey sg (cp_SigningPublicKey proof) = Inr pk
    \<and> ecdsa_verify sg pk (client_hash cr t) (cp_Signature proof)
    \<and> authorized_key cfg proof t = Inr (cp_SigningPublicKey proof)
    \<and> time_parse cd (cp_IssuedAt proof) = Some issued
    \<and> issued \<le> now + 5 * 1000000000 \<and> now \<le> issued + webTTYProofTTL
    \<and> ss_clientKeyID s' = EncodeE2EKeyMaterial (WebTTYSigningKeyID cr (cp_SigningPublicKey proof))"
  using assms
proof (rule verifyClientProof_accepted)
  fix pf endpoint
  assume a: "op_ClientProof openCfg = Some pf" "sc_EndpointIdentity cfg = Some endpoint"
    "check_client_proof cr sg cd fips now s cfg endpoint openCfg pf = Inr ()"
    "ss_clientKeyID s' = EncodeE2EKeyMaterial (cp_SigningKeyId pf)"
  from a(3) assms(2) a(2,1) obtain t where t: "session_transcript cr cd fips s openCfg = Some t"
    "verifyWebTTYProofTranscript sg (cp_SigningPublicKey pf) (client_hash cr t) (cp_Signature pf) = None"
    "authorized_key cfg pf t = Inr (cp_SigningPublicKey pf)"
    "validateClientProofTimeWindow cd pf now"
    "cp_SigningKeyId pf = WebTTYSigningKeyID cr (cp_SigningPublicKey pf)"
    by (rule check_client_proof_Inr)
  from t(2) obtain pk where "ParseWebTTYSigningPublicKey sg (cp_SigningPublicKey pf) = Inr pk"
    "ecdsa_verify sg pk (client_hash cr t) (cp_Signature pf)"
    by (auto simp: verifyWebTTYProofTranscript_def split: if_splits sum.splits)
  moreover from t(4) obtain issued where "time_parse cd (cp_IssuedAt pf) = Some issued"
    "issued \<le> now + 5 * 1000000000" "now \<le> issued + webTTYProofTTL"
    by (auto simp: validateClientProofTimeWindow_def split: option.splits)
  ultimately show ?thesis
    using a(1,4) t(1,3,5) session_transcript_fields(1-3) [OF t(1)] by auto
qed

theorem client_proof_sound_witness:
  "\<exists>s1 pf s2 t pk. verifyClientProof sample_crypto sample_signer sample_codec True 1000000009 s1
       (Some (sample_open_request\<lparr>op_ClientProof := Some pf\<rparr>)) = (s2, None)
     \<and> ct_ServerNonce t = ss_serverNonce s1
     \<and> ecdsa_verify sample_signer pk (client_hash sample_crypto t) (cp_Signature pf)"
proof -
  obtain s1 pf s2 t where h: "ss_cfg s1 = Some sample_server_config"
    "verifyClientProof sample_crypto sample_signer sample_codec True 1000000009 s1
       (Some (sample_open_request\<lparr>op_ClientProof := Some pf\<rparr>)) = (s2, None)"
    by (rule sample_transcript)
  have "sc_RequireClientProof sample_server_config = Some True"
    by (simp add: sample_server_config_def)
  from client_proof_sound [OF h(2,1) this] h(2) show ?thesis by fastforce
qed

text \<open>
  C2. No replay: if one and the same proof is accepted for two open requests, then, unless
  SHA-256 collides on the two transcripts, both were made in sessions with the same server
  nonce, session id and transport, and for the same command and the same key grant.
\<close>

theorem client_proof_not_replayable:
  assumes acc: "verifyClientProof cr sg cd fips now1 s1 (Some o1) = (s1', None)"
      "verifyClientProof cr sg cd fips now2 s2 (Some o2) = (s2', None)"
    and req: "ss_cfg s1 = Some cfg1" "sc_RequireClientProof cfg1 = Some True"
      "ss_cfg s2 = Some cfg2" "sc_RequireClientProof cfg2 = Some True"
    and same: "op_ClientProof o1 = op_ClientProof o2"
    and t: "session_transcript cr cd fips s1 o1 = Some t1" "session_transcript cr cd fips s2 o2 = Some t2"
    and fits: "client_fits t1" "client_fits t2"
    and nocoll: "client_hash cr t1 = client_hash cr t2 \<longrightarrow> client_canonical_bytes t1 = client_canonical_bytes t2"
  shows "ss_serverNonce s1 = ss_serverNonce s2
    \<and> trim_space (ss_sessionID s1) = trim_space (ss_sessionID s2)
    \<and> trim_space (ss_transport s1) = trim_space (ss_transport s2)
    \<and> hashWebTTYProtoMessage cr (marshal_config cd) (op_Config o1)
        = hashWebTTYProtoMessage cr (marshal_config cd) (op_Config o2)
    \<and> hashWebTTYProtoMessage cr (marshal_grant cd) (op_SessionKeyGrant o1)
        = hashWebTTYProtoMessage cr (marshal_grant cd) (op_SessionKeyGrant o2)"
proof -
  have hash: "\<exists>proof. op_ClientProof oc = Some proof \<and> cp_TranscriptHash proof = client_hash cr t"
    if "verifyClientProof cr sg cd fips now s (Some oc) = (s', None)" "ss_cfg s = Some cfg"
      "sc_RequireClientProof cfg = Some True" "session_transcript cr cd fips s oc = Some t" for now s oc s' cfg t
    using that(1-3)
    by (rule verifyClientProof_accepted) (metis check_client_proof_Inr option.inject that(2,4))
  from hash [OF acc(1) req(1,2) t(1)] hash [OF acc(2) req(3,4) t(2)] same
  have "client_hash cr t1 = client_hash cr t2" by auto
  with nocoll have "client_normal t1 = client_normal t2"
    using client_canonical_iff [OF fits] by blast
  then have "ct_ServerNonce t1 = ct_ServerNonce t2" "trim_space (ct_SessionID t1) = trim_space (ct_SessionID t2)"
    "trim_space (ct_Transport t1) = trim_space (ct_Transport t2)" "ct_CommandConfigHash t1 = ct_CommandConfigHash t2"
    "ct_SessionKeyGrantHash t1 = ct_SessionKeyGrantHash t2"
    by (cases t1; cases t2; simp add: client_normal_def)+
  then show ?thesis
    using session_transcript_fields [OF t(1)] session_transcript_fields [OF t(2)] by simp
qed

theorem client_proof_not_replayable_witness:
  "\<exists>s1 s3 pf s2 s4. verifyClientProof sample_crypto sample_signer sample_codec True 1000000009 s1
       (Some (sample_open_request\<lparr>op_ClientProof := Some pf\<rparr>)) = (s2, None)
     \<and> verifyClientProof sample_crypto sample_signer sample_codec True 1000000009 s3
       (Some (sample_open_request\<lparr>op_ClientProof := Some pf\<rparr>)) = (s4, None)
     \<and> ss_serverNonce s1 = ss_serverNonce s3"
proof -
  obtain s1 pf s2 t where h: "ss_cfg s1 = Some sample_server_config"
    "verifyClientProof sample_crypto sample_signer sample_codec True 1000000009 s1
       (Some (sample_open_request\<lparr>op_ClientProof := Some pf\<rparr>)) = (s2, None)"
    "session_transcript sample_crypto sample_codec True s1
       (sample_open_request\<lparr>op_ClientProof := Some pf\<rparr>) = Some t" "client_fits t"
    by (rule sample_transcript)
  have r: "sc_RequireClientProof sample_server_config = Some True"
    by (simp add: sample_server_config_def)
  from client_proof_not_replayable [OF h(2) h(2) h(1) r h(1) r refl h(3) h(3) h(4) h(4)] h(2)
  show ?thesis by blast
qed

text \<open>
  C13. Attach proofs are not open proofs: the bytes a client signs to attach to a session are
  never the bytes any server session checks for an open request.
\<close>

theorem attach_proof_never_opens:
  assumes "hash_correct cr"
    and "client_fits (attach_transcript cr attach msg transport ps ks p k c i e)"
    and "client_fits (verify_transcript cr s cfg sid ps' ks' gh ch proof)"
  shows "client_canonical_bytes (attach_transcript cr attach msg transport ps ks p k c i e)
     \<noteq> client_canonical_bytes (verify_transcript cr s cfg sid ps' ks' gh ch proof)"
proof
  assume "client_canonical_bytes (attach_transcript cr attach msg transport ps ks p k c i e)
     = client_canonical_bytes (verify_transcript cr s cfg sid ps' ks' gh ch proof)"
  with client_canonical_iff [OF assms(2,3)] have "HashWebTTYAttachGrant cr (at_AttachGrant msg) = []"
    by (simp add: client_normal_def attach_transcript_def verify_transcript_def)
  with assms(1) show False
    by (metis HashWebTTYAttachGrant_def hash_correct_def list.size(3) zero_neq_numeral)
qed

theorem attach_proof_never_opens_witness:
  "client_canonical_bytes (attach_transcript sample_crypto \<lparr>ac_WorkspaceID = ''w'', ac_ProjectID = ''p'', ac_ServerID = ''s''\<rparr>
      \<lparr>at_SessionId = ''id'', at_AttachGrant = [], at_RequestedRole = 2\<rparr> ''websocket'' 3 3 [] [] [] [] [])
   \<noteq> client_canonical_bytes (verify_transcript sample_crypto sample_session sample_server_config sample_public 3 3 [] []
      \<lparr>cp_PrincipalId = None, cp_SigningKeyId = [], cp_SigningPublicKey = [], cp_SignatureSuite = 1,
       cp_TranscriptHash = [], cp_Signature = [], cp_IssuedAt = [], cp_ExpiresAt = [], cp_DeviceId = None,
       cp_BrowserId = None, cp_Credential = None\<rparr>)"
proof (rule attach_proof_never_opens [OF sample_hash])
  have len: "length (sha256 sample_crypto b) = 32" for b using sample_hash by (simp add: hash_correct_def)
  have trim: "length (trim_space [c]) \<le> 1" "length (trim_space ''id'') \<le> 2" for c
    using trim_space_length [of "[c]"] trim_space_length [of "''id''"] by simp_all
  show "client_fits (attach_transcript sample_crypto \<lparr>ac_WorkspaceID = ''w'', ac_ProjectID = ''p'', ac_ServerID = ''s''\<rparr>
      \<lparr>at_SessionId = ''id'', at_AttachGrant = [], at_RequestedRole = 2\<rparr> ''websocket'' 3 3 [] [] [] [] [])"
    using trim(1) [of "CHR ''w''"] trim(1) [of "CHR ''p''"] trim(1) [of "CHR ''s''"] trim(2)
    by (simp add: client_fits_def attach_transcript_def HashWebTTYAttachGrant_def HashWebTTYClientCredential_def
        attachRoleTranscriptValue_def fits32_def len)
  show "client_fits (verify_transcript sample_crypto sample_session sample_server_config sample_public 3 3 [] []
      \<lparr>cp_PrincipalId = None, cp_SigningKeyId = [], cp_SigningPublicKey = [], cp_SignatureSuite = 1,
       cp_TranscriptHash = [], cp_Signature = [], cp_IssuedAt = [], cp_ExpiresAt = [], cp_DeviceId = None,
       cp_BrowserId = None, cp_Credential = None\<rparr>)"
    by (simp add: client_fits_def verify_transcript_def sample_session_def sample_server_config_def sample_public_def
        HashWebTTYClientCredential_def webTTYStringValueText_def fits32_def len sample_endpoint_parts
        hash_lengths [OF sample_hash]) (simp add: sample_endpoint_def hash_lengths [OF sample_hash])
qed



end
