(* ===== verification/Proxy.thy ===== *)
theory Proxy
  imports Prelude
begin

text \<open>
  Proxy configuration (\<^verbatim>\<open>proxy_config.go\<close> and the configuration part of
  \<^verbatim>\<open>socks5_proxy.go\<close>): which proxy is used, the address it is dialled at and the credentials
  it is given.

  A parsed URL is a record of what the accessors of \<^verbatim>\<open>net/url\<close> return; the parser, the
  printer and the environment are arguments of the operations that use them.
\<close>

record url =
  Scheme :: string
  Hostname :: string
  Port :: string
  User :: "(string \<times> string option) option"

datatype proxy_error =
    EmptyProxyURL
  | ParseProxyURL
  | UnsupportedScheme string
  | MissingProxyHost
  | HalfCredentials
  | LongCredentials
  | EnvironmentProxy

text \<open>\<^verbatim>\<open>stringValue\<close>, \<^verbatim>\<open>boolValue\<close> and \<^verbatim>\<open>proxyValue\<close> read optional settings.\<close>

definition stringValue :: "string option \<Rightarrow> string" where
  "stringValue p = (case p of None \<Rightarrow> [] | Some v \<Rightarrow> v)"

definition boolValue :: "bool option \<Rightarrow> bool" where
  "boolValue p = (case p of None \<Rightarrow> False | Some v \<Rightarrow> v)"

definition proxyValue :: "string option \<Rightarrow> string" where
  "proxyValue p = (case p of None \<Rightarrow> [] | Some v \<Rightarrow> trim_space v)"

fun getEnvAny :: "(string \<Rightarrow> string) \<Rightarrow> string list \<Rightarrow> string" where
  "getEnvAny env [] = []"
| "getEnvAny env (name # names) =
    (let v = trim_space (env name) in if v \<noteq> [] then v else getEnvAny env names)"

text \<open>
  The proxy of the environment: \<open>from_env\<close> is \<^verbatim>\<open>httpproxy.FromEnvironment\<close> and \<open>proxy_func\<close> the
  lookup for an explicit proxy and exclusion list, both for an https request to the target.
\<close>

definition proxyURLFromEnvironment ::
  "(string \<Rightarrow> string) \<Rightarrow> (string \<Rightarrow> proxy_error + url option) \<Rightarrow> (string \<Rightarrow> string \<Rightarrow> string \<Rightarrow> proxy_error + url option)
     \<Rightarrow> string \<Rightarrow> proxy_error + url option" where
  "proxyURLFromEnvironment env from_env proxy_func target =
    (case from_env target of
       Inl e \<Rightarrow> Inl e
     | Inr (Some u) \<Rightarrow> Inr (Some u)
     | Inr None \<Rightarrow>
         let allProxy = getEnvAny env [''ALL_PROXY'', ''all_proxy''] in
         if allProxy = [] then Inr None
         else proxy_func allProxy (getEnvAny env [''NO_PROXY'', ''no_proxy'']) target)"

definition effectiveProxyURLs ::
  "(url \<Rightarrow> string) \<Rightarrow> (string \<Rightarrow> proxy_error + url option)
     \<Rightarrow> string \<Rightarrow> string \<Rightarrow> bool option \<Rightarrow> string \<Rightarrow> proxy_error + (string \<times> string)" where
  "effectiveProxyURLs url_string environment proxyHTTP proxySOCKS5 fromEnvironment target =
    (if proxyHTTP \<noteq> [] \<or> proxySOCKS5 \<noteq> [] \<or> \<not> boolValue fromEnvironment
     then Inr (proxyHTTP, proxySOCKS5)
     else rbind (environment target) (\<lambda>proxyURL.
       case proxyURL of
         None \<Rightarrow> Inr ([], [])
       | Some u \<Rightarrow>
           if Scheme u = ''http'' \<or> Scheme u = ''https'' then Inr (url_string u, [])
           else if Scheme u = ''socks5'' \<or> Scheme u = ''socks5h'' then Inr ([], url_string u)
           else Inl (UnsupportedScheme (Scheme u))))"

definition proxyCredentials ::
  "url option \<Rightarrow> string option \<Rightarrow> string option \<Rightarrow> proxy_error + (string \<times> string \<times> bool)" where
  "proxyCredentials proxyURL username password =
    (case (username, password) of
       (Some u, Some p) \<Rightarrow> Inr (u, p, True)
     | (None, None) \<Rightarrow>
         (case proxyURL of
            None \<Rightarrow> Inr ([], [], False)
          | Some url \<Rightarrow>
              (case User url of
                 None \<Rightarrow> Inr ([], [], False)
               | Some (name, pass) \<Rightarrow> Inr (name, stringValue pass, True)))
     | _ \<Rightarrow> Inl HalfCredentials)"

definition httpProxyDialAddress :: "url \<Rightarrow> proxy_error + string" where
  "httpProxyDialAddress u =
    (if Hostname u = [] then Inl MissingProxyHost
     else if Port u \<noteq> [] then Inr (join_host_port (Hostname u) (Port u))
     else if Scheme u = ''http'' then Inr (join_host_port (Hostname u) ''80'')
     else if Scheme u = ''https'' then Inr (join_host_port (Hostname u) ''443'')
     else Inl (UnsupportedScheme (Scheme u)))"

text \<open>
  The first usable address of an interface. \<open>None\<close> in the list is an address of an unknown
  kind; the flag of an address says that it is an IPv4 address.
\<close>

fun select_ip :: "bool \<Rightarrow> bool \<Rightarrow> ('ip \<times> bool) option list \<Rightarrow> 'ip option" where
  "select_ip force4 force6 [] = None"
| "select_ip force4 force6 (None # addrs) = select_ip force4 force6 addrs"
| "select_ip force4 force6 (Some (ip, is4) # addrs) =
    (if force4 \<and> is4 then Some ip
     else if force6 \<and> \<not> is4 then Some ip
     else if \<not> force4 \<and> \<not> force6 then Some ip
     else select_ip force4 force6 addrs)"

datatype interface_error = NoInterface | NoUsableAddress

definition selectInterfaceIP ::
  "(string \<Rightarrow> ('ip \<times> bool) option list option option) \<Rightarrow> string \<Rightarrow> bool \<Rightarrow> bool \<Rightarrow> interface_error + 'ip option" where
  "selectInterfaceIP interfaces name force4 force6 =
    (case interfaces name of
       None \<Rightarrow> Inl NoInterface
     | Some None \<Rightarrow> Inl NoUsableAddress
     | Some (Some addrs) \<Rightarrow>
         if addrs = [] then Inl NoUsableAddress else Inr (select_ip force4 force6 addrs))"

text \<open>The configuration of a SOCKS5 proxy.\<close>

record socks5ProxyConfig =
  pc_address :: string
  pc_username :: string
  pc_password :: string
  pc_auth :: bool

definition contains_scheme :: "string \<Rightarrow> bool" where
  "contains_scheme s = sublist ''://'' s"

definition socks5ProxyConfigFromRaw ::
  "(string \<Rightarrow> url option) \<Rightarrow> string \<Rightarrow> string option \<Rightarrow> string option \<Rightarrow> proxy_error + socks5ProxyConfig" where
  "socks5ProxyConfigFromRaw url_parse raw username password =
    (if raw = [] then Inl EmptyProxyURL
     else
     let raw = (if contains_scheme raw then raw else ''socks5://'' @ raw) in
     case url_parse raw of
       None \<Rightarrow> Inl ParseProxyURL
     | Some u \<Rightarrow>
       if Scheme u \<noteq> ''socks5'' \<and> Scheme u \<noteq> ''socks5h'' then Inl (UnsupportedScheme (Scheme u))
       else if Hostname u = [] then Inl MissingProxyHost
       else
       let port = (if Port u = [] then ''1080'' else Port u);
           cfg = \<lparr>pc_address = join_host_port (Hostname u) port, pc_username = [], pc_password = [], pc_auth = False\<rparr>
       in
       rbind
        (if username \<noteq> None \<or> password \<noteq> None then
           (case (username, password) of
              (Some un, Some pw) \<Rightarrow> Inr (cfg\<lparr>pc_username := un, pc_password := pw, pc_auth := True\<rparr>)
            | _ \<Rightarrow> Inl HalfCredentials)
         else Inr cfg) (\<lambda>cfg.
       let cfg = (case User u of
                    Some (name, pass) \<Rightarrow>
                      if \<not> pc_auth cfg
                      then cfg\<lparr>pc_username := name, pc_password := stringValue pass, pc_auth := True\<rparr>
                      else cfg
                  | None \<Rightarrow> cfg)
       in if pc_auth cfg \<and> (255 < length (pc_username cfg) \<or> 255 < length (pc_password cfg))
          then Inl LongCredentials else Inr cfg))"

lemma socks5_config_credentials:
  assumes "socks5ProxyConfigFromRaw url_parse raw username password = Inr cfg"
  shows "pc_auth cfg \<longrightarrow> length (pc_username cfg) \<le> 255 \<and> length (pc_password cfg) \<le> 255"
    and "\<not> pc_auth cfg \<longrightarrow> pc_username cfg = [] \<and> pc_password cfg = []"
    and "username = Some un \<Longrightarrow> \<exists>pw. password = Some pw \<and> pc_auth cfg \<and> pc_username cfg = un \<and> pc_password cfg = pw"
  using assms
  by (auto simp: socks5ProxyConfigFromRaw_def Let_def split: if_splits option.splits)

lemma select_ip_family:
  assumes "select_ip force4 force6 addrs = Some ip"
  shows "\<exists>is4. Some (ip, is4) \<in> set addrs \<and> (force4 \<and> \<not> force6 \<longrightarrow> is4) \<and> (force6 \<and> \<not> force4 \<longrightarrow> \<not> is4)"
  using assms by (induction force4 force6 addrs rule: select_ip.induct) (auto split: if_splits)

end
