(* ===== verification/Dial.thy ===== *)
theory Dial
  imports Proxy "HOL-Library.Multiset" "HOL-Library.Signed_Division"
begin

text \<open>
  Finding a network path (\<^verbatim>\<open>dial_routes.go\<close>, \<^verbatim>\<open>dns_resolution.go\<close>): the order in which
  resolved addresses are tried, the product of targets and proxies, and the race between
  routes.

  The resolver and \<^verbatim>\<open>net/netip\<close> are a record of functions. The race is a step relation: the
  scheduler, the timer and the goroutines that dial are the nondeterminism of its steps.
\<close>

section \<open>Address order\<close>

text \<open>Addresses as \<^verbatim>\<open>netip\<close> gives them: parsed, with mapped addresses reduced, and printed.\<close>

record 'ip netip =
  ParseAddr :: "string \<Rightarrow> 'ip option"
  Unmap :: "'ip \<Rightarrow> 'ip"
  Is4 :: "'ip \<Rightarrow> bool"
  Is6 :: "'ip \<Rightarrow> bool"
  ip_String :: "'ip \<Rightarrow> string"

record dnsResolverConfig =
  dc_override :: string
  dc_overTLS :: bool
  dc_serverName :: string
  dc_dnssecEnabled :: bool
  dc_forceIPv4 :: bool
  dc_forceIPv6 :: bool

datatype dial_error =
    SplitHostPort addr_error
  | NotIPv4
  | NotIPv6
  | LookupFailed
  | NoAddresses
  | InvalidAddress string
  | TwoProxies
  | ProxyConfig proxy_error

definition dns_enabled :: "dnsResolverConfig \<Rightarrow> bool" where
  "dns_enabled c \<longleftrightarrow> dc_override c \<noteq> [] \<or> dc_overTLS c \<or> dc_dnssecEnabled c \<or> dc_forceIPv4 c \<or> dc_forceIPv6 c"

text \<open>
  The loop over the looked up addresses: the printed addresses seen so far, whether the first
  was IPv6, and the two families.
\<close>

fun family_loop ::
  "'ip netip \<Rightarrow> string \<Rightarrow> string list \<Rightarrow> bool \<Rightarrow> string list \<Rightarrow> string list \<Rightarrow> string list
     \<Rightarrow> dial_error + (string list \<times> string list)" where
  "family_loop np port seen firstIPv6 f0 f1 [] = Inr (f0, f1)"
| "family_loop np port seen firstIPv6 f0 f1 (value # rest) =
    (case ParseAddr np value of
       None \<Rightarrow> Inl (InvalidAddress value)
     | Some ip \<Rightarrow>
         let ip = Unmap np ip in
         if ip_String np ip \<in> set seen then family_loop np port seen firstIPv6 f0 f1 rest
         else
           let seen = ip_String np ip # seen;
               firstIPv6 = (if length seen = 1 then Is6 np ip else firstIPv6);
               text = join_host_port (ip_String np ip) port
           in if Is6 np ip \<noteq> firstIPv6
              then family_loop np port seen firstIPv6 f0 (f1 @ [text]) rest
              else family_loop np port seen firstIPv6 (f0 @ [text]) f1 rest)"

text \<open>The output loop runs to the longer of the two families.\<close>

definition alternate :: "'a list \<Rightarrow> 'a list \<Rightarrow> 'a list" where
  "alternate f0 f1 =
     concat (map (\<lambda>i. (if i < length f0 then [f0 ! i] else []) @ (if i < length f1 then [f1 ! i] else []))
       [0..<max (length f0) (length f1)])"

definition resolveDialAddresses ::
  "'ip netip \<Rightarrow> (string \<Rightarrow> string list option) \<Rightarrow> string \<Rightarrow> dnsResolverConfig \<Rightarrow> dial_error + string list" where
  "resolveDialAddresses np lookup addr cfg =
    (case split_host_port addr of
       Inl e \<Rightarrow> Inl (SplitHostPort e)
     | Inr (host, port) \<Rightarrow>
       (case ParseAddr np host of
          Some ip \<Rightarrow>
            if dc_forceIPv4 cfg \<and> \<not> Is4 np (Unmap np ip) then Inl NotIPv4
            else if dc_forceIPv6 cfg \<and> \<not> Is6 np (Unmap np ip) then Inl NotIPv6
            else Inr [addr]
        | None \<Rightarrow>
          (case lookup host of
             None \<Rightarrow> Inl LookupFailed
           | Some addresses \<Rightarrow>
               if addresses = [] then Inl NoAddresses
               else rbind (family_loop np port [] False [] [] addresses) (\<lambda>(f0, f1).
                 Inr (alternate f0 f1)))))"

text \<open>The reference: normalized addresses, first occurrences only, in lookup order.\<close>

fun unique_ips :: "'ip netip \<Rightarrow> string list \<Rightarrow> string list \<Rightarrow> 'ip list" where
  "unique_ips np seen [] = []"
| "unique_ips np seen (value # rest) =
    (case ParseAddr np value of
       None \<Rightarrow> []
     | Some ip \<Rightarrow>
         let ip = Unmap np ip in
         if ip_String np ip \<in> set seen then unique_ips np seen rest
         else ip # unique_ips np (ip_String np ip # seen) rest)"

lemma alternate_simps [simp]:
  "alternate [] [] = []"
  "alternate (x # xs) [] = x # alternate xs []"
  "alternate [] (y # ys) = y # alternate [] ys"
  "alternate (x # xs) (y # ys) = x # y # alternate xs ys"
  by (simp_all add: alternate_def map_upt_Suc del: upt_Suc cong: if_cong)

lemma alternate_induct [case_names Nil Left Right Both]:
  assumes "P [] []" "\<And>x xs. P xs [] \<Longrightarrow> P (x # xs) []" "\<And>y ys. P [] ys \<Longrightarrow> P [] (y # ys)"
    "\<And>x xs y ys. P xs ys \<Longrightarrow> P (x # xs) (y # ys)"
  shows "P xs ys"
proof (induction xs arbitrary: ys)
  case Nil
  then show ?case using assms by (induction ys) auto
next
  case (Cons x xs)
  then show ?case using assms by (cases ys) auto
qed

lemma alternate_mset: "mset (alternate f0 f1) = mset f0 + mset f1"
  by (induction f0 f1 rule: alternate_induct) simp_all

lemma alternate_filter:
  assumes "\<forall>x\<in>set f0. p x" "\<forall>y\<in>set f1. \<not> p y"
  shows "filter p (alternate f0 f1) = f0" "filter (\<lambda>x. \<not> p x) (alternate f0 f1) = f1"
  using assms by (induction f0 f1 rule: alternate_induct) simp_all

lemma alternate_map: "alternate (map g f0) (map g f1) = map g (alternate f0 f1)"
  by (induction f0 f1 rule: alternate_induct) simp_all

lemma alternate_strict:
  assumes "i < length f0" "i < length f1"
  shows "alternate f0 f1 ! (2 * i) = f0 ! i" "alternate f0 f1 ! (2 * i + 1) = f1 ! i"
  using assms
  by (induction f0 f1 arbitrary: i rule: alternate_induct) (auto simp: nth_Cons split: nat.splits)

lemma family_loop_Inr:
  assumes "family_loop np port seen b f0 f1 vs = Inr (g0, g1)" "seen \<noteq> []"
  shows "g0 = f0 @ map (\<lambda>ip. join_host_port (ip_String np ip) port)
                  (filter (\<lambda>ip. Is6 np ip = b) (unique_ips np seen vs))
    \<and> g1 = f1 @ map (\<lambda>ip. join_host_port (ip_String np ip) port)
                  (filter (\<lambda>ip. Is6 np ip \<noteq> b) (unique_ips np seen vs))"
  using assms
proof (induction vs arbitrary: seen f0 f1)
  case (Cons v vs)
  then obtain ip where ip: "ParseAddr np v = Some ip" by (auto split: option.splits)
  show ?case
  proof (cases "ip_String np (Unmap np ip) \<in> set seen")
    case True
    with Cons ip show ?thesis by (simp add: Let_def)
  next
    case False
    let ?text = "join_host_port (ip_String np (Unmap np ip)) port"
    note IH = Cons.IH [of "ip_String np (Unmap np ip) # seen"]
    from False Cons.prems ip IH [of "f0 @ [?text]" f1] IH [of f0 "f1 @ [?text]"] show ?thesis
      by (cases "Is6 np (Unmap np ip) = b") (simp_all add: Let_def)
  qed
qed simp

lemma unique_ips_distinct:
  "distinct (map (ip_String np) (unique_ips np seen vs))
   \<and> set (map (ip_String np) (unique_ips np seen vs)) \<inter> set seen = {}"
proof (induction vs arbitrary: seen)
  case (Cons v vs)
  show ?case
  proof (cases "ParseAddr np v")
    case (Some ip)
    with Cons [of seen] Cons [of "ip_String np (Unmap np ip) # seen"] show ?thesis
      by (auto simp: Let_def)
  qed simp
qed simp

definition families :: "'ip netip \<Rightarrow> 'ip list \<Rightarrow> 'ip list \<times> 'ip list" where
  "families np ips =
    (filter (\<lambda>ip. Is6 np ip = Is6 np (hd ips)) ips, filter (\<lambda>ip. Is6 np ip \<noteq> Is6 np (hd ips)) ips)"

definition family_order :: "'ip netip \<Rightarrow> 'ip list \<Rightarrow> 'ip list" where
  "family_order np ips = alternate (fst (families np ips)) (snd (families np ips))"

lemma family_order_mset: "mset (family_order np ips) = mset ips"
  using multiset_partition [of "mset ips" "\<lambda>ip. Is6 np ip = Is6 np (hd ips)"]
  by (simp add: family_order_def alternate_mset families_def)

lemma family_order_hd:
  assumes "ips \<noteq> []"
  shows "hd (family_order np ips) = hd ips"
proof -
  obtain ip rest where "ips = ip # rest" using assms by (cases ips) auto
  then show ?thesis
    by (cases "snd (families np ips)") (simp_all add: family_order_def families_def)
qed

lemma family_order_filter:
  "filter (Is6 np) (family_order np ips) = filter (Is6 np) ips"
  "filter (\<lambda>ip. \<not> Is6 np ip) (family_order np ips) = filter (\<lambda>ip. \<not> Is6 np ip) ips"
proof -
  let ?p = "\<lambda>ip. Is6 np ip = Is6 np (hd ips)"
  note split = alternate_filter [of "filter ?p ips" ?p "filter (\<lambda>ip. \<not> ?p ip) ips"]
  show "filter (Is6 np) (family_order np ips) = filter (Is6 np) ips"
    "filter (\<lambda>ip. \<not> Is6 np ip) (family_order np ips) = filter (\<lambda>ip. \<not> Is6 np ip) ips"
    using split by (cases "Is6 np (hd ips)"; simp add: family_order_def families_def)+
qed

lemma family_order_alternates:
  assumes "i < length (fst (families np ips)) \<and> i < length (snd (families np ips))"
  shows "Is6 np (family_order np ips ! (2 * i)) \<noteq> Is6 np (family_order np ips ! (2 * i + 1))"
proof -
  have "fst (families np ips) ! i \<in> set (fst (families np ips))"
    "snd (families np ips) ! i \<in> set (snd (families np ips))"
    using assms by simp_all
  moreover have "family_order np ips ! (2 * i) = fst (families np ips) ! i"
    "family_order np ips ! (2 * i + 1) = snd (families np ips) ! i"
    using alternate_strict [OF conjunct1 [OF assms] conjunct2 [OF assms]] by (simp_all add: family_order_def)
  ultimately show ?thesis by (simp add: families_def)
qed

lemma family_loop_start:
  assumes "family_loop np port [] b [] [] vs = Inr (g0, g1)" "vs \<noteq> []"
  shows "unique_ips np [] vs \<noteq> []
    \<and> g0 = map (\<lambda>ip. join_host_port (ip_String np ip) port) (fst (families np (unique_ips np [] vs)))
    \<and> g1 = map (\<lambda>ip. join_host_port (ip_String np ip) port) (snd (families np (unique_ips np [] vs)))"
proof -
  obtain v rest where vs: "vs = v # rest" using assms(2) by (cases vs) auto
  with assms(1) obtain ip where ip: "ParseAddr np v = Some ip" by (auto split: option.splits)
  with assms(1) vs have "family_loop np port [ip_String np (Unmap np ip)] (Is6 np (Unmap np ip))
      [join_host_port (ip_String np (Unmap np ip)) port] [] rest = Inr (g0, g1)"
    by (simp add: Let_def)
  from family_loop_Inr [OF this] vs ip show ?thesis
    by (simp add: families_def Let_def)
qed


definition sample_netip :: "string netip" where
  "sample_netip =
    \<lparr>ParseAddr = (\<lambda>v. if CHR ''1'' \<in> set v then Some v else None), Unmap = (\<lambda>ip. ip),
     Is4 = (\<lambda>ip. CHR '':'' \<notin> set ip), Is6 = (\<lambda>ip. CHR '':'' \<in> set ip), ip_String = (\<lambda>ip. ip)\<rparr>"

definition sample_dns :: dnsResolverConfig where
  "sample_dns =
    \<lparr>dc_override = [], dc_overTLS = False, dc_serverName = [], dc_dnssecEnabled = False,
     dc_forceIPv4 = False, dc_forceIPv6 = False\<rparr>"

definition sample_lookup :: "string \<Rightarrow> string list option" where
  "sample_lookup host = Some [''::1'', ''::11'', ''1.1'', ''::1'', ''::111'']"



section \<open>Routes\<close>

record dialRoute =
  rt_target :: string
  rt_proxy :: string

record dialRoutes =
  rs_targets :: "string list"
  rs_proxies :: "string list"

definition routes_count :: "dialRoutes \<Rightarrow> nat" where
  "routes_count r = length (rs_targets r) * length (rs_proxies r)"

definition routes_at :: "dialRoutes \<Rightarrow> nat \<Rightarrow> dialRoute" where
  "routes_at r index =
    (let proxy = index mod length (rs_proxies r);
         target = (index div length (rs_proxies r) + proxy) mod length (rs_targets r)
     in \<lparr>rt_target = rs_targets r ! target, rt_proxy = rs_proxies r ! proxy\<rparr>)"

definition route_endpoint :: "dialRoute \<Rightarrow> string" where
  "route_endpoint r = (if rt_proxy r \<noteq> [] then rt_proxy r else rt_target r)"

text \<open>\<^verbatim>\<open>dialNetwork\<close> appends the address family of the endpoint.\<close>

definition dialNetwork :: "string \<Rightarrow> dialRoute \<Rightarrow> string" where
  "dialNetwork base route =
    (case split_host_port (route_endpoint route) of
       Inl _ \<Rightarrow> base
     | Inr (host, _) \<Rightarrow> if CHR '':'' \<in> set host then base @ ''6'' else base @ ''4'')"

text \<open>The address of the configured proxy, empty without one.\<close>

definition proxy_dial_address :: "(string \<Rightarrow> url option) \<Rightarrow> string \<Rightarrow> string \<Rightarrow> proxy_error + string" where
  "proxy_dial_address url_parse proxyHTTP proxySOCKS5 =
    (if proxyHTTP \<noteq> [] then
       (case url_parse proxyHTTP of
          None \<Rightarrow> Inl ParseProxyURL
        | Some u \<Rightarrow>
            if Scheme u \<noteq> ''http'' \<and> Scheme u \<noteq> ''https'' then Inl (UnsupportedScheme (Scheme u))
            else httpProxyDialAddress u)
     else if proxySOCKS5 \<noteq> [] then
       rbind (socks5ProxyConfigFromRaw url_parse proxySOCKS5 None None) (\<lambda>p. Inr (pc_address p))
     else Inr [])"

definition prepareDialRoutes ::
  "'ip netip \<Rightarrow> (string \<Rightarrow> string list option) \<Rightarrow> (string \<Rightarrow> url option)
     \<Rightarrow> string \<Rightarrow> string \<Rightarrow> string \<Rightarrow> dnsResolverConfig \<Rightarrow> dial_error + dialRoutes" where
  "prepareDialRoutes np lookup url_parse addr proxyHTTP proxySOCKS5 cfg =
    (if proxyHTTP \<noteq> [] \<and> proxySOCKS5 \<noteq> [] then Inl TwoProxies
     else
     case proxy_dial_address url_parse proxyHTTP proxySOCKS5 of
       Inl e \<Rightarrow> Inl (ProxyConfig e)
     | Inr proxy \<Rightarrow>
     rbind (if proxy = [] \<or> dns_enabled cfg then resolveDialAddresses np lookup addr cfg else Inr [addr])
       (\<lambda>targets.
     rbind (if proxy \<noteq> [] then resolveDialAddresses np lookup proxy cfg else Inr [[]]) (\<lambda>proxies.
       Inr \<lparr>rs_targets = targets, rs_proxies = proxies\<rparr>)))"

definition resolveDialAddress ::
  "'ip netip \<Rightarrow> (string \<Rightarrow> string list option) \<Rightarrow> string \<Rightarrow> dnsResolverConfig \<Rightarrow> dial_error + string" where
  "resolveDialAddress np lookup addr cfg = rbind (resolveDialAddresses np lookup addr cfg) (\<lambda>as. Inr (as ! 0))"

lemma resolveDialAddresses_nonempty:
  assumes "resolveDialAddresses np lookup addr cfg = Inr out"
  shows "out \<noteq> []"
proof -
  have "out = [addr] \<or> (\<exists>f0 f1 port vs. vs \<noteq> [] \<and> family_loop np port [] False [] [] vs = Inr (f0, f1)
      \<and> out = alternate f0 f1)"
    using assms unfolding resolveDialAddresses_def
    by (simp split: sum.splits option.splits if_splits prod.splits) metis+
  then show ?thesis
  proof (elim disjE exE conjE)
    fix f0 f1 port vs
    assume a: "vs \<noteq> []" "family_loop np port [] False [] [] vs = Inr (f0, f1)" "out = alternate f0 f1"
    from family_loop_start [OF a(2,1)] have "mset f0 \<noteq> {#} \<or> mset f1 \<noteq> {#}"
      by (cases "unique_ips np [] vs") (auto simp: families_def)
    with a(3) alternate_mset [of f0 f1] show ?thesis by auto
  qed simp
qed

lemma prepareDialRoutes_count:
  assumes "prepareDialRoutes np lookup url_parse addr proxyHTTP proxySOCKS5 cfg = Inr r"
  shows "0 < routes_count r"
  using assms
  by (auto simp: prepareDialRoutes_def routes_count_def dest: resolveDialAddresses_nonempty
           split: if_splits sum.splits)

lemma mod_add_inj:
  assumes "(a + k) mod n = (b + k) mod n" "a < n" "b < (n::nat)"
  shows "a = b"
proof -
  have *: "x = y" if "x \<le> y" "y < n" "(x + k) mod n = (y + k) mod n" for x y
  proof -
    have "n dvd (y + k) - (x + k)" using that mod_eq_dvd_iff_nat [of "x + k" "y + k" n] by simp
    then have "n dvd y - x" by simp
    then have "\<not> 0 < y - x" using that(2) nat_dvd_not_less [of "y - x" n] by linarith
    with that(1) show ?thesis by simp
  qed
  from assms * [of a b] * [of b a] show ?thesis by (cases "a \<le> b") simp_all
qed

lemma routes_index_split:
  assumes "i < routes_count r"
  shows "i mod length (rs_proxies r) < length (rs_proxies r)"
    "i div length (rs_proxies r) < length (rs_targets r)" "0 < length (rs_targets r)"
proof -
  have pos: "0 < length (rs_proxies r)" "0 < length (rs_targets r)"
    using assms by (auto simp: routes_count_def intro: Nat.gr0I)
  then show "i mod length (rs_proxies r) < length (rs_proxies r)" "0 < length (rs_targets r)" by simp_all
  show "i div length (rs_proxies r) < length (rs_targets r)"
    using assms pos by (simp add: routes_count_def div_less_iff_less_mult)
qed

text \<open>The pair of positions route \<open>i\<close> selects.\<close>

definition route_pos :: "nat \<Rightarrow> nat \<Rightarrow> nat \<Rightarrow> nat \<times> nat" where
  "route_pos t p i = ((i div p + i mod p) mod t, i mod p)"

lemma route_pos_inj:
  assumes "i < t * p" "j < t * p" "route_pos t p i = route_pos t p j"
  shows "i = j"
proof -
  have "0 < p" using assms(1) by (auto intro: Nat.gr0I)
  then have "i div p < t" "j div p < t" using assms(1,2) by (simp_all add: div_less_iff_less_mult)
  with assms(3) have "i div p = j div p" "i mod p = j mod p"
    by (auto simp: route_pos_def intro: mod_add_inj)
  then show ?thesis by (metis mod_mult_div_eq)
qed

lemma route_pos_bij: "bij_betw (route_pos t p) {..<t * p} ({..<t} \<times> {..<p})"
proof -
  have inj: "inj_on (route_pos t p) {..<t * p}"
    by (auto intro!: inj_onI route_pos_inj)
  moreover have "route_pos t p ` {..<t * p} \<subseteq> {..<t} \<times> {..<p}"
    by (cases "t = 0 \<or> p = 0") (auto simp: route_pos_def)
  moreover have "card (route_pos t p ` {..<t * p}) = card ({..<t} \<times> {..<p})"
    using card_image [OF inj] by (simp add: card_cartesian_product)
  ultimately show ?thesis
    by (simp add: bij_betw_def card_subset_eq)
qed

lemma routes_at_pos:
  "routes_at r i = (case route_pos (length (rs_targets r)) (length (rs_proxies r)) i of
     (t, p) \<Rightarrow> \<lparr>rt_target = rs_targets r ! t, rt_proxy = rs_proxies r ! p\<rparr>)"
  by (simp add: routes_at_def route_pos_def Let_def)

text \<open>
  C27. The indices below \<^verbatim>\<open>count\<close> enumerate the product of the targets and the proxies: every
  combination is a route, and a set of distinct targets and proxies gives no route twice.
\<close>

theorem routes_enumerate_product:
  "(\<lambda>i. routes_at r i) ` {..<routes_count r} =
     {\<lparr>rt_target = t, rt_proxy = p\<rparr> | t p. t \<in> set (rs_targets r) \<and> p \<in> set (rs_proxies r)}
   \<and> (distinct (rs_targets r) \<longrightarrow> distinct (rs_proxies r) \<longrightarrow>
       inj_on (routes_at r) {..<routes_count r})"
proof -
  let ?t = "length (rs_targets r)" and ?p = "length (rs_proxies r)"
  let ?mk = "\<lambda>(t, p). \<lparr>rt_target = rs_targets r ! t, rt_proxy = rs_proxies r ! p\<rparr>"
  have at: "routes_at r = ?mk \<circ> route_pos ?t ?p" by (simp add: fun_eq_iff routes_at_pos)
  have img: "route_pos ?t ?p ` {..<?t * ?p} = {..<?t} \<times> {..<?p}"
    and inj: "inj_on (route_pos ?t ?p) {..<?t * ?p}"
    using route_pos_bij by (auto simp: bij_betw_def)
  have "routes_at r ` {..<routes_count r} = ?mk ` ({..<?t} \<times> {..<?p})"
    unfolding at routes_count_def image_comp [symmetric] img ..
  moreover have "?mk ` ({..<?t} \<times> {..<?p}) =
     {\<lparr>rt_target = t, rt_proxy = p\<rparr> | t p. t \<in> set (rs_targets r) \<and> p \<in> set (rs_proxies r)}"
    by (force simp: in_set_conv_nth image_iff)
  moreover have "inj_on (routes_at r) {..<routes_count r}"
    if "distinct (rs_targets r)" "distinct (rs_proxies r)"
  proof -
    have "inj_on ?mk ({..<?t} \<times> {..<?p})"
      using that by (auto intro!: inj_onI simp: nth_eq_iff_index_eq)
    then show ?thesis
      unfolding at routes_count_def using inj img by (simp add: comp_inj_on)
  qed
  ultimately show ?thesis by simp
qed

theorem routes_enumerate_product_witness:
  "inj_on (routes_at \<lparr>rs_targets = [''a:1'', ''b:1''], rs_proxies = [''p:1'', ''q:1'', ''r:1'']\<rparr>) {..<6}"
  using routes_enumerate_product [of "\<lparr>rs_targets = [''a:1'', ''b:1''], rs_proxies = [''p:1'', ''q:1'', ''r:1'']\<rparr>"]
  by (simp add: routes_count_def eval_nat_numeral)


section \<open>The race between routes\<close>

text \<open>
  The time a route may take (\<^verbatim>\<open>start\<close> inside \<^verbatim>\<open>raceDialRoutes\<close>), in nanoseconds: half of the
  remaining routes run beside it, so it gets that share of the remaining time, but at least
  two seconds and never more than what remains.
\<close>

definition defaultDialTimeout :: int where
  "defaultDialTimeout = 30 * 1000000000"

definition dial_budget :: "nat \<Rightarrow> nat \<Rightarrow> int option \<Rightarrow> int" where
  "dial_budget n index remaining =
    (case remaining of
       None \<Rightarrow> defaultDialTimeout
     | Some remaining \<Rightarrow>
         min (max (2 * 1000000000) (remaining sdiv int ((n - index + 1) div 2))) remaining)"

definition dialSetupContext :: "int option \<Rightarrow> int" where
  "dialSetupContext deadline = (case deadline of Some remaining \<Rightarrow> remaining | None \<Rightarrow> defaultDialTimeout)"

text \<open>The phases of the function: its loop, the drain after a result or after cancellation, and the return.\<close>

datatype ('e, 'v) race_phase =
    Racing
  | DrainWon 'v
  | DrainCancelled
  | Returned "'e + 'v"

text \<open>
  \<open>rc_active\<close> are the routes whose goroutine has not delivered its result. \<open>rc_opened\<close> and
  \<open>rc_failed\<close> record what has been delivered and \<open>rc_closed\<close> the values given to
  \<^verbatim>\<open>closeValue\<close>; \<open>rc_done\<close> says that the parent context is cancelled or past its deadline.
\<close>

record ('e, 'v) race =
  rc_next :: nat
  rc_active :: "nat list"
  rc_timer :: bool
  rc_firstErr :: "'e option"
  rc_phase :: "('e, 'v) race_phase"
  rc_done :: bool
  rc_opened :: "(nat \<times> 'v) list"
  rc_failed :: "nat list"
  rc_closed :: "'v list"

definition race_start :: "('e, 'v) race \<Rightarrow> ('e, 'v) race" where
  "race_start s = s\<lparr>rc_next := rc_next s + 1, rc_active := rc_active s @ [rc_next s]\<rparr>"

definition race_init :: "('e, 'v) race" where
  "race_init =
    (race_start \<lparr>rc_next = 0, rc_active = [], rc_timer = False, rc_firstErr = None, rc_phase = Racing,
       rc_done = False, rc_opened = [], rc_failed = [], rc_closed = []\<rparr>)\<lparr>rc_timer := True\<rparr>"

definition race_deliver :: "nat \<Rightarrow> 'e + 'v \<Rightarrow> ('e, 'v) race \<Rightarrow> ('e, 'v) race" where
  "race_deliver i r s =
    (case r of
       Inl e \<Rightarrow> s\<lparr>rc_active := remove1 i (rc_active s), rc_failed := i # rc_failed s\<rparr>
     | Inr v \<Rightarrow> s\<lparr>rc_active := remove1 i (rc_active s), rc_opened := (i, v) # rc_opened s\<rparr>)"

definition race_fail :: "nat \<Rightarrow> 'e \<Rightarrow> ('e, 'v) race \<Rightarrow> ('e, 'v) race" where
  "race_fail n e s =
    (let s = s\<lparr>rc_firstErr := (case rc_firstErr s of None \<Rightarrow> Some e | Some f \<Rightarrow> Some f)\<rparr>
     in if rc_next s < n then
          let s = race_start s in
          if length (rc_active s) < 2 then s\<lparr>rc_timer := True\<rparr> else s
        else s)"

definition draining :: "('e, 'v) race \<Rightarrow> bool" where
  "draining s \<longleftrightarrow> (case rc_phase s of DrainWon _ \<Rightarrow> True | DrainCancelled \<Rightarrow> True | _ \<Rightarrow> False)"

inductive race_step :: "nat \<Rightarrow> 'e \<Rightarrow> ('e, 'v) race \<Rightarrow> ('e, 'v) race \<Rightarrow> bool"
  for n :: nat and ctxErr :: 'e where
  parent_done:
    "\<lbrakk>\<not> rc_done s; \<nexists>r. rc_phase s = Returned r\<rbrakk> \<Longrightarrow> race_step n ctxErr s (s\<lparr>rc_done := True\<rparr>)"
| ctx_done:
    "\<lbrakk>rc_phase s = Racing; rc_active s \<noteq> []; rc_done s\<rbrakk> \<Longrightarrow>
       race_step n ctxErr s (s\<lparr>rc_phase := DrainCancelled\<rparr>)"
| timer:
    "\<lbrakk>rc_phase s = Racing; rc_active s \<noteq> []; rc_timer s\<rbrakk> \<Longrightarrow>
       race_step n ctxErr s
         (if rc_next s < n \<and> length (rc_active s) < 2
          then race_start (s\<lparr>rc_timer := False\<rparr>) else s\<lparr>rc_timer := False\<rparr>)"
| won:
    "\<lbrakk>rc_phase s = Racing; i \<in> set (rc_active s)\<rbrakk> \<Longrightarrow>
       race_step n ctxErr s ((race_deliver i (Inr v) s)\<lparr>rc_phase := DrainWon v\<rparr>)"
| lost:
    "\<lbrakk>rc_phase s = Racing; i \<in> set (rc_active s)\<rbrakk> \<Longrightarrow>
       race_step n ctxErr s (race_fail n e (race_deliver i (Inl e) s))"
| drain_failed:
    "\<lbrakk>draining s; i \<in> set (rc_active s)\<rbrakk> \<Longrightarrow>
       race_step n ctxErr s (race_deliver i (Inl e) s)"
| drain_opened:
    "\<lbrakk>draining s; i \<in> set (rc_active s)\<rbrakk> \<Longrightarrow>
       race_step n ctxErr s ((race_deliver i (Inr v) s)\<lparr>rc_closed := v # rc_closed s\<rparr>)"
| return_cancelled:
    "\<lbrakk>rc_phase s = DrainCancelled; rc_active s = []\<rbrakk> \<Longrightarrow>
       race_step n ctxErr s (s\<lparr>rc_phase := Returned (Inl ctxErr)\<rparr>)"
| return_won:
    "\<lbrakk>rc_phase s = DrainWon v; rc_active s = []\<rbrakk> \<Longrightarrow>
       race_step n ctxErr s
         (if rc_done s then s\<lparr>rc_closed := v # rc_closed s, rc_phase := Returned (Inl ctxErr)\<rparr>
          else s\<lparr>rc_phase := Returned (Inr v)\<rparr>)"
| return_failed:
    "\<lbrakk>rc_phase s = Racing; rc_active s = []\<rbrakk> \<Longrightarrow>
       race_step n ctxErr s
         (s\<lparr>rc_phase := Returned (Inl (if rc_done s then ctxErr else the (rc_firstErr s)))\<rparr>)"

inductive_cases race_stepE: "race_step n ctxErr s s'"

text \<open>What the function promises about the routes it has started.\<close>

definition race_inv :: "nat \<Rightarrow> ('e, 'v) race \<Rightarrow> bool" where
  "race_inv n s \<longleftrightarrow>
     rc_next s \<le> n \<and> length (rc_active s) \<le> 2
     \<and> mset (rc_active s) + mset (rc_failed s) + mset (map fst (rc_opened s)) = mset [0..<rc_next s]
     \<and> (rc_phase s = Racing \<and> rc_next s < n \<and> length (rc_active s) < 2 \<longrightarrow> rc_timer s \<and> rc_active s \<noteq> [])
     \<and> (rc_failed s \<noteq> [] \<and> rc_phase s = Racing \<longrightarrow> rc_firstErr s \<noteq> None)"

definition race_ownership :: "('e, 'v) race \<Rightarrow> bool" where
  "race_ownership s \<longleftrightarrow>
    (case rc_phase s of
       Racing \<Rightarrow> rc_opened s = [] \<and> rc_closed s = []
     | DrainWon v \<Rightarrow> mset (map snd (rc_opened s)) = mset (rc_closed s) + {#v#}
     | DrainCancelled \<Rightarrow> mset (map snd (rc_opened s)) = mset (rc_closed s)
     | Returned (Inr v) \<Rightarrow> rc_active s = [] \<and> mset (map snd (rc_opened s)) = mset (rc_closed s) + {#v#}
     | Returned (Inl e) \<Rightarrow> rc_active s = [] \<and> mset (map snd (rc_opened s)) = mset (rc_closed s))"

lemmas race_defs = race_start_def race_deliver_def race_fail_def

lemma race_deliver_mset:
  "i \<in> set (rc_active s) \<Longrightarrow>
    mset (rc_active (race_deliver i r s)) + mset (rc_failed (race_deliver i r s))
      + mset (map fst (rc_opened (race_deliver i r s)))
    = mset (rc_active s) + mset (rc_failed s) + mset (map fst (rc_opened s))"
  by (cases r) (simp_all add: race_deliver_def)

lemma race_deliver_length:
  "i \<in> set (rc_active s) \<Longrightarrow> length (rc_active (race_deliver i r s)) + 1 = length (rc_active s)"
  using length_pos_if_in_set [of i "rc_active s"] by (cases r) (auto simp: race_deliver_def length_remove1)

lemma race_deliver_frame [simp]:
  "rc_next (race_deliver i r s) = rc_next s" "rc_phase (race_deliver i r s) = rc_phase s"
  "rc_timer (race_deliver i r s) = rc_timer s" "rc_done (race_deliver i r s) = rc_done s"
  "rc_firstErr (race_deliver i r s) = rc_firstErr s" "rc_closed (race_deliver i r s) = rc_closed s"
  by (cases r; simp add: race_deliver_def)+

lemma race_inv_init: "0 < n \<Longrightarrow> race_inv n race_init \<and> race_ownership race_init"
  by (simp add: race_inv_def race_ownership_def race_init_def race_start_def)

lemma mset_upt_Suc: "mset_set {0..<Suc k} = add_mset k (mset_set {0..<k})"
  by (simp add: atLeastLessThanSuc)

lemma race_start_inv:
  assumes "rc_next s < n" "length (rc_active s) < 2"
    "mset (rc_active s) + mset (rc_failed s) + mset (map fst (rc_opened s)) = mset [0..<rc_next s]"
    "rc_failed s \<noteq> [] \<longrightarrow> rc_firstErr s \<noteq> None" "length (rc_active s) = 0 \<longrightarrow> rc_timer s"
  shows "race_inv n (race_start s)"
  using assms by (auto simp: race_inv_def race_start_def)

lemma race_ownership_step:
  "race_step n ctxErr s s' \<Longrightarrow> race_ownership s \<Longrightarrow> race_ownership s'"
  by (erule race_stepE)
     (auto simp: race_ownership_def race_defs draining_def Let_def split: race_phase.splits sum.splits)


lemma race_inv_step:
  assumes "race_step n ctxErr s s'" "race_inv n s"
  shows "race_inv n s'"
  using assms(1)
proof (cases rule: race_step.cases)
  case timer
  with assms(2) show ?thesis
    by (auto simp: race_inv_def race_start_def mset_upt_Suc)
next
  case (lost i e)
  let ?d = "race_deliver i (Inl e) s"
  let ?f = "?d\<lparr>rc_firstErr := (case rc_firstErr ?d of None \<Rightarrow> Some e | Some f \<Rightarrow> Some f)\<rparr>"
  have m: "mset (rc_active ?f) + mset (rc_failed ?f) + mset (map fst (rc_opened ?f)) = mset [0..<rc_next ?f]"
    and len: "length (rc_active ?f) + 1 = length (rc_active s)" and err: "rc_firstErr ?f \<noteq> None"
    using race_deliver_mset [OF lost(3), of "Inl e"] race_deliver_length [OF lost(3), of "Inl e"] assms(2)
    by (auto simp: race_inv_def split: option.splits)
  show ?thesis
  proof (cases "rc_next s < n")
    case True
    have *: "length (rc_active ?f) < 2" using len assms(2) by (simp add: race_inv_def)
    show ?thesis
    proof (cases "length (rc_active ?f) = 0")
      case zero: True
      have "race_inv n (race_start (?f\<lparr>rc_timer := True\<rparr>))"
        using m err * True zero by (intro race_start_inv) auto
      then show ?thesis using lost True zero
        by (simp add: race_fail_def race_start_def race_inv_def Let_def)
    next
      case False
      have "race_inv n (race_start ?f)" using m err * True False by (intro race_start_inv) auto
      then show ?thesis using lost True False
        by (auto simp: race_fail_def race_start_def Let_def)
    qed
  next
    case False
    then show ?thesis using lost m len err assms(2) by (auto simp: race_fail_def race_inv_def Let_def)
  qed
next
  case (won i v)
  then show ?thesis
    using assms(2) race_deliver_mset [OF won(3), of "Inr v"] race_deliver_length [OF won(3), of "Inr v"]
    by (auto simp: race_inv_def)
next
  case (drain_failed i e)
  then show ?thesis
    using assms(2) race_deliver_mset [OF drain_failed(3), of "Inl e"] race_deliver_length [OF drain_failed(3), of "Inl e"]
    by (auto simp: race_inv_def draining_def)
next
  case (drain_opened i v)
  then show ?thesis
    using assms(2) race_deliver_mset [OF drain_opened(3), of "Inr v"] race_deliver_length [OF drain_opened(3), of "Inr v"]
    by (auto simp: race_inv_def draining_def)
qed (use assms(2) in \<open>auto simp: race_inv_def split: if_splits\<close>)


text \<open>Runs: finite sequences of steps, counted.\<close>

inductive race_run :: "nat \<Rightarrow> 'e \<Rightarrow> nat \<Rightarrow> ('e, 'v) race \<Rightarrow> ('e, 'v) race \<Rightarrow> bool"
  for n :: nat and ctxErr :: 'e where
  run_refl: "race_run n ctxErr 0 s s"
| run_step: "\<lbrakk>race_run n ctxErr k s t; race_step n ctxErr t u\<rbrakk> \<Longrightarrow> race_run n ctxErr (Suc k) s u"

lemma race_run_inv:
  assumes "race_run n ctxErr k s t" "race_inv n s \<and> race_ownership s"
  shows "race_inv n t \<and> race_ownership t"
  using assms by (induction) (auto intro: race_inv_step race_ownership_step)

lemmas race_reachable = race_run_inv [OF _ race_inv_init]

text \<open>Once every route has been tried without success the outcome is the first error.\<close>

definition race_errors :: "'e \<Rightarrow> ('e, 'v) race \<Rightarrow> bool" where
  "race_errors ctxErr s \<longleftrightarrow>
    (case rc_phase s of
       Returned (Inl e) \<Rightarrow> rc_done s \<and> e = ctxErr \<or> \<not> rc_done s \<and> rc_opened s = [] \<and> rc_firstErr s = Some e
     | Returned (Inr v) \<Rightarrow> \<not> rc_done s
     | DrainCancelled \<Rightarrow> rc_done s
     | _ \<Rightarrow> True)"

lemma race_failed_start:
  assumes "race_inv n s" "race_ownership s" "rc_phase s = Racing" "rc_active s = []" "0 < n"
  shows "rc_next s = n \<and> rc_firstErr s \<noteq> None \<and> mset (rc_failed s) = mset [0..<n]"
proof -
  from assms have "rc_next s = n" and "rc_opened s = []"
    by (auto simp: race_inv_def race_ownership_def)
  with assms have m: "mset (rc_failed s) = mset [0..<n]" by (simp add: race_inv_def)
  with assms(5) have "rc_failed s \<noteq> []" by (cases n) auto
  with m \<open>rc_next s = n\<close> assms show ?thesis by (simp add: race_inv_def)
qed

lemma race_errors_step:
  assumes "race_step n ctxErr s s'" "race_inv n s" "race_ownership s" "race_errors ctxErr s" "0 < n"
  shows "race_errors ctxErr s'"
  using assms(1)
proof (cases rule: race_step.cases)
  case return_failed
  with race_failed_start [OF assms(2,3) return_failed(2,3) assms(5)] assms(3) show ?thesis
    by (auto simp: race_errors_def race_ownership_def)
qed (use assms(4) in \<open>auto simp: race_errors_def race_defs draining_def Let_def split: race_phase.splits sum.splits if_splits\<close>)

lemma race_run_errors:
  assumes "race_run n ctxErr k race_init t" "0 < n"
  shows "race_errors ctxErr t"
proof -
  have "race_errors ctxErr t" if "race_run n ctxErr k s t" "s = race_init" for s
    using that
  proof induction
    case (run_refl s)
    then show ?case by (simp add: race_errors_def race_init_def race_start_def)
  next
    case (run_step k s t u)
    with race_reachable [of n ctxErr k t] assms(2) show ?case by (auto intro: race_errors_step)
  qed
  with assms(1) show ?thesis by blast
qed

text \<open>
  The measure that every step lowers: routes not started, goroutines not joined, the timer,
  the parent context and the phase.
\<close>

definition race_measure :: "nat \<Rightarrow> ('e, 'v) race \<Rightarrow> nat" where
  "race_measure n s =
    4 * (n - rc_next s) + 2 * length (rc_active s) + (if rc_timer s then 1 else 0)
    + (if rc_done s then 0 else 1)
    + (case rc_phase s of Racing \<Rightarrow> 2 | DrainWon _ \<Rightarrow> 1 | DrainCancelled \<Rightarrow> 1 | Returned _ \<Rightarrow> 0)"

lemma race_measure_step:
  assumes "race_step n ctxErr s s'"
  shows "race_measure n s' < race_measure n s"
  using assms
proof (cases rule: race_step.cases)
  case (lost i e)
  then show ?thesis using race_deliver_length [of i s "Inl e"]
    by (auto simp: race_measure_def race_fail_def race_start_def Let_def)
next
  case (won i v)
  then show ?thesis using race_deliver_length [of i s "Inr v"] by (auto simp: race_measure_def)
next
  case (drain_failed i e)
  then show ?thesis using race_deliver_length [of i s "Inl e"] by (auto simp: race_measure_def)
next
  case (drain_opened i v)
  then show ?thesis using race_deliver_length [of i s "Inr v"] by (auto simp: race_measure_def)
qed (auto simp: race_measure_def race_start_def)

lemma race_run_measure: "race_run n ctxErr k s t \<Longrightarrow> race_measure n t + k \<le> race_measure n s"
  by (induction rule: race_run.induct) (auto dest: race_measure_step)

fun race_received :: "nat \<Rightarrow> 'e + 'v \<Rightarrow> ('e, 'v) race \<Rightarrow> bool" where
  "race_received i (Inl e) s \<longleftrightarrow> i \<in> set (rc_failed s)"
| "race_received i (Inr v) s \<longleftrightarrow> (i, v) \<in> set (rc_opened s)"

lemma race_deliver_received:
  "race_received i (Inl e) (race_deliver i (Inl e) s)" "race_received i (Inr v) (race_deliver i (Inr v) s)"
  by (simp_all add: race_deliver_def)

lemma race_receive_racing:
  assumes "rc_phase s = Racing" "i \<in> set (rc_active s)"
  shows "\<exists>s'. race_step n ctxErr s s' \<and> race_received i r s'"
proof (cases r)
  case (Inl e)
  have "race_received i (Inl e) (race_fail n e (race_deliver i (Inl e) s))"
    using race_deliver_received(1) [of i e s]
    by (simp add: race_fail_def race_start_def Let_def)
  with Inl lost [OF assms, of n ctxErr e] show ?thesis by blast
next
  case (Inr v)
  have "race_received i (Inr v) ((race_deliver i (Inr v) s)\<lparr>rc_phase := DrainWon v\<rparr>)"
    using race_deliver_received(2) [of i v s] by simp
  with Inr won [OF assms, of n ctxErr v] show ?thesis by blast
qed

lemma race_receive_draining:
  assumes "draining s" "i \<in> set (rc_active s)"
  shows "\<exists>s'. race_step n ctxErr s s' \<and> race_received i r s'"
proof (cases r)
  case (Inl e)
  with drain_failed [OF assms, of n ctxErr e] race_deliver_received(1) [of i e s] show ?thesis by blast
next
  case (Inr v)
  have "race_received i (Inr v) ((race_deliver i (Inr v) s)\<lparr>rc_closed := v # rc_closed s\<rparr>)"
    using race_deliver_received(2) [of i v s] by simp
  with Inr drain_opened [OF assms, of n ctxErr v] show ?thesis by blast
qed

lemma race_returns:
  assumes "\<nexists>r. rc_phase s = Returned r" "rc_active s = []"
  shows "\<exists>s' r. race_step n ctxErr s s' \<and> rc_phase s' = Returned r"
proof (cases "rc_phase s")
  case Racing
  with return_failed [of s n ctxErr] assms(2) show ?thesis by force
next
  case (DrainWon v)
  with return_won [of s v n ctxErr] assms(2) show ?thesis by (cases "rc_done s") force+
next
  case DrainCancelled
  with return_cancelled [of s n ctxErr] assms(2) show ?thesis by force
qed (use assms in auto)

lemma race_progress:
  assumes "\<nexists>r. rc_phase s = Returned r"
  shows "if rc_active s = [] then \<exists>s' r. race_step n ctxErr s s' \<and> rc_phase s' = Returned r
    else \<forall>i\<in>set (rc_active s). \<forall>r. \<exists>s'. race_step n ctxErr s s' \<and> race_received i r s'"
  using assms race_returns [OF assms] race_receive_racing [of s] race_receive_draining [of s]
  by (cases "rc_phase s") (auto simp: draining_def)

text \<open>
  C25. A race never runs more than two routes at once and never tries a route twice; when it
  returns, every goroutine has been joined and every connection but the returned one has been
  closed exactly once. A success is returned only while the caller's context is alive; an error
  of a route is returned only when all routes have been tried, and it is the first one.
\<close>

theorem race_joins_and_closes:
  assumes "race_run n ctxErr k race_init s" "0 < n"
  shows "length (rc_active s) \<le> 2 \<and> distinct (rc_active s @ rc_failed s @ map fst (rc_opened s))
    \<and> (rc_phase s = Returned (Inr v) \<longrightarrow> rc_active s = [] \<and> \<not> rc_done s
         \<and> mset (map snd (rc_opened s)) = mset (rc_closed s) + {#v#})
    \<and> (rc_phase s = Returned (Inl e) \<longrightarrow> rc_active s = []
         \<and> mset (map snd (rc_opened s)) = mset (rc_closed s)
         \<and> (if rc_done s then e = ctxErr else rc_firstErr s = Some e \<and> rc_opened s = []))"
proof -
  from race_reachable [OF assms] have inv: "race_inv n s" "race_ownership s" by blast+
  have "mset (rc_active s @ rc_failed s @ map fst (rc_opened s)) = mset [0..<rc_next s]"
    using inv(1) by (simp add: race_inv_def add.assoc)
  then have "distinct (rc_active s @ rc_failed s @ map fst (rc_opened s))"
    by (metis distinct_upt mset_eq_imp_distinct_iff)
  with inv race_run_errors [OF assms] show ?thesis
    by (auto simp: race_inv_def race_ownership_def race_errors_def)
qed

text \<open>
  C26. Every race ends: whatever the scheduler does, a race over the routes that were prepared
  takes at most four steps for each and three more. Until it has returned it is ready to receive the result of every
  goroutine still running, and with none running it can return. While untried routes remain and only one route runs, the fallback timer is
  armed, so a stalled route never blocks the others.
\<close>

theorem race_terminates:
  fixes s :: "('e, 'v) race"
  assumes "prepareDialRoutes np lookup url_parse addr proxyHTTP proxySOCKS5 cfg = Inr routes"
    and "race_run (routes_count routes) ctxErr k race_init s"
  shows "k \<le> 4 * routes_count routes + 3
    \<and> ((\<nexists>r. rc_phase s = Returned r) \<longrightarrow>
         (if rc_active s = [] then \<exists>s' r. race_step (routes_count routes) ctxErr s s' \<and> rc_phase s' = Returned r
          else \<forall>i\<in>set (rc_active s). \<forall>r. \<exists>s'. race_step (routes_count routes) ctxErr s s' \<and> race_received i r s'))
    \<and> (rc_phase s = Racing \<and> rc_next s < routes_count routes \<and> length (rc_active s) < 2
         \<longrightarrow> rc_timer s \<and> rc_active s \<noteq> [])"
proof -
  let ?n = "routes_count routes"
  have pos: "0 < ?n" by (rule prepareDialRoutes_count [OF assms(1)])
  then have "race_measure ?n (race_init :: ('e, 'v) race) \<le> 4 * ?n + 3"
    by (simp add: race_measure_def race_init_def race_start_def)
  then have "k \<le> 4 * ?n + 3" using race_run_measure [OF assms(2)] by linarith
  moreover have "rc_phase s = Racing \<and> rc_next s < ?n \<and> length (rc_active s) < 2 \<longrightarrow> rc_timer s \<and> rc_active s \<noteq> []"
    using race_reachable [OF assms(2) pos] by (simp add: race_inv_def)
  ultimately show ?thesis using race_progress [of s ?n ctxErr] by blast
qed

text \<open>One route fails, the other one wins after the fallback delay.\<close>

definition sample_race :: "(string, nat) race" where
  "sample_race =
    (race_deliver 1 (Inr 7) (race_fail 2 ''refused'' (race_deliver 0 (Inl ''refused'')
       (race_start (race_init\<lparr>rc_timer := False\<rparr>)))))\<lparr>rc_phase := DrainWon 7, rc_phase := Returned (Inr 7)\<rparr>"

lemma sample_race_run: "race_run 2 ''ctx'' 4 race_init sample_race"
proof -
  let ?i = "race_init :: (string, nat) race"
  let ?a = "race_start (?i\<lparr>rc_timer := False\<rparr>)"
  let ?b = "race_fail 2 ''refused'' (race_deliver 0 (Inl ''refused'') ?a)"
  let ?c = "(race_deliver 1 (Inr 7) ?b)\<lparr>rc_phase := DrainWon 7\<rparr>"
  have "race_step 2 ''ctx'' ?i ?a"
    using timer [of ?i 2 "''ctx''"] by (simp add: race_init_def race_start_def)
  moreover have "race_step 2 ''ctx'' ?a ?b"
    by (rule lost) (simp_all add: race_init_def race_start_def)
  moreover have "race_step 2 ''ctx'' ?b ?c"
    by (rule won) (simp_all add: race_init_def race_defs Let_def)
  moreover have "race_step 2 ''ctx'' ?c sample_race"
    using return_won [of ?c 7 2 "''ctx''"] by (simp add: sample_race_def race_init_def race_defs Let_def)
  ultimately have "race_run 2 ''ctx'' (Suc (Suc (Suc (Suc 0)))) ?i sample_race"
    by (meson race_run.intros)
  then show ?thesis by (simp add: eval_nat_numeral)
qed

theorem race_joins_and_closes_witness:
  "rc_phase sample_race = Returned (Inr 7) \<and> rc_active sample_race = [] \<and> rc_closed sample_race = []"
  using race_joins_and_closes [OF sample_race_run, of 7]
  by (simp add: sample_race_def race_init_def race_defs Let_def)

lemma sample_routes:
  "prepareDialRoutes sample_netip (\<lambda>_. Some [''::1'', ''1.1'']) (\<lambda>_. None) ''host:443'' [] [] sample_dns
     = Inr \<lparr>rs_targets = [''[::1]:443'', ''1.1:443''], rs_proxies = [[]]\<rparr>"
  by code_simp

theorem race_terminates_witness:
  "race_run 2 ''ctx'' 4 race_init sample_race \<and> (4::nat) \<le> 4 * 2 + 3"
  using race_terminates [OF sample_routes, of "''ctx''" 4 sample_race] sample_race_run
  by (simp add: routes_count_def eval_nat_numeral)

text \<open>
  C28. No route divides by zero or outlives the caller: for every route started the divisor of
  the time budget is positive, the budget never exceeds the time that remains, and with at
  least two seconds left every route gets at least two seconds.
\<close>

theorem dial_budget_bounds:
  assumes "index < n"
  shows "0 < int ((n - index + 1) div 2)
    \<and> dial_budget n index (Some remaining) \<le> remaining
    \<and> (2000000000 \<le> remaining \<longrightarrow> 2000000000 \<le> dial_budget n index (Some remaining))
    \<and> dial_budget n (n - 1) (Some remaining) = remaining"
proof -
  have "0 < (n - index + 1) div 2" using assms by (simp add: div_greater_zero_iff)
  moreover have "(n - (n - 1) + 1) div 2 = 1" using assms by simp
  ultimately show ?thesis by (auto simp: dial_budget_def)
qed

theorem dial_budget_bounds_witness: "dial_budget 4 1 (Some 10000000000) = 5000000000 \<and> dial_budget 4 1 (Some 10000000000) \<le> 10000000000"
  using dial_budget_bounds [of 1 4 10000000000] by (simp add: dial_budget_def signed_divide_int_def)

end
