(* ===== verification/Socks5.thy ===== *)
theory Socks5
  imports Proxy
begin

text \<open>
  The SOCKS5 client (\<^verbatim>\<open>socks5_proxy.go\<close>): the negotiation over the control connection, address
  encoding, and the datagrams of an UDP association.

  A connection is the bytes the peer will send, the bytes written so far and the number of
  writes that succeed. The text form of IP addresses (\<^verbatim>\<open>net.ParseIP\<close>, \<^verbatim>\<open>net.IP.String\<close>) is a
  record of two functions.
\<close>

section \<open>Connections\<close>

record conn =
  cn_in :: bytes
  cn_out :: bytes
  cn_writes :: "nat option"
  cn_closed :: bool

datatype s5_error =
    S5Config proxy_error
  | S5Dial
  | S5Write
  | S5ShortRead
  | S5Version nat
  | S5NoCredentials
  | S5Rejected
  | S5Method nat
  | S5AuthFailed
  | S5Reserved nat
  | S5AddressType nat
  | S5DomainLength
  | S5InvalidIP
  | S5Status nat
  | S5Target
  | S5Port
  | S5Context
  | S5Deadline
  | S5Listen
  | S5Relay
  | S5Resolve
  | S5ShortDatagram
  | S5Fragmented

type_synonym 'a s5io = "conn \<Rightarrow> (s5_error + 'a) \<times> conn"

definition s5_return :: "'a \<Rightarrow> 'a s5io" where
  "s5_return x c = (Inr x, c)"

definition s5_fail :: "s5_error \<Rightarrow> 'a s5io" where
  "s5_fail e c = (Inl e, c)"

definition s5_bind :: "'a s5io \<Rightarrow> ('a \<Rightarrow> 'b s5io) \<Rightarrow> 'b s5io" where
  "s5_bind m f c = (case m c of (Inl e, c') \<Rightarrow> (Inl e, c') | (Inr x, c') \<Rightarrow> f x c')"

definition conn_write :: "bytes \<Rightarrow> unit s5io" where
  "conn_write b c =
    (if cn_writes c = Some 0 then (Inl S5Write, c)
     else (Inr (), c\<lparr>cn_out := cn_out c @ b, cn_writes := map_option (\<lambda>n. n - 1) (cn_writes c)\<rparr>))"

text \<open>\<^verbatim>\<open>io.ReadFull\<close> on a byte source.\<close>

definition s5_read_full :: "nat \<Rightarrow> bytes \<Rightarrow> s5_error + (bytes \<times> bytes)" where
  "s5_read_full n b = (if length b < n then Inl S5ShortRead else Inr (take n b, drop n b))"

definition conn_read :: "(bytes \<Rightarrow> s5_error + ('a \<times> bytes)) \<Rightarrow> 'a s5io" where
  "conn_read p c =
    (case p (cn_in c) of Inl e \<Rightarrow> (Inl e, c) | Inr (x, rest) \<Rightarrow> (Inr x, c\<lparr>cn_in := rest\<rparr>))"

definition conn_close :: "conn \<Rightarrow> conn" where
  "conn_close c = c\<lparr>cn_closed := True\<rparr>"

text \<open>
  \<^verbatim>\<open>withContextConnDeadline\<close>: what the context says before and after the operation, whether
  setting its deadline fails (\<^term>\<open>None\<close> without a deadline) and whether clearing it does.
\<close>

record ctx_view =
  cv_before :: bool
  cv_deadline :: "bool option"
  cv_after :: bool
  cv_reset :: bool

definition withContextConnDeadline :: "ctx_view \<Rightarrow> 'a s5io \<Rightarrow> 'a s5io" where
  "withContextConnDeadline ctx fn c =
    (if cv_before ctx then (Inl S5Context, c)
     else if cv_deadline ctx = Some True then (Inl S5Deadline, c)
     else
       let (r, c) = fn c
       in if cv_after ctx then (Inl S5Context, c)
          else case r of
            Inl e \<Rightarrow> (Inl e, c)
          | Inr x \<Rightarrow> if cv_reset ctx then (Inl S5Deadline, c) else (Inr x, c))"


section \<open>Addresses\<close>

record socks5Address =
  sa_host :: string
  sa_port :: int

record ip_text =
  ParseIP :: "string \<Rightarrow> bytes option"
  IP_String :: "bytes \<Rightarrow> string"

definition v4_prefix :: bytes where
  "v4_prefix = replicate 10 (CHR 0x00) @ [CHR 0xFF, CHR 0xFF]"

definition To4 :: "bytes \<Rightarrow> bytes option" where
  "To4 ip =
    (if length ip = 4 then Some ip
     else if length ip = 16 \<and> take 12 ip = v4_prefix then Some (drop 12 ip)
     else None)"

definition To16 :: "bytes \<Rightarrow> bytes option" where
  "To16 ip =
    (if length ip = 4 then Some (v4_prefix @ ip) else if length ip = 16 then Some ip else None)"

definition ip_Equal :: "bytes \<Rightarrow> bytes \<Rightarrow> bool" where
  "ip_Equal a b =
    (if length a = length b then a = b
     else if length a = 4 \<and> length b = 16 then take 12 b = v4_prefix \<and> drop 12 b = a
     else if length a = 16 \<and> length b = 4 then take 12 a = v4_prefix \<and> drop 12 a = b
     else False)"

text \<open>What the documentation of \<^verbatim>\<open>net\<close> says about the text form of addresses.\<close>

definition ip_text_correct :: "ip_text \<Rightarrow> bool" where
  "ip_text_correct it \<longleftrightarrow>
    (\<forall>h ip. ParseIP it h = Some ip \<longrightarrow> length ip = 16)
    \<and> (\<forall>ip. length ip = 4 \<or> length ip = 16 \<longrightarrow> ParseIP it (IP_String it ip) = To16 ip)"

definition parseSOCKS5TargetAddress :: "string \<Rightarrow> s5_error + socks5Address" where
  "parseSOCKS5TargetAddress addr =
    (case split_host_port addr of
       Inl _ \<Rightarrow> Inl S5Target
     | Inr (host, portRaw) \<Rightarrow>
         (case atoi portRaw of
            None \<Rightarrow> Inl S5Port
          | Some port \<Rightarrow>
              if port < 1 \<or> 65535 < port then Inl S5Port
              else Inr \<lparr>sa_host = host, sa_port = port\<rparr>))"

definition socks5EncodeAddress :: "ip_text \<Rightarrow> socks5Address \<Rightarrow> s5_error + bytes" where
  "socks5EncodeAddress it target =
    (let port = put_uint16 (word_of_int (sa_port target)) in
     case ParseIP it (sa_host target) of
       Some ip \<Rightarrow>
         (case To4 ip of
            Some v4 \<Rightarrow> Inr (CHR 0x01 # v4 @ port)
          | None \<Rightarrow>
              (case To16 ip of
                 None \<Rightarrow> Inl S5InvalidIP
               | Some v6 \<Rightarrow> Inr (CHR 0x04 # v6 @ port)))
     | None \<Rightarrow>
         if length (sa_host target) = 0 \<or> 255 < length (sa_host target) then Inl S5DomainLength
         else Inr (CHR 0x03 # byte_of (length (sa_host target)) # sa_host target @ port))"

definition socks5ReadAddress :: "ip_text \<Rightarrow> byte \<Rightarrow> bytes \<Rightarrow> s5_error + (socks5Address \<times> bytes)" where
  "socks5ReadAddress it atyp r =
    rbind
     (if atyp = CHR 0x01 then rbind (s5_read_full 4 r) (\<lambda>(raw, r). Inr (IP_String it raw, r))
      else if atyp = CHR 0x04 then rbind (s5_read_full 16 r) (\<lambda>(raw, r). Inr (IP_String it raw, r))
      else if atyp = CHR 0x03 then
        rbind (s5_read_full 1 r) (\<lambda>(size, r). s5_read_full (nat_of_byte (size ! 0)) r)
      else Inl (S5AddressType (nat_of_byte atyp))) (\<lambda>(host, r).
     rbind (s5_read_full 2 r) (\<lambda>(portRaw, r).
       Inr (\<lparr>sa_host = host, sa_port = uint (get_uint16 portRaw)\<rparr>, r)))"


section \<open>The handshake\<close>

definition socks5UserPass :: "string \<Rightarrow> string \<Rightarrow> unit s5io" where
  "socks5UserPass username password =
    s5_bind (conn_write (CHR 0x01 # byte_of (length username) # username
                         @ byte_of (length password) # password)) (\<lambda>_.
    s5_bind (conn_read (s5_read_full 2)) (\<lambda>reply.
      if reply ! 0 \<noteq> CHR 0x01 \<or> reply ! 1 \<noteq> CHR 0x00 then s5_fail S5AuthFailed
      else s5_return ()))"

definition socks5Negotiate :: "socks5ProxyConfig \<Rightarrow> unit s5io" where
  "socks5Negotiate cfg =
    (let methods = CHR 0x00 # (if pc_auth cfg then [CHR 0x02] else []) in
     s5_bind (conn_write (CHR 0x05 # byte_of (length methods) # methods)) (\<lambda>_.
     s5_bind (conn_read (s5_read_full 2)) (\<lambda>reply.
       if reply ! 0 \<noteq> CHR 0x05 then s5_fail (S5Version (nat_of_byte (reply ! 0)))
       else if reply ! 1 = CHR 0x00 then s5_return ()
       else if reply ! 1 = CHR 0x02 then
         (if \<not> pc_auth cfg then s5_fail S5NoCredentials
          else socks5UserPass (pc_username cfg) (pc_password cfg))
       else if reply ! 1 = CHR 0xFF then s5_fail S5Rejected
       else s5_fail (S5Method (nat_of_byte (reply ! 1))))))"

definition socks5BuildRequest :: "ip_text \<Rightarrow> byte \<Rightarrow> socks5Address \<Rightarrow> s5_error + bytes" where
  "socks5BuildRequest it command target =
    rbind (socks5EncodeAddress it target) (\<lambda>addr. Inr ([CHR 0x05, command, CHR 0x00] @ addr))"

definition socks5ReadReply :: "ip_text \<Rightarrow> bytes \<Rightarrow> s5_error + ((byte \<times> socks5Address) \<times> bytes)" where
  "socks5ReadReply it r =
    rbind (s5_read_full 4 r) (\<lambda>(head, r).
      if head ! 0 \<noteq> CHR 0x05 then Inl (S5Version (nat_of_byte (head ! 0)))
      else if head ! 2 \<noteq> CHR 0x00 then Inl (S5Reserved (nat_of_byte (head ! 2)))
      else rbind (socks5ReadAddress it (head ! 3) r) (\<lambda>(addr, r). Inr ((head ! 1, addr), r)))"

text \<open>The negotiation, the request and its reply; shared by CONNECT and UDP ASSOCIATE.\<close>

definition socks5Exchange :: "ip_text \<Rightarrow> socks5ProxyConfig \<Rightarrow> byte \<Rightarrow> socks5Address \<Rightarrow> socks5Address s5io" where
  "socks5Exchange it cfg command target =
    s5_bind (socks5Negotiate cfg) (\<lambda>_.
      case socks5BuildRequest it command target of
        Inl e \<Rightarrow> s5_fail e
      | Inr req \<Rightarrow>
          s5_bind (conn_write req) (\<lambda>_.
          s5_bind (conn_read (socks5ReadReply it)) (\<lambda>(status, addr).
            if status \<noteq> CHR 0x00 then s5_fail (S5Status (nat_of_byte status)) else s5_return addr)))"

definition socks5Handshake ::
  "ip_text \<Rightarrow> ctx_view \<Rightarrow> socks5ProxyConfig \<Rightarrow> byte \<Rightarrow> socks5Address \<Rightarrow> unit s5io" where
  "socks5Handshake it ctx cfg command target =
    withContextConnDeadline ctx (s5_bind (socks5Exchange it cfg command target) (\<lambda>_. s5_return ()))"

text \<open>The result with the connection that was opened, if one was.\<close>

definition dialSOCKS5 ::
  "(string \<Rightarrow> url option) \<Rightarrow> ip_text \<Rightarrow> (string \<Rightarrow> conn option) \<Rightarrow> ctx_view
     \<Rightarrow> string option \<Rightarrow> string option \<Rightarrow> string \<Rightarrow> string \<Rightarrow> string \<Rightarrow> (s5_error + conn) \<times> conn option" where
  "dialSOCKS5 url_parse it dial ctx username password proxyRaw target proxyAddr =
    (case socks5ProxyConfigFromRaw url_parse proxyRaw username password of
       Inl e \<Rightarrow> (Inl (S5Config e), None)
     | Inr cfg \<Rightarrow>
         (case dial proxyAddr of
            None \<Rightarrow> (Inl S5Dial, None)
          | Some c \<Rightarrow>
              (case parseSOCKS5TargetAddress target of
                 Inl e \<Rightarrow> (Inl e, Some (conn_close c))
               | Inr targetAddr \<Rightarrow>
                   (case socks5Handshake it ctx cfg (CHR 0x01) targetAddr c of
                      (Inl e, c) \<Rightarrow> (Inl e, Some (conn_close c))
                    | (Inr _, c) \<Rightarrow> (Inr c, Some c)))))"

definition socks5StatusText :: "nat \<Rightarrow> string" where
  "socks5StatusText status =
    (if status = 1 then ''general failure''
     else if status = 2 then ''connection not allowed''
     else if status = 3 then ''network unreachable''
     else if status = 4 then ''host unreachable''
     else if status = 5 then ''connection refused''
     else if status = 6 then ''TTL expired''
     else if status = 7 then ''command not supported''
     else if status = 8 then ''address type not supported''
     else ''status 0x'' @ [hex_digit (status div 16), hex_digit (status mod 16)])"


section \<open>UDP associations\<close>

record udp_addr =
  ua_ip :: bytes
  ua_port :: int

record socks5UDPConn =
  uc_control :: conn
  uc_udp_closed :: bool
  uc_relay :: udp_addr
  uc_target :: socks5Address
  uc_closed :: bool

text \<open>\<open>remote\<close> is the address of the proxy when the control connection is TCP.\<close>

definition socks5RelayUDPAddr ::
  "ip_text \<Rightarrow> (string \<Rightarrow> udp_addr option) \<Rightarrow> socks5Address \<Rightarrow> bytes option \<Rightarrow> s5_error + udp_addr" where
  "socks5RelayUDPAddr it resolve addr remote =
    (let host = sa_host addr;
         host = (if host = [] \<or> host = ''0.0.0.0'' \<or> host = ''::''
                 then (case remote of Some ip \<Rightarrow> IP_String it ip | None \<Rightarrow> host) else host)
     in if host = [] \<or> sa_port addr = 0 then Inl S5Relay
        else case resolve (join_host_port host (itoa (sa_port addr))) of
          None \<Rightarrow> Inl S5Resolve
        | Some a \<Rightarrow> Inr a)"

text \<open>
  Opening an association: \<open>listen\<close> says whether the UDP socket could be created. The connections
  that were opened are returned too, with the flag of the UDP socket.
\<close>

definition newSOCKS5UDPConn ::
  "(string \<Rightarrow> url option) \<Rightarrow> ip_text \<Rightarrow> (string \<Rightarrow> conn option) \<Rightarrow> ctx_view \<Rightarrow> bool
     \<Rightarrow> (string \<Rightarrow> udp_addr option) \<Rightarrow> bytes option \<Rightarrow> string option \<Rightarrow> string option
     \<Rightarrow> string \<Rightarrow> string \<Rightarrow> string \<Rightarrow> (s5_error + socks5UDPConn) \<times> conn option \<times> bool option" where
  "newSOCKS5UDPConn url_parse it dial ctx listen resolve remote username password proxyRaw target proxyAddr =
    (case socks5ProxyConfigFromRaw url_parse proxyRaw username password of
       Inl e \<Rightarrow> (Inl (S5Config e), None, None)
     | Inr cfg \<Rightarrow>
     (case dial proxyAddr of
        None \<Rightarrow> (Inl S5Dial, None, None)
      | Some control \<Rightarrow>
     (case parseSOCKS5TargetAddress target of
        Inl e \<Rightarrow> (Inl e, Some (conn_close control), None)
      | Inr targetAddr \<Rightarrow>
     (case withContextConnDeadline ctx
             (socks5Exchange it cfg (CHR 0x03) \<lparr>sa_host = ''0.0.0.0'', sa_port = 0\<rparr>) control of
        (Inl e, control) \<Rightarrow> (Inl e, Some (conn_close control), None)
      | (Inr relayAddr, control) \<Rightarrow>
          if \<not> listen then (Inl S5Listen, Some (conn_close control), None)
          else (case socks5RelayUDPAddr it resolve relayAddr remote of
             Inl e \<Rightarrow> (Inl e, Some (conn_close control), Some True)
           | Inr relay \<Rightarrow>
               (Inr \<lparr>uc_control = control, uc_udp_closed = False, uc_relay = relay,
                     uc_target = targetAddr, uc_closed = False\<rparr>,
                Some control, Some False))))))"

definition socks5BuildUDPDatagram :: "ip_text \<Rightarrow> socks5Address \<Rightarrow> bytes \<Rightarrow> s5_error + bytes" where
  "socks5BuildUDPDatagram it target payload =
    rbind (socks5EncodeAddress it target) (\<lambda>addr.
      Inr ([CHR 0x00, CHR 0x00, CHR 0x00] @ addr @ payload))"

definition socks5DecodeUDPDatagram :: "ip_text \<Rightarrow> bytes \<Rightarrow> s5_error + (bytes \<times> socks5Address)" where
  "socks5DecodeUDPDatagram it packet =
    (if length packet < 4 then Inl S5ShortDatagram
     else if packet ! 0 \<noteq> CHR 0x00 \<or> packet ! 1 \<noteq> CHR 0x00 then Inl (S5Reserved 0)
     else if packet ! 2 \<noteq> CHR 0x00 then Inl S5Fragmented
     else
       rbind (socks5ReadAddress it (packet ! 3) (drop 4 packet)) (\<lambda>(addr, reader).
         let payloadOffset = 4 + length (drop 4 packet) - length reader
         in Inr (drop payloadOffset packet, addr)))"

definition socks5SameUDPAddr :: "udp_addr option \<Rightarrow> udp_addr option \<Rightarrow> bool" where
  "socks5SameUDPAddr a b =
    (case (a, b) of
       (Some a, Some b) \<Rightarrow> ua_port a = ua_port b \<and> ip_Equal (ua_ip a) (ua_ip b)
     | _ \<Rightarrow> False)"

text \<open>
  \<^verbatim>\<open>ReadFrom\<close> over the datagrams the socket delivers: the first one that comes from the relay,
  parses and names the target's port, cut to the caller's buffer, with those left; \<open>None\<close> when the
  socket fails first.
\<close>

fun udp_ReadFrom ::
  "ip_text \<Rightarrow> socks5UDPConn \<Rightarrow> nat \<Rightarrow> (udp_addr option \<times> bytes) list
     \<Rightarrow> (bytes \<times> string \<times> (udp_addr option \<times> bytes) list) option" where
  "udp_ReadFrom it c len [] = None"
| "udp_ReadFrom it c len ((addr, buf) # rest) =
    (if \<not> socks5SameUDPAddr addr (Some (uc_relay c)) then udp_ReadFrom it c len rest
     else case socks5DecodeUDPDatagram it buf of
       Inl _ \<Rightarrow> udp_ReadFrom it c len rest
     | Inr (payload, source) \<Rightarrow>
         if sa_port source \<noteq> sa_port (uc_target c) then udp_ReadFrom it c len rest
         else Some (take len payload,
                    join_host_port (sa_host (uc_target c)) (itoa (sa_port (uc_target c))), rest))"

definition udp_WriteTo :: "ip_text \<Rightarrow> socks5UDPConn \<Rightarrow> bytes \<Rightarrow> string \<Rightarrow> s5_error + (bytes \<times> nat)" where
  "udp_WriteTo it c p addr =
    rbind (if addr \<noteq> [] then parseSOCKS5TargetAddress addr else Inr (uc_target c)) (\<lambda>target.
    rbind (socks5BuildUDPDatagram it target p) (\<lambda>packet. Inr (packet, length p)))"

definition udp_Close :: "socks5UDPConn \<Rightarrow> socks5UDPConn" where
  "udp_Close c =
    (if uc_closed c then c
     else c\<lparr>uc_closed := True, uc_udp_closed := True, uc_control := conn_close (uc_control c)\<rparr>)"


section \<open>Laws\<close>

lemma s5_read_full_append [simp]: "n = length a \<Longrightarrow> s5_read_full n (a @ b) = Inr (a, b)"
  by (simp add: s5_read_full_def)

lemma s5_read_full_Inr_iff: "s5_read_full n b = Inr (a, r) \<longleftrightarrow> b = a @ r \<and> length a = n"
  by (auto simp: s5_read_full_def)

lemma s5_read_full_one [simp]: "s5_read_full (Suc 0) (x # r) = Inr ([x], r)"
  by (simp add: s5_read_full_def)

lemma get_put_port: "0 \<le> p \<Longrightarrow> p < 65536 \<Longrightarrow> uint (get_uint16 (put_uint16 (word_of_int p))) = p"
  using get_put_uint16 [of "word_of_int p" "[]"] by (simp add: uint_word_of_int)

lemma To4_length: "To4 ip = Some v \<Longrightarrow> length v = 4"
  by (auto simp: To4_def split: if_splits)

lemma To16_To4: "length ip = 16 \<Longrightarrow> To4 ip = Some v \<Longrightarrow> To16 v = Some ip"
  by (auto simp: To4_def To16_def split: if_splits) (metis append_take_drop_id)

text \<open>An encoded address is read back up to the text form of the IP address, with nothing left over.\<close>

lemma socks5_address_roundtrip:
  assumes law: "ip_text_correct it" and port: "0 \<le> sa_port target" "sa_port target < 65536"
    and enc: "socks5EncodeAddress it target = Inr b"
  shows "\<exists>atyp body src. b = atyp # body \<and> socks5ReadAddress it atyp (body @ rest) = Inr (src, rest)
    \<and> sa_port src = sa_port target \<and> ParseIP it (sa_host src) = ParseIP it (sa_host target)
    \<and> (ParseIP it (sa_host target) = None \<longrightarrow> src = target)"
proof (cases "ParseIP it (sa_host target)")
  case None
  with enc have len: "length (sa_host target) \<le> 255" "length (sa_host target) \<noteq> 0"
    and b: "b = CHR 0x03 # byte_of (length (sa_host target)) # sa_host target
              @ put_uint16 (word_of_int (sa_port target))"
    by (auto simp: socks5EncodeAddress_def Let_def split: if_splits)
  then have "nat_of_byte (byte_of (length (sa_host target))) = length (sa_host target)" by simp
  then have "socks5ReadAddress it (CHR 0x03) (tl b @ rest) = Inr (target, rest)"
    using port unfolding b by (simp add: socks5ReadAddress_def get_put_port del: rbind_eq_Inr_iff)
  with b show ?thesis by auto
next
  case (Some ip)
  with law have ip: "length ip = 16" by (auto simp: ip_text_correct_def)
  show ?thesis
  proof (cases "To4 ip")
    case v4: (Some v)
    with Some enc have "b = CHR 0x01 # v @ put_uint16 (word_of_int (sa_port target))"
      by (simp add: socks5EncodeAddress_def Let_def)
    with v4 ip Some law port To4_length [OF v4] To16_To4 [OF ip v4] show ?thesis
      by (simp add: socks5ReadAddress_def get_put_port ip_text_correct_def)
  next
    case None
    with Some ip enc have "b = CHR 0x04 # ip @ put_uint16 (word_of_int (sa_port target))"
      by (simp add: socks5EncodeAddress_def Let_def To16_def)
    with ip Some law port show ?thesis
      by (simp add: socks5ReadAddress_def get_put_port ip_text_correct_def To16_def)
  qed
qed


lemma drop_header: "drop (length a + length b) (a @ b @ c) = c"
  by simp

lemma decode_datagram:
  assumes "socks5ReadAddress it atyp (body @ payload) = Inr (src, payload)"
  shows "socks5DecodeUDPDatagram it (CHR 0x00 # CHR 0x00 # CHR 0x00 # atyp # body @ payload) = Inr (payload, src)"
proof -
  let ?p = "CHR 0x00 # CHR 0x00 # CHR 0x00 # atyp # body @ payload"
  have off: "4 + length (drop 4 ?p) - length payload = length [CHR 0x00, CHR 0x00, CHR 0x00, atyp] + length body"
    by simp
  have "drop (4 + length (drop 4 ?p) - length payload) ?p = payload"
    unfolding off using drop_header [of "[CHR 0x00, CHR 0x00, CHR 0x00, atyp]" body payload]
    by (simp only: append.simps)
  moreover have "drop 4 ?p = body @ payload" "?p ! 0 = CHR 0x00" "?p ! 1 = CHR 0x00" "?p ! 2 = CHR 0x00"
    "?p ! 3 = atyp" "\<not> length ?p < 4"
    by simp_all
  ultimately show ?thesis
    using assms unfolding socks5DecodeUDPDatagram_def Let_def by simp
qed

text \<open>
  C30. A datagram sent through an UDP association is read back by its receiver: the payload is
  unchanged and not one byte of the header leaks into it, the port is the target's, and the host
  is the same name or the same IP address.
\<close>

theorem socks5_udp_roundtrip:
  assumes "ip_text_correct it" "0 \<le> sa_port target" "sa_port target < 65536"
    and "socks5BuildUDPDatagram it target payload = Inr packet"
  shows "\<exists>src. socks5DecodeUDPDatagram it packet = Inr (payload, src)
    \<and> sa_port src = sa_port target \<and> ParseIP it (sa_host src) = ParseIP it (sa_host target)
    \<and> (ParseIP it (sa_host target) = None \<longrightarrow> src = target)"
proof -
  obtain b where enc: "socks5EncodeAddress it target = Inr b"
    and packet: "packet = [CHR 0x00, CHR 0x00, CHR 0x00] @ b @ payload"
    using assms(4) by (auto simp: socks5BuildUDPDatagram_def)
  obtain atyp body src where *: "b = atyp # body" "socks5ReadAddress it atyp (body @ payload) = Inr (src, payload)"
    "sa_port src = sa_port target" "ParseIP it (sa_host src) = ParseIP it (sa_host target)"
    "ParseIP it (sa_host target) = None \<longrightarrow> src = target"
    using socks5_address_roundtrip [OF assms(1-3) enc] by blast
  with decode_datagram [OF *(2)] show ?thesis by (auto simp: packet)
qed

definition sample_ip_text :: ip_text where
  "sample_ip_text =
    \<lparr>ParseIP = (\<lambda>s. if length s = 17 \<and> hd s = CHR ''#'' then Some (tl s) else None),
     IP_String = (\<lambda>b. CHR ''#'' # (case To16 b of Some ip \<Rightarrow> ip | None \<Rightarrow> []))\<rparr>"

lemma sample_ip_text_correct: "ip_text_correct sample_ip_text"
  by (auto simp: ip_text_correct_def sample_ip_text_def To16_def v4_prefix_def)

theorem socks5_udp_roundtrip_witness:
  "socks5DecodeUDPDatagram sample_ip_text
     ([CHR 0x00, CHR 0x00, CHR 0x00, CHR 0x03, CHR 0x04] @ ''host'' @ [CHR 0x01, CHR 0xBB] @ ''ping'')
   = Inr (''ping'', \<lparr>sa_host = ''host'', sa_port = 443\<rparr>)"
proof -
  let ?t = "\<lparr>sa_host = ''host'', sa_port = 443\<rparr>"
  have "socks5BuildUDPDatagram sample_ip_text ?t ''ping'' =
      Inr ([CHR 0x00, CHR 0x00, CHR 0x00, CHR 0x03, CHR 0x04] @ ''host'' @ [CHR 0x01, CHR 0xBB] @ ''ping'')"
    by code_simp
  from socks5_udp_roundtrip [OF sample_ip_text_correct _ _ this] show ?thesis
    by (simp add: sample_ip_text_def)
qed


section \<open>What the control connection carries\<close>

definition s5_greeting :: "socks5ProxyConfig \<Rightarrow> bytes" where
  "s5_greeting cfg =
    (let methods = CHR 0x00 # (if pc_auth cfg then [CHR 0x02] else [])
     in CHR 0x05 # byte_of (length methods) # methods)"

definition s5_credentials :: "socks5ProxyConfig \<Rightarrow> bytes" where
  "s5_credentials cfg =
    CHR 0x01 # byte_of (length (pc_username cfg)) # pc_username cfg
      @ byte_of (length (pc_password cfg)) # pc_password cfg"

text \<open>Reading the credentials message the way a proxy does.\<close>

definition s5_read_credentials :: "bytes \<Rightarrow> s5_error + ((string \<times> string) \<times> bytes)" where
  "s5_read_credentials r =
    rbind (s5_read_full 2 r) (\<lambda>(h, r).
    rbind (s5_read_full (nat_of_byte (h ! 1)) r) (\<lambda>(u, r).
    rbind (s5_read_full 1 r) (\<lambda>(h, r).
    rbind (s5_read_full (nat_of_byte (h ! 0)) r) (\<lambda>(p, r). Inr ((u, p), r)))))"

lemma read_credentials:
  assumes "length (pc_username cfg) \<le> 255" "length (pc_password cfg) \<le> 255"
  shows "s5_read_credentials (s5_credentials cfg @ rest) = Inr ((pc_username cfg, pc_password cfg), rest)"
proof -
  have "s5_read_full 2 (a # b # t) = Inr ([a, b], t)" for a b t
    by (simp add: s5_read_full_def numeral_2_eq_2)
  with assms show ?thesis
    by (simp add: s5_read_credentials_def s5_credentials_def del: rbind_eq_Inr_iff)
qed

lemma conn_write_simps [simp]:
  "cn_in (snd (conn_write b c)) = cn_in c"
  "fst (conn_write b c) = Inl e \<Longrightarrow> cn_out (snd (conn_write b c)) = cn_out c"
  "fst (conn_write b c) = Inr u \<Longrightarrow> cn_out (snd (conn_write b c)) = cn_out c @ b"
  by (auto simp: conn_write_def split: if_splits)

lemma conn_write_cases:
  obtains c' where "conn_write b c = (Inl S5Write, c')" "cn_in c' = cn_in c" "cn_out c' = cn_out c"
  | c' where "conn_write b c = (Inr (), c')" "cn_in c' = cn_in c" "cn_out c' = cn_out c @ b"
  by (cases "cn_writes c = Some 0") (auto simp: conn_write_def)

lemma conn_read_cases:
  obtains e where "conn_read p c = (Inl e, c)" "p (cn_in c) = Inl e"
  | x c' where "conn_read p c = (Inr x, c')" "p (cn_in c) = Inr (x, cn_in c')" "cn_out c' = cn_out c"
proof (cases "p (cn_in c)")
  case (Inl e)
  then show ?thesis using that(1) by (simp add: conn_read_def)
next
  case (Inr y)
  then show ?thesis using that(2) [of "fst y" "c\<lparr>cn_in := snd y\<rparr>"]
    by (cases y) (simp add: conn_read_def)
qed

lemma read_two:
  assumes "s5_read_full 2 b = Inr (x, r)"
  shows "b = x ! 0 # x ! 1 # r"
  using assms by (cases b; cases "tl b") (auto simp: s5_read_full_def numeral_2_eq_2 split: if_splits)

lemma userpass_out:
  assumes "socks5UserPass (pc_username cfg) (pc_password cfg) c = (r, c')"
  shows "(cn_out c' = cn_out c \<or> cn_out c' = cn_out c @ s5_credentials cfg)
    \<and> (r = Inr () \<longrightarrow> cn_out c' = cn_out c @ s5_credentials cfg \<and> cn_in c = [CHR 0x01, CHR 0x00] @ cn_in c')"
proof -
  have up: "socks5UserPass (pc_username cfg) (pc_password cfg) =
    s5_bind (conn_write (s5_credentials cfg)) (\<lambda>_. s5_bind (conn_read (s5_read_full 2)) (\<lambda>reply.
      if reply ! 0 \<noteq> CHR 0x01 \<or> reply ! 1 \<noteq> CHR 0x00 then s5_fail S5AuthFailed else s5_return ()))"
    by (simp only: socks5UserPass_def s5_credentials_def)
  show ?thesis
  proof (rule conn_write_cases [of "s5_credentials cfg" c])
    fix d assume "conn_write (s5_credentials cfg) c = (Inl S5Write, d)" "cn_out d = cn_out c"
    with assms show ?thesis by (auto simp: up s5_bind_def)
  next
    fix d assume d: "conn_write (s5_credentials cfg) c = (Inr (), d)" "cn_in d = cn_in c"
      "cn_out d = cn_out c @ s5_credentials cfg"
    show ?thesis
    proof (rule conn_read_cases [of "s5_read_full 2" d])
      fix e assume "conn_read (s5_read_full 2) d = (Inl e, d)"
      with assms d show ?thesis by (auto simp: up s5_bind_def)
    next
      fix x d' assume *: "conn_read (s5_read_full 2) d = (Inr x, d')"
        "s5_read_full 2 (cn_in d) = Inr (x, cn_in d')" "cn_out d' = cn_out d"
      show ?thesis
      proof (cases "x ! 0 = CHR 0x01 \<and> x ! 1 = CHR 0x00")
        case True
        with assms d(1) *(1) have "c' = d'" by (simp add: up s5_bind_def s5_return_def)
        with True read_two [OF *(2)] d *(3) show ?thesis by simp
      next
        case False
        with assms d(1) *(1) have "r = Inl S5AuthFailed \<and> c' = d'"
          by (simp add: up s5_bind_def s5_fail_def)
        with d(3) *(3) show ?thesis by simp
      qed
    qed
  qed
qed

lemma negotiate_out:
  assumes "socks5Negotiate cfg c = (r, c')"
  shows "(cn_out c' = cn_out c \<or> cn_out c' = cn_out c @ s5_greeting cfg
      \<or> pc_auth cfg \<and> (\<exists>t. cn_in c = [CHR 0x05, CHR 0x02] @ t)
        \<and> cn_out c' = cn_out c @ s5_greeting cfg @ s5_credentials cfg)
    \<and> (r = Inr () \<longrightarrow>
        cn_in c = [CHR 0x05, CHR 0x00] @ cn_in c' \<and> cn_out c' = cn_out c @ s5_greeting cfg
      \<or> pc_auth cfg \<and> cn_in c = [CHR 0x05, CHR 0x02, CHR 0x01, CHR 0x00] @ cn_in c'
        \<and> cn_out c' = cn_out c @ s5_greeting cfg @ s5_credentials cfg)"
proof -
  have neg: "socks5Negotiate cfg = s5_bind (conn_write (s5_greeting cfg)) (\<lambda>_.
     s5_bind (conn_read (s5_read_full 2)) (\<lambda>reply.
       if reply ! 0 \<noteq> CHR 0x05 then s5_fail (S5Version (nat_of_byte (reply ! 0)))
       else if reply ! 1 = CHR 0x00 then s5_return ()
       else if reply ! 1 = CHR 0x02 then
         (if \<not> pc_auth cfg then s5_fail S5NoCredentials
          else socks5UserPass (pc_username cfg) (pc_password cfg))
       else if reply ! 1 = CHR 0xFF then s5_fail S5Rejected
       else s5_fail (S5Method (nat_of_byte (reply ! 1)))))"
    by (simp only: socks5Negotiate_def s5_greeting_def Let_def)
  show ?thesis
  proof (rule conn_write_cases [of "s5_greeting cfg" c])
    fix d assume "conn_write (s5_greeting cfg) c = (Inl S5Write, d)" "cn_out d = cn_out c"
    with assms show ?thesis by (auto simp: neg s5_bind_def)
  next
    fix d assume d: "conn_write (s5_greeting cfg) c = (Inr (), d)" "cn_in d = cn_in c"
      "cn_out d = cn_out c @ s5_greeting cfg"
    show ?thesis
    proof (rule conn_read_cases [of "s5_read_full 2" d])
      fix e assume "conn_read (s5_read_full 2) d = (Inl e, d)"
      with assms d show ?thesis by (auto simp: neg s5_bind_def)
    next
      fix x d' assume *: "conn_read (s5_read_full 2) d = (Inr x, d')"
        "s5_read_full 2 (cn_in d) = Inr (x, cn_in d')" "cn_out d' = cn_out d"
      have inp: "cn_in c = x ! 0 # x ! 1 # cn_in d'" using read_two [OF *(2)] d(2) by simp
      show ?thesis
      proof (cases "x ! 0 = CHR 0x05 \<and> x ! 1 = CHR 0x02 \<and> pc_auth cfg")
        case True
        with assms d(1) *(1) have "socks5UserPass (pc_username cfg) (pc_password cfg) d' = (r, c')"
          by (simp add: neg s5_bind_def)
        from userpass_out [OF this] True inp d(3) *(3) show ?thesis by auto
      next
        case False
        with assms d(1) *(1) have "c' = d'" "r = Inr () \<longrightarrow> x ! 0 = CHR 0x05 \<and> x ! 1 = CHR 0x00"
          by (auto simp: neg s5_bind_def s5_fail_def s5_return_def split: if_splits)
        with inp d(3) *(3) show ?thesis by simp
      qed
    qed
  qed
qed


lemma read_address_suffix:
  "socks5ReadAddress it atyp r = Inr (addr, rest) \<Longrightarrow> \<exists>a. r = a @ rest"
  by (auto simp: socks5ReadAddress_def s5_read_full_Inr_iff split: if_splits)

lemma read_reply_suffix:
  "socks5ReadReply it r = Inr (x, rest) \<Longrightarrow> \<exists>a. r = a @ rest"
  by (auto simp: socks5ReadReply_def s5_read_full_Inr_iff split: if_splits dest!: read_address_suffix)

text \<open>The bytes up to the request, by the method the proxy selected.\<close>

definition s5_prologue :: "socks5ProxyConfig \<Rightarrow> bool \<Rightarrow> bytes" where
  "s5_prologue cfg authenticated = s5_greeting cfg @ (if authenticated then s5_credentials cfg else [])"

definition s5_selected :: "bool \<Rightarrow> bytes" where
  "s5_selected authenticated =
    (if authenticated then [CHR 0x05, CHR 0x02, CHR 0x01, CHR 0x00] else [CHR 0x05, CHR 0x00])"

lemma negotiate_ok:
  assumes "socks5Negotiate cfg c = (Inr (), c')"
  obtains a where "a \<longrightarrow> pc_auth cfg" "cn_in c = s5_selected a @ cn_in c'"
    "cn_out c' = cn_out c @ s5_prologue cfg a"
  using negotiate_out [OF assms] that [of False] that [of True]
  by (auto simp: s5_selected_def s5_prologue_def)

text \<open>Credentials leave the client only for a proxy that asked for them.\<close>

definition s5_discreet :: "socks5ProxyConfig \<Rightarrow> conn \<Rightarrow> conn \<Rightarrow> bool" where
  "s5_discreet cfg c c' \<longleftrightarrow>
    (\<exists>sent. cn_out c' = cn_out c @ sent
      \<and> (sent = [] \<or> sent = s5_greeting cfg
         \<or> (\<exists>t req. cn_in c = [CHR 0x05, CHR 0x00] @ t \<and> sent = s5_greeting cfg @ req)
         \<or> pc_auth cfg \<and> (\<exists>t rest. cn_in c = [CHR 0x05, CHR 0x02] @ t \<and> sent = s5_prologue cfg True @ rest)))"

lemma negotiate_discreet: "socks5Negotiate cfg c = (r, c') \<Longrightarrow> s5_discreet cfg c c'"
  using negotiate_out [of cfg c r c'] by (auto simp: s5_discreet_def s5_prologue_def)

lemma exchange_discreet:
  assumes "socks5Exchange it cfg command target c = (r, c')"
  shows "s5_discreet cfg c c'"
proof (cases "socks5Negotiate cfg c")
  case (Pair n d)
  show ?thesis
  proof (cases n)
    case (Inl e)
    with Pair assms negotiate_discreet [OF Pair] show ?thesis by (auto simp: socks5Exchange_def s5_bind_def)
  next
    case (Inr u)
    with Pair obtain a where a: "a \<longrightarrow> pc_auth cfg" "cn_in c = s5_selected a @ cn_in d"
      "cn_out d = cn_out c @ s5_prologue cfg a"
      by (auto elim: negotiate_ok)
    have "\<exists>req. cn_out c' = cn_out d @ req"
    proof (cases "socks5BuildRequest it command target")
      case e: (Inl e)
      with assms Pair Inr show ?thesis by (auto simp: socks5Exchange_def s5_bind_def s5_fail_def)
    next
      case req: (Inr req)
      show ?thesis
      proof (rule conn_write_cases [of req d])
        fix d' assume "conn_write req d = (Inl S5Write, d')" "cn_out d' = cn_out d"
        with assms Pair Inr req show ?thesis by (auto simp: socks5Exchange_def s5_bind_def)
      next
        fix d' assume d': "conn_write req d = (Inr (), d')" "cn_out d' = cn_out d @ req"
        show ?thesis
        proof (rule conn_read_cases [of "socks5ReadReply it" d'])
          fix e assume "conn_read (socks5ReadReply it) d' = (Inl e, d')"
          with assms Pair Inr req d' show ?thesis by (auto simp: socks5Exchange_def s5_bind_def)
        next
          fix x d'' assume "conn_read (socks5ReadReply it) d' = (Inr x, d'')" "cn_out d'' = cn_out d'"
          with assms Pair Inr req d' show ?thesis
            by (auto simp: socks5Exchange_def s5_bind_def s5_fail_def s5_return_def split: if_splits prod.splits)
        qed
      qed
    qed
    with a show ?thesis by (cases a) (auto simp: s5_discreet_def s5_selected_def s5_prologue_def)
  qed
qed

lemma exchange_ok:
  assumes "socks5Exchange it cfg command target c = (Inr addr, c')"
  shows "\<exists>a req reply. (a \<longrightarrow> pc_auth cfg) \<and> socks5BuildRequest it command target = Inr req
    \<and> cn_out c' = cn_out c @ s5_prologue cfg a @ req
    \<and> cn_in c = s5_selected a @ reply @ cn_in c'
    \<and> socks5ReadReply it (reply @ cn_in c') = Inr ((CHR 0x00, addr), cn_in c')"
proof -
  obtain d where neg: "socks5Negotiate cfg c = (Inr (), d)"
    using assms by (auto simp: socks5Exchange_def s5_bind_def split: prod.splits sum.splits)
  then obtain a where a: "a \<longrightarrow> pc_auth cfg" "cn_in c = s5_selected a @ cn_in d"
    "cn_out d = cn_out c @ s5_prologue cfg a"
    by (auto elim: negotiate_ok)
  obtain req where req: "socks5BuildRequest it command target = Inr req"
    using assms neg by (auto simp: socks5Exchange_def s5_bind_def s5_fail_def split: sum.splits)
  obtain d' where d': "conn_write req d = (Inr (), d')" "cn_in d' = cn_in d" "cn_out d' = cn_out d @ req"
    using assms neg req by (rule_tac conn_write_cases [of req d]) (simp_all add: socks5Exchange_def s5_bind_def)
  obtain x d'' where d'': "conn_read (socks5ReadReply it) d' = (Inr x, d'')"
    "socks5ReadReply it (cn_in d') = Inr (x, cn_in d'')" "cn_out d'' = cn_out d'"
    using assms neg req d'(1)
    by (rule_tac conn_read_cases [of "socks5ReadReply it" d']) (simp_all add: socks5Exchange_def s5_bind_def)
  then have c': "x = (CHR 0x00, addr)" "c' = d''"
    using assms neg req d'(1)
    by (cases x; simp add: socks5Exchange_def s5_bind_def s5_fail_def s5_return_def split: if_splits)+
  obtain reply where "cn_in d' = reply @ cn_in d''" using read_reply_suffix [OF d''(2)] by blast
  with a req d' d'' c' show ?thesis
    by (intro exI [of _ a] exI [of _ req] exI [of _ reply]) simp
qed

lemma handshake_discreet:
  assumes "socks5Handshake it ctx cfg command target c = (r, c')"
  shows "s5_discreet cfg c c'"
proof -
  obtain x d where ex: "socks5Exchange it cfg command target c = (x, d)" by fastforce
  have "c' = c \<or> c' = d"
    using assms ex
    by (cases x) (auto simp: socks5Handshake_def withContextConnDeadline_def s5_bind_def s5_return_def Let_def
        split: if_splits)
  with exchange_discreet [OF ex] show ?thesis by (auto simp: s5_discreet_def)
qed

lemma handshake_ok:
  assumes "socks5Handshake it ctx cfg command target c = (Inr u, c')"
  shows "\<exists>a req reply addr. (a \<longrightarrow> pc_auth cfg) \<and> socks5BuildRequest it command target = Inr req
    \<and> cn_out c' = cn_out c @ s5_prologue cfg a @ req
    \<and> cn_in c = s5_selected a @ reply @ cn_in c'
    \<and> socks5ReadReply it (reply @ cn_in c') = Inr ((CHR 0x00, addr), cn_in c')"
proof -
  obtain x d where ex: "socks5Exchange it cfg command target c = (x, d)" by fastforce
  with assms obtain addr where "x = Inr addr" "c' = d"
    by (cases x) (auto simp: socks5Handshake_def withContextConnDeadline_def s5_bind_def s5_return_def Let_def
        split: if_splits)
  with exchange_ok ex show ?thesis by blast
qed


definition sample_url :: "string \<Rightarrow> url option" where
  "sample_url raw = Some \<lparr>Scheme = ''socks5'', Hostname = ''proxy'', Port = [], User = Some (''u'', Some ''p'')\<rparr>"

definition sample_conn :: conn where
  "sample_conn =
    \<lparr>cn_in = [CHR 0x05, CHR 0x02, CHR 0x01, CHR 0x00, CHR 0x05, CHR 0x00, CHR 0x00, CHR 0x01,
              CHR 0x00, CHR 0x00, CHR 0x00, CHR 0x00, CHR 0x00, CHR 0x00] @ ''hello'',
     cn_out = [], cn_writes = None, cn_closed = False\<rparr>"

definition sample_ctx :: ctx_view where
  "sample_ctx = \<lparr>cv_before = False, cv_deadline = Some False, cv_after = False, cv_reset = False\<rparr>"

definition sample_dialed :: conn where
  "sample_dialed =
    \<lparr>cn_in = ''hello'',
     cn_out = [CHR 0x05, CHR 0x02, CHR 0x00, CHR 0x02, CHR 0x01, CHR 0x01, CHR ''u'', CHR 0x01, CHR ''p'',
               CHR 0x05, CHR 0x01, CHR 0x00, CHR 0x03, CHR 0x04] @ ''host'' @ [CHR 0x01, CHR 0xBB],
     cn_writes = None, cn_closed = False\<rparr>"


end
