(* ===== verification/PacketListener.thy ===== *)
theory PacketListener
  imports Wire "HOL-Library.AList"
begin

text \<open>
  Datagrams over accepted connections (\<^verbatim>\<open>net.go\<close>, \<^verbatim>\<open>packet_deadline.go\<close>): the adapter that turns
  a listener of packet connections into one packet socket.

  The code runs an accept loop, one reader per connection and the caller's operations under a
  mutex. Every section that holds the mutex, and every effect between two such sections that
  others can see, is one step of \<open>pl_step\<close>.
\<close>

section \<open>Deadlines\<close>

text \<open>
  A deadline signals a change by closing a channel. Channels are numbered in order of creation;
  time is in nanoseconds and \<^term>\<open>None\<close> is the zero time.
\<close>

record packetDeadline =
  pd_timer :: "nat option"
  pd_deadline :: "int option"
  pd_changed :: nat
  pd_closed :: "nat list"

definition newPacketDeadline :: packetDeadline where
  "newPacketDeadline = \<lparr>pd_timer = None, pd_deadline = None, pd_changed = 0, pd_closed = []\<rparr>"

definition closePacketDeadlineSignal :: "nat \<Rightarrow> packetDeadline \<Rightarrow> packetDeadline" where
  "closePacketDeadlineSignal ch d = (if ch \<in> set (pd_closed d) then d else d\<lparr>pd_closed := ch # pd_closed d\<rparr>)"

definition deadline_set :: "int \<Rightarrow> int option \<Rightarrow> packetDeadline \<Rightarrow> packetDeadline" where
  "deadline_set now t d =
    (let d = d\<lparr>pd_timer := None\<rparr>;
         d = closePacketDeadlineSignal (pd_changed d) d;
         d = d\<lparr>pd_deadline := t, pd_changed := pd_changed d + 1\<rparr>
     in case t of
          None \<Rightarrow> d
        | Some at \<Rightarrow>
            if at \<le> now then d\<lparr>pd_closed := pd_changed d # pd_closed d\<rparr>
            else d\<lparr>pd_timer := Some (pd_changed d)\<rparr>)"

text \<open>The callback of a timer armed for channel \<open>ch\<close>.\<close>

definition deadline_fire :: "nat \<Rightarrow> packetDeadline \<Rightarrow> packetDeadline" where
  "deadline_fire ch d =
    (if pd_changed d = ch then (closePacketDeadlineSignal ch d)\<lparr>pd_timer := None\<rparr> else d)"

definition deadline_expired :: "int \<Rightarrow> packetDeadline \<Rightarrow> bool" where
  "deadline_expired now d = (case pd_deadline d of None \<Rightarrow> False | Some t \<Rightarrow> t \<le> now)"

text \<open>Every channel but the current one is closed, and none is closed twice.\<close>

definition deadline_inv :: "packetDeadline \<Rightarrow> bool" where
  "deadline_inv d \<longleftrightarrow> distinct (pd_closed d) \<and> set (pd_closed d) \<union> {pd_changed d} = {0..pd_changed d}
     \<and> (pd_timer d \<noteq> None \<longrightarrow> pd_timer d = Some (pd_changed d) \<and> pd_changed d \<notin> set (pd_closed d))
     \<and> (pd_deadline d = None \<longrightarrow> pd_changed d \<notin> set (pd_closed d))"

lemma deadline_inv_new: "deadline_inv newPacketDeadline"
  by (simp add: deadline_inv_def newPacketDeadline_def)

lemma deadline_inv_set:
  assumes "deadline_inv d"
  shows "deadline_inv (deadline_set now t d)"
proof -
  let ?c = "closePacketDeadlineSignal (pd_changed d) (d\<lparr>pd_timer := None\<rparr>)"
  have c: "distinct (pd_closed ?c)" "set (pd_closed ?c) = {0..pd_changed d}" "pd_changed ?c = pd_changed d"
    "pd_timer ?c = None"
    using assms unfolding deadline_inv_def closePacketDeadlineSignal_def by (auto simp: insert_absorb)
  have "{0..Suc (pd_changed d)} = insert (Suc (pd_changed d)) {0..pd_changed d}"
    by (simp add: atLeastAtMostSuc_conv)
  with c show ?thesis
    by (auto simp: deadline_inv_def deadline_set_def Let_def split: option.splits)
qed

lemma deadline_inv_fire:
  "deadline_inv d \<Longrightarrow> pd_timer d = Some ch \<Longrightarrow> pd_deadline d \<noteq> None \<Longrightarrow> deadline_inv (deadline_fire ch d)"
  by (auto simp: deadline_inv_def deadline_fire_def closePacketDeadlineSignal_def)


section \<open>Addresses and connections\<close>

type_synonym net_addr = "(string \<times> string) option"

definition packetAddrKey :: "net_addr \<Rightarrow> string" where
  "packetAddrKey addr = (case addr of None \<Rightarrow> [CHR 0x00] | Some (network, text) \<Rightarrow> network @ [CHR 0x00] @ text)"

definition packetListenerPeerAddr :: "64 word \<Rightarrow> net_addr" where
  "packetListenerPeerAddr a = Some (''rstream-connection'', ''connection-'' @ format_nat (unat a))"

definition sameAddr :: "net_addr \<Rightarrow> net_addr \<Rightarrow> bool" where
  "sameAddr a b = (case (a, b) of (Some (n, s), Some (m, t)) \<Rightarrow> n = m \<and> s = t | (x, y) \<Rightarrow> x = y)"

text \<open>\<^verbatim>\<open>connWrapper\<close> in framed mode checks the address before it writes a frame.\<close>

datatype packet_error =
    InvalidRemote
  | PacketTooLarge
  | NoRemote
  | DeadlineExceeded
  | Closed
  | NoConnection
  | SetDeadlineFailed

definition connWrapper_WriteTo :: "net_addr \<Rightarrow> bytes \<Rightarrow> net_addr \<Rightarrow> packet_error + bytes" where
  "connWrapper_WriteTo raddr p addr =
    (case (addr, raddr) of
       (Some (_, a), Some (_, r)) \<Rightarrow>
         if a \<noteq> r then Inl InvalidRemote
         else (case writeMessage [] p of Inl _ \<Rightarrow> Inl PacketTooLarge | Inr b \<Rightarrow> Inr b)
     | _ \<Rightarrow> Inl InvalidRemote)"

text \<open>
  \<^verbatim>\<open>packetConnWrapper\<close> pins the first peer it hears from when it has no address: the packets are
  what the inner socket delivers, the result the first accepted one with the pinned address and
  the packets left.
\<close>

fun packetConnWrapper_Read ::
  "net_addr \<Rightarrow> (bytes \<times> net_addr) list \<Rightarrow> (bytes \<times> net_addr \<times> (bytes \<times> net_addr) list) option" where
  "packetConnWrapper_Read raddr [] = None"
| "packetConnWrapper_Read raddr ((data, from) # rest) =
    (if raddr = None then Some (data, from, rest)
     else if sameAddr raddr from then Some (data, raddr, rest)
     else packetConnWrapper_Read raddr rest)"

definition packetConnWrapper_Write :: "net_addr \<Rightarrow> bytes \<Rightarrow> packet_error + (bytes \<times> net_addr)" where
  "packetConnWrapper_Write raddr p = (if raddr = None then Inl NoRemote else Inr (p, raddr))"


section \<open>The listener as one socket\<close>

text \<open>The goroutine that reads a connection: its loop, its exit, and after its last locked section.\<close>

datatype reader = Reading | Exiting | Finished

record entry =
  en_addr :: net_addr
  en_peer :: net_addr
  en_active :: bool
  en_conn_closed :: bool
  en_reader :: reader

text \<open>
  \<open>pl_conns\<close> is the map from keys to connections, which are named by their position in
  \<open>pl_entries\<close>, the list of all connections ever accepted. \<open>pl_pending\<close> are those a shutdown
  still has to close.
\<close>

record 'e packetListenerWrapper =
  pl_closed :: bool
  pl_admissionStopped :: bool
  pl_admissionDone :: bool
  pl_done :: bool
  pl_shutdown :: bool
  pl_closeErr :: "'e option"
  pl_uniquePeers :: bool
  pl_nextPeer :: "64 word"
  pl_conns :: "(string \<times> nat) list"
  pl_entries :: "entry list"
  pl_pkts :: "(nat \<times> bytes) list"
  pl_pending :: "nat list"
  pl_accepting :: bool
  pl_innerClosed :: bool
  pl_shutdownDone :: bool
  pl_readDeadline :: packetDeadline
  pl_writeDeadline :: packetDeadline

definition packetConnFromPacketListener :: "bool \<Rightarrow> 'e packetListenerWrapper" where
  "packetConnFromPacketListener uniquePeers =
    \<lparr>pl_closed = False, pl_admissionStopped = False, pl_admissionDone = False, pl_done = False,
     pl_shutdown = False, pl_closeErr = None, pl_uniquePeers = uniquePeers, pl_nextPeer = 0,
     pl_conns = [], pl_entries = [], pl_pkts = [], pl_pending = [], pl_accepting = True,
     pl_innerClosed = False, pl_shutdownDone = False,
     pl_readDeadline = newPacketDeadline, pl_writeDeadline = newPacketDeadline\<rparr>"

abbreviation on_entry :: "nat \<Rightarrow> (entry \<Rightarrow> entry) \<Rightarrow> 'e packetListenerWrapper \<Rightarrow> 'e packetListenerWrapper" where
  "on_entry i f s \<equiv> s\<lparr>pl_entries := (pl_entries s)[i := f (pl_entries s ! i)]\<rparr>"

text \<open>Supersede the connection known by a key: it is marked inactive, then closed.\<close>

definition retire :: "nat option \<Rightarrow> entry list \<Rightarrow> entry list" where
  "retire previous es =
    (case previous of
       None \<Rightarrow> es
     | Some i \<Rightarrow> es[i := (es ! i)\<lparr>en_active := False, en_conn_closed := True\<rparr>])"

definition pl_accept :: "net_addr \<Rightarrow> 'e packetListenerWrapper \<Rightarrow> 'e packetListenerWrapper" where
  "pl_accept raddr s =
    (let nextPeer = (if pl_uniquePeers s then pl_nextPeer s + 1 else pl_nextPeer s);
         peer = (if pl_uniquePeers s then packetListenerPeerAddr nextPeer else raddr);
         key = packetAddrKey peer;
         e = \<lparr>en_addr = raddr, en_peer = peer, en_active = True, en_conn_closed = False, en_reader = Reading\<rparr>;
         previous = map_of (pl_conns s) key
     in s\<lparr>pl_nextPeer := nextPeer,
          pl_conns := AList.update key (length (pl_entries s)) (pl_conns s),
          pl_entries := retire previous (pl_entries s) @ [e]\<rparr>)"

definition stopAdmission :: "'e \<Rightarrow> 'e packetListenerWrapper \<Rightarrow> 'e packetListenerWrapper" where
  "stopAdmission err s =
    (if pl_closed s then s
     else
       let s = s\<lparr>pl_admissionStopped := True, pl_closeErr := Some err, pl_admissionDone := True\<rparr>
       in if pl_conns s = [] then s\<lparr>pl_closed := True, pl_done := True\<rparr> else s)"

text \<open>The end of a reader: before the mutex is taken, and under it.\<close>

definition reader_exit :: "nat \<Rightarrow> 'e packetListenerWrapper \<Rightarrow> 'e packetListenerWrapper" where
  "reader_exit i s =
    on_entry i (\<lambda>e. e\<lparr>en_active := False, en_conn_closed := True, en_reader := Exiting\<rparr>) s"

definition reader_cleanup :: "nat \<Rightarrow> 'e packetListenerWrapper \<Rightarrow> 'e packetListenerWrapper" where
  "reader_cleanup i s =
    (let key = packetAddrKey (en_peer (pl_entries s ! i));
         s = on_entry i (\<lambda>e. e\<lparr>en_reader := Finished\<rparr>) s
     in if pl_closed s then s
        else
          let s = (if map_of (pl_conns s) key = Some i
                   then s\<lparr>pl_conns := AList.delete key (pl_conns s)\<rparr> else s)
          in if pl_admissionStopped s \<and> pl_conns s = []
             then s\<lparr>pl_closed := True, pl_done := True\<rparr> else s)"

definition initiateShutdown :: "'e \<Rightarrow> 'e packetListenerWrapper \<Rightarrow> 'e packetListenerWrapper" where
  "initiateShutdown err s =
    (if pl_shutdown s then s
     else s\<lparr>pl_shutdown := True, pl_closed := True, pl_closeErr := Some err, pl_admissionDone := True,
            pl_pending := map snd (pl_conns s), pl_conns := [],
            pl_entries := fold (\<lambda>i es. es[i := (es ! i)\<lparr>en_active := False\<rparr>]) (map snd (pl_conns s)) (pl_entries s),
            pl_done := True\<rparr>)"

inductive pl_step :: "'e packetListenerWrapper \<Rightarrow> 'e packetListenerWrapper \<Rightarrow> bool" where
  accepted:
    "\<lbrakk>pl_accepting s; \<not> pl_closed s\<rbrakk> \<Longrightarrow> pl_step s (pl_accept raddr s)"
| accepted_late:
    "\<lbrakk>pl_accepting s; pl_closed s\<rbrakk> \<Longrightarrow> pl_step s (s\<lparr>pl_accepting := False\<rparr>)"
| accept_failed:
    "pl_accepting s \<Longrightarrow> pl_step s ((stopAdmission err s)\<lparr>pl_accepting := False\<rparr>)"
| received:
    "\<lbrakk>i < length (pl_entries s); en_reader (pl_entries s ! i) = Reading; en_active (pl_entries s ! i);
      length (pl_pkts s) < 100\<rbrakk> \<Longrightarrow> pl_step s (s\<lparr>pl_pkts := pl_pkts s @ [(i, data)]\<rparr>)"
| exits:
    "\<lbrakk>i < length (pl_entries s); en_reader (pl_entries s ! i) = Reading\<rbrakk> \<Longrightarrow> pl_step s (reader_exit i s)"
| cleans_up:
    "\<lbrakk>i < length (pl_entries s); en_reader (pl_entries s ! i) = Exiting\<rbrakk> \<Longrightarrow> pl_step s (reader_cleanup i s)"
| takes:
    "pl_pkts s = pkt # pkts \<Longrightarrow> pl_step s (s\<lparr>pl_pkts := pkts\<rparr>)"
| shutdown:
    "pl_step s (initiateShutdown err s)"
| closes_inner:
    "pl_shutdown s \<Longrightarrow> pl_step s (s\<lparr>pl_innerClosed := True\<rparr>)"
| closes_conn:
    "pl_pending s = i # rest \<Longrightarrow>
       pl_step s ((on_entry i (\<lambda>e. e\<lparr>en_conn_closed := True\<rparr>) s)\<lparr>pl_pending := rest\<rparr>)"
| all_read:
    "\<lbrakk>\<not> pl_accepting s; \<forall>e\<in>set (pl_entries s). en_reader e \<noteq> Reading\<rbrakk> \<Longrightarrow>
       pl_step s (s\<lparr>pl_innerClosed := True, pl_shutdownDone := True\<rparr>)"
| deadlines:
    "pl_step s (s\<lparr>pl_readDeadline := r, pl_writeDeadline := w\<rparr>)"

inductive_cases pl_stepE: "pl_step s s'"

inductive pl_reachable :: "bool \<Rightarrow> 'e packetListenerWrapper \<Rightarrow> bool" for uniquePeers where
  opened: "pl_reachable uniquePeers (packetConnFromPacketListener uniquePeers)"
| stepped: "\<lbrakk>pl_reachable uniquePeers s; pl_step s s'\<rbrakk> \<Longrightarrow> pl_reachable uniquePeers s'"

text \<open>The operations of the caller.\<close>

datatype 'e read_result = ReadError 'e | ReadDeadline | ReadPacket bytes net_addr | ReadBlocks

fun read_packets :: "entry list \<Rightarrow> nat \<Rightarrow> (nat \<times> bytes) list \<Rightarrow> 'e read_result \<times> (nat \<times> bytes) list" where
  "read_packets es len [] = (ReadBlocks, [])"
| "read_packets es len ((i, data) # rest) =
    (if \<not> en_active (es ! i) then read_packets es len rest
     else (ReadPacket (take len data) (en_peer (es ! i)), rest))"

definition pl_ReadFrom :: "int \<Rightarrow> nat \<Rightarrow> 'e packetListenerWrapper \<Rightarrow> 'e read_result \<times> 'e packetListenerWrapper" where
  "pl_ReadFrom now len s =
    (if pl_done s then (ReadError (the (pl_closeErr s)), s)
     else if deadline_expired now (pl_readDeadline s) then (ReadDeadline, s)
     else case read_packets (pl_entries s) len (pl_pkts s) of (r, pkts) \<Rightarrow> (r, s\<lparr>pl_pkts := pkts\<rparr>))"

text \<open>\<^verbatim>\<open>WriteTo\<close> up to the write of the connection: which connection, and the address it is given.\<close>

definition pl_WriteTo :: "int \<Rightarrow> net_addr \<Rightarrow> 'e packetListenerWrapper \<Rightarrow> packet_error + (nat \<times> net_addr)" where
  "pl_WriteTo now addr s =
    (if deadline_expired now (pl_writeDeadline s) then Inl DeadlineExceeded
     else if pl_closed s then Inl Closed
     else case map_of (pl_conns s) (packetAddrKey addr) of
       None \<Rightarrow> Inl NoConnection
     | Some i \<Rightarrow> Inr (i, en_addr (pl_entries s ! i)))"

definition pl_SetReadDeadline :: "int \<Rightarrow> int option \<Rightarrow> 'e packetListenerWrapper \<Rightarrow> packet_error + 'e packetListenerWrapper" where
  "pl_SetReadDeadline now t s =
    (if pl_closed s then Inl Closed
     else Inr (s\<lparr>pl_readDeadline := deadline_set now t (pl_readDeadline s)\<rparr>))"

text \<open>The connections whose write deadline is set too are returned.\<close>

definition pl_SetWriteDeadline ::
  "int \<Rightarrow> int option \<Rightarrow> 'e packetListenerWrapper \<Rightarrow> packet_error + ('e packetListenerWrapper \<times> nat list)" where
  "pl_SetWriteDeadline now t s =
    (if pl_closed s then Inl Closed
     else Inr (s\<lparr>pl_writeDeadline := deadline_set now t (pl_writeDeadline s)\<rparr>, map snd (pl_conns s)))"



section \<open>Invariants\<close>

text \<open>
  The map holds current connections only: an active connection is the one its key leads to, and
  what the map holds is active unless its reader is about to remove it.
\<close>

definition conns_ok :: "(string \<rightharpoonup> nat) \<Rightarrow> entry list \<Rightarrow> bool" where
  "conns_ok m es \<longleftrightarrow>
     (\<forall>k i. m k = Some i \<longrightarrow> i < length es \<and> packetAddrKey (en_peer (es ! i)) = k
        \<and> (en_active (es ! i) \<or> en_reader (es ! i) = Exiting))
     \<and> (\<forall>i < length es. en_active (es ! i) \<longrightarrow>
          m (packetAddrKey (en_peer (es ! i))) = Some i \<and> en_reader (es ! i) = Reading)"

definition pl_inv :: "'e packetListenerWrapper \<Rightarrow> bool" where
  "pl_inv s \<longleftrightarrow> conns_ok (map_of (pl_conns s)) (pl_entries s)
     \<and> (\<forall>(i, data)\<in>set (pl_pkts s). i < length (pl_entries s)) \<and> length (pl_pkts s) \<le> 100"

text \<open>When the socket is done.\<close>

definition pl_drain :: "'e packetListenerWrapper \<Rightarrow> bool" where
  "pl_drain s \<longleftrightarrow>
     pl_done s = pl_closed s
     \<and> (pl_closed s \<longrightarrow> pl_conns s = [] \<and> pl_closeErr s \<noteq> None)
     \<and> (\<not> pl_shutdown s \<and> pl_closed s \<longrightarrow> pl_admissionStopped s)
     \<and> (\<not> pl_admissionStopped s \<or> pl_closed s \<or> pl_conns s \<noteq> [])
     \<and> (pl_shutdown s \<longrightarrow> pl_closed s)
     \<and> (pl_admissionStopped s \<longrightarrow> \<not> pl_accepting s \<and> pl_closeErr s \<noteq> None)"

lemma update_not_Nil [simp]: "AList.update k v xs \<noteq> []"
  by (cases xs) auto

lemma pl_drain_accept: "pl_drain s \<Longrightarrow> pl_accepting s \<Longrightarrow> \<not> pl_closed s \<Longrightarrow> pl_drain (pl_accept raddr s)"
  by (simp add: pl_drain_def pl_accept_def Let_def)

lemma pl_drain_stop: "pl_drain s \<Longrightarrow> pl_drain ((stopAdmission err s)\<lparr>pl_accepting := False\<rparr>)"
  by (cases "pl_closed s"; cases "pl_conns s") (auto simp: pl_drain_def stopAdmission_def Let_def)

lemma pl_drain_cleanup: "pl_drain s \<Longrightarrow> pl_drain (reader_cleanup i s)"
  by (cases "pl_closed s") (auto simp: pl_drain_def reader_cleanup_def Let_def)

lemma pl_drain_frame [simp]:
  "pl_drain (s\<lparr>pl_pkts := p\<rparr>) = pl_drain s"
  "pl_drain (s\<lparr>pl_innerClosed := b\<rparr>) = pl_drain s"
  "pl_drain (s\<lparr>pl_innerClosed := b, pl_shutdownDone := c\<rparr>) = pl_drain s"
  "pl_drain (s\<lparr>pl_readDeadline := r, pl_writeDeadline := w\<rparr>) = pl_drain s"
  "pl_drain (s\<lparr>pl_entries := es\<rparr>) = pl_drain s"
  "pl_drain (s\<lparr>pl_entries := es, pl_pending := q\<rparr>) = pl_drain s"
  by (simp_all add: pl_drain_def)

lemma pl_drain_late: "pl_drain s \<Longrightarrow> pl_drain (s\<lparr>pl_accepting := False\<rparr>)"
  by (simp add: pl_drain_def)

lemma pl_drain_shutdown: "pl_drain s \<Longrightarrow> pl_drain (initiateShutdown err s)"
  by (cases "pl_shutdown s") (simp_all add: pl_drain_def initiateShutdown_def)

lemma pl_drain_step:
  assumes "pl_step s s'" "pl_drain s"
  shows "pl_drain s'"
  using assms
  by (induction rule: pl_step.induct)
     (simp_all only: pl_drain_frame pl_drain_late pl_drain_shutdown pl_drain_accept pl_drain_stop
        pl_drain_cleanup reader_exit_def not_False_eq_True)

lemma retire_length [simp]: "length (retire p es) = length es"
  by (simp add: retire_def split: option.splits)

lemma retire_nth:
  assumes "i < length es"
  shows "retire p es ! i = (if p = Some i then (es ! i)\<lparr>en_active := False, en_conn_closed := True\<rparr> else es ! i)"
  using assms by (auto simp: retire_def nth_list_update split: option.splits)

lemma conns_okD:
  assumes "conns_ok m es"
  shows "m k = Some i \<Longrightarrow> i < length es" "m k = Some i \<Longrightarrow> packetAddrKey (en_peer (es ! i)) = k"
    "m k = Some i \<Longrightarrow> en_active (es ! i) \<or> en_reader (es ! i) = Exiting"
    "i < length es \<Longrightarrow> en_active (es ! i) \<Longrightarrow> m (packetAddrKey (en_peer (es ! i))) = Some i"
    "i < length es \<Longrightarrow> en_active (es ! i) \<Longrightarrow> en_reader (es ! i) = Reading"
  using assms unfolding conns_ok_def by blast+

lemma conns_okI:
  assumes "\<And>k i. m k = Some i \<Longrightarrow> i < length es \<and> packetAddrKey (en_peer (es ! i)) = k
      \<and> (en_active (es ! i) \<or> en_reader (es ! i) = Exiting)"
    and "\<And>i. i < length es \<Longrightarrow> en_active (es ! i) \<Longrightarrow>
      m (packetAddrKey (en_peer (es ! i))) = Some i \<and> en_reader (es ! i) = Reading"
  shows "conns_ok m es"
  using assms unfolding conns_ok_def by blast

lemma conns_ok_accept:
  assumes "conns_ok m es" "en_active e" "en_reader e = Reading" "packetAddrKey (en_peer e) = k"
  shows "conns_ok (m(k \<mapsto> length es)) (retire (m k) es @ [e])"
proof (rule conns_okI)
  fix k' i assume a: "(m(k \<mapsto> length es)) k' = Some i"
  show "i < length (retire (m k) es @ [e]) \<and> packetAddrKey (en_peer ((retire (m k) es @ [e]) ! i)) = k'
      \<and> (en_active ((retire (m k) es @ [e]) ! i) \<or> en_reader ((retire (m k) es @ [e]) ! i) = Exiting)"
  proof (cases "k' = k")
    case True
    with a assms show ?thesis by (auto simp: nth_append)
  next
    case False
    with a have m: "m k' = Some i" by simp
    note old = conns_okD [OF assms(1)] m
    have "m k \<noteq> Some i" using old(2) [of k i] old(2) [OF m] False by auto
    with old(1-3) [OF m] show ?thesis by (simp add: nth_append retire_nth)
  qed
next
  fix i assume i: "i < length (retire (m k) es @ [e])" "en_active ((retire (m k) es @ [e]) ! i)"
  show "(m(k \<mapsto> length es)) (packetAddrKey (en_peer ((retire (m k) es @ [e]) ! i))) = Some i
      \<and> en_reader ((retire (m k) es @ [e]) ! i) = Reading"
  proof (cases "i < length es")
    case True
    with i have act: "m k \<noteq> Some i" "en_active (es ! i)" by (auto simp: nth_append retire_nth split: if_splits)
    with conns_okD(4,5) [OF assms(1) True] True show ?thesis by (auto simp: nth_append retire_nth)
  next
    case False
    with i(1) assms show ?thesis by (simp add: nth_append less_Suc_eq)
  qed
qed

lemma conns_ok_upd:
  assumes "conns_ok m es" "en_peer e' = en_peer (es ! i)"
    and "m (packetAddrKey (en_peer e')) = Some i \<Longrightarrow> en_active e' \<or> en_reader e' = Exiting"
    and "en_active e' \<Longrightarrow> en_active (es ! i) \<and> en_reader e' = Reading"
  shows "conns_ok m (es[i := e'])"
proof (rule conns_okI)
  fix k j assume a: "m k = Some j"
  note old = conns_okD(1-3) [OF assms(1) a]
  show "j < length (es[i := e']) \<and> packetAddrKey (en_peer (es[i := e'] ! j)) = k
      \<and> (en_active (es[i := e'] ! j) \<or> en_reader (es[i := e'] ! j) = Exiting)"
    using old assms(2,3) a by (cases "j = i") auto
next
  fix j assume j: "j < length (es[i := e'])" "en_active (es[i := e'] ! j)"
  show "m (packetAddrKey (en_peer (es[i := e'] ! j))) = Some j \<and> en_reader (es[i := e'] ! j) = Reading"
    using j conns_okD(4,5) [OF assms(1), of j] assms(2,4) by (cases "j = i") auto
qed

lemma conns_ok_exit:
  assumes "conns_ok m es"
  shows "conns_ok m (es[i := (es ! i)\<lparr>en_active := False, en_conn_closed := True, en_reader := Exiting\<rparr>])"
  using assms by (rule conns_ok_upd) simp_all

lemma conns_ok_cleanup:
  assumes "conns_ok m es" "i < length es" "en_reader (es ! i) = Exiting" "k = packetAddrKey (en_peer (es ! i))"
  shows "conns_ok (if m k = Some i then m(k := None) else m) (es[i := (es ! i)\<lparr>en_reader := Finished\<rparr>])"
proof (rule conns_ok_upd)
  have inactive: "\<not> en_active (es ! i)" using conns_okD(5) [OF assms(1,2)] assms(3) by auto
  show "conns_ok (if m k = Some i then m(k := None) else m) es"
  proof (rule conns_okI)
    fix k' j assume "(if m k = Some i then m(k := None) else m) k' = Some j"
    then have "m k' = Some j" by (auto split: if_splits)
    from conns_okD(1-3) [OF assms(1) this]
    show "j < length es \<and> packetAddrKey (en_peer (es ! j)) = k' \<and> (en_active (es ! j) \<or> en_reader (es ! j) = Exiting)"
      by simp
  next
    fix j assume j: "j < length es" "en_active (es ! j)"
    with inactive have "j \<noteq> i" by auto
    with conns_okD(4,5) [OF assms(1) j]
    show "(if m k = Some i then m(k := None) else m) (packetAddrKey (en_peer (es ! j))) = Some j
        \<and> en_reader (es ! j) = Reading"
      by auto
  qed
qed (use assms conns_okD(5) [OF assms(1,2)] in \<open>auto split: if_splits\<close>)

lemma deactivate_all:
  "length (fold (\<lambda>i es. es[i := (es ! i)\<lparr>en_active := False\<rparr>]) is es) = length es
   \<and> (\<forall>j < length es. fold (\<lambda>i es. es[i := (es ! i)\<lparr>en_active := False\<rparr>]) is es ! j =
        (if j \<in> set is then (es ! j)\<lparr>en_active := False\<rparr> else es ! j))"
proof (induction "is" arbitrary: es)
  case (Cons i "is")
  let ?es = "es[i := (es ! i)\<lparr>en_active := False\<rparr>]"
  have "?es ! j = (if j = i then (es ! j)\<lparr>en_active := False\<rparr> else es ! j)" if "j < length es" for j
    using that by (simp add: nth_list_update)
  moreover have "(?es ! j)\<lparr>en_active := False\<rparr> = (es ! j)\<lparr>en_active := False\<rparr>" if "j < length es" for j
    using that by (cases "j = i") simp_all
  ultimately show ?case using Cons [of ?es] by simp
qed simp

lemma conns_ok_shutdown:
  assumes "conns_ok (map_of c) es"
  shows "conns_ok Map.empty (fold (\<lambda>i es. es[i := (es ! i)\<lparr>en_active := False\<rparr>]) (map snd c) es)"
proof -
  have "i \<in> snd ` set c" if "i < length es" "en_active (es ! i)" for i
    using assms that unfolding conns_ok_def by (metis image_eqI map_of_SomeD snd_conv)
  with deactivate_all [of "map snd c" es] show ?thesis
    by (auto simp: conns_ok_def split: if_splits)
qed

lemma conns_ok_update:
  assumes "conns_ok m es"
  shows "conns_ok m (es[i := (es ! i)\<lparr>en_conn_closed := b\<rparr>])"
proof (cases "i < length es")
  case True
  with assms conns_okD(3,5) [OF assms] show ?thesis by (intro conns_ok_upd) auto
qed (use assms in \<open>simp add: list_update_beyond\<close>)

lemma pl_inv_accept:
  assumes "pl_inv s"
  shows "pl_inv (pl_accept raddr s)"
proof -
  have "i < Suc (length (pl_entries s))" if "(i, data) \<in> set (pl_pkts s)" for i data
    using assms that by (auto simp: pl_inv_def)
  with assms show ?thesis
    unfolding pl_inv_def pl_accept_def Let_def
    by (auto simp: AList.update_conv' intro!: conns_ok_accept)
qed

lemma reader_cleanup_frame:
  "pl_entries (reader_cleanup i s) = (pl_entries s)[i := (pl_entries s ! i)\<lparr>en_reader := Finished\<rparr>]"
  "pl_pkts (reader_cleanup i s) = pl_pkts s" "pl_shutdown (reader_cleanup i s) = pl_shutdown s"
  by (simp_all add: reader_cleanup_def Let_def)

lemma pl_inv_cleanup:
  assumes "pl_inv s" "pl_drain s" "i < length (pl_entries s)" "en_reader (pl_entries s ! i) = Exiting"
  shows "pl_inv (reader_cleanup i s)"
proof -
  let ?key = "packetAddrKey (en_peer (pl_entries s ! i))" and ?m = "map_of (pl_conns s)"
  have ok: "conns_ok (if ?m ?key = Some i then ?m(?key := None) else ?m)
      ((pl_entries s)[i := (pl_entries s ! i)\<lparr>en_reader := Finished\<rparr>])"
    using assms by (intro conns_ok_cleanup) (simp_all add: pl_inv_def)
  have "pl_conns (reader_cleanup i s) =
      (if \<not> pl_closed s \<and> ?m ?key = Some i then AList.delete ?key (pl_conns s) else pl_conns s)"
    by (auto simp: reader_cleanup_def Let_def)
  moreover have "pl_closed s \<longrightarrow> ?m ?key \<noteq> Some i" using assms(2) by (auto simp: pl_drain_def)
  ultimately have "map_of (pl_conns (reader_cleanup i s)) = (if ?m ?key = Some i then ?m(?key := None) else ?m)"
    by (auto simp: AList.delete_conv')
  with ok assms(1) show ?thesis unfolding pl_inv_def by (simp add: reader_cleanup_frame)
qed

lemma pl_inv_frame [simp]:
  "pl_inv (s\<lparr>pl_innerClosed := b\<rparr>) = pl_inv s"
  "pl_inv (s\<lparr>pl_innerClosed := b, pl_shutdownDone := c\<rparr>) = pl_inv s"
  "pl_inv (s\<lparr>pl_readDeadline := r, pl_writeDeadline := w\<rparr>) = pl_inv s"
  "pl_inv (s\<lparr>pl_accepting := a\<rparr>) = pl_inv s"
  "pl_inv (stopAdmission err s) = pl_inv s"
  by (simp_all add: pl_inv_def stopAdmission_def Let_def)

lemma pl_inv_exit: "pl_inv s \<Longrightarrow> pl_inv (reader_exit i s)"
  using conns_ok_exit [of "map_of (pl_conns s)" "pl_entries s" i]
  by (simp add: pl_inv_def reader_exit_def)

lemma pl_inv_shutdown: "pl_inv s \<Longrightarrow> pl_inv (initiateShutdown err s)"
  using conns_ok_shutdown [of "pl_conns s" "pl_entries s"] deactivate_all [of "map snd (pl_conns s)" "pl_entries s"]
  by (simp add: pl_inv_def initiateShutdown_def)

lemma pl_inv_close:
  "pl_inv s \<Longrightarrow> pl_inv ((on_entry i (\<lambda>e. e\<lparr>en_conn_closed := True\<rparr>) s)\<lparr>pl_pending := rest\<rparr>)"
  using conns_ok_update [of "map_of (pl_conns s)" "pl_entries s" i] by (simp add: pl_inv_def)

lemma pl_inv_packets:
  "pl_inv s \<Longrightarrow> i < length (pl_entries s) \<Longrightarrow> length (pl_pkts s) < 100 \<Longrightarrow> pl_inv (s\<lparr>pl_pkts := pl_pkts s @ [(i, data)]\<rparr>)"
  "pl_inv s \<Longrightarrow> pl_pkts s = pkt # pkts \<Longrightarrow> pl_inv (s\<lparr>pl_pkts := pkts\<rparr>)"
  by (simp_all add: pl_inv_def)

lemma pl_inv_step:
  assumes "pl_step s s'" "pl_inv s" "pl_drain s"
  shows "pl_inv s'"
  using assms
  by (induction rule: pl_step.induct)
     (simp_all only: pl_inv_frame pl_inv_accept pl_inv_exit pl_inv_cleanup pl_inv_shutdown pl_inv_close pl_inv_packets)

lemma pl_reachable_inv: "pl_reachable u s \<Longrightarrow> pl_inv s \<and> pl_drain s \<and> pl_uniquePeers s = u"
proof (induction rule: pl_reachable.induct)
  case opened
  then show ?case by (simp add: pl_inv_def pl_drain_def packetConnFromPacketListener_def conns_ok_def)
next
  case (stepped s s')
  from stepped(2) have "pl_uniquePeers s' = pl_uniquePeers s"
    by (induction rule: pl_step.induct)
       (simp_all add: pl_accept_def stopAdmission_def reader_exit_def reader_cleanup_def initiateShutdown_def Let_def)
  with stepped show ?case using pl_inv_step pl_drain_step by blast
qed

text \<open>With unique peers no two connections share an address, so none supersedes another.\<close>

definition peers_unique :: "'e packetListenerWrapper \<Rightarrow> bool" where
  "peers_unique s \<longleftrightarrow> pl_nextPeer s = word_of_nat (length (pl_entries s))
     \<and> map en_peer (pl_entries s)
         = map (\<lambda>i. packetListenerPeerAddr (word_of_nat (Suc i))) [0..<length (pl_entries s)]"

lemma peer_key_inject: "packetAddrKey (packetListenerPeerAddr a) = packetAddrKey (packetListenerPeerAddr b) \<longleftrightarrow> a = b"
  by (simp add: packetAddrKey_def packetListenerPeerAddr_def word_unat_eq_iff)

lemma update_peer [simp]:
  "en_peer e = en_peer (es ! i) \<Longrightarrow> map en_peer (es[i := e]) = map en_peer es"
  by (metis list_update_beyond list_update_id map_update not_le_imp_less nth_map)

lemma deactivate_peer [simp]:
  "map en_peer (fold (\<lambda>i es. es[i := (es ! i)\<lparr>en_active := False\<rparr>]) is es) = map en_peer es"
  by (induction "is" arbitrary: es) simp_all

lemma retire_peer [simp]: "map en_peer (retire p es) = map en_peer es"
  by (simp add: retire_def split: option.splits)

text \<open>What a step does to the list of connections and their addresses.\<close>

definition same_peers :: "'e packetListenerWrapper \<Rightarrow> 'e packetListenerWrapper \<Rightarrow> bool" where
  "same_peers s s' \<longleftrightarrow> pl_nextPeer s' = pl_nextPeer s \<and> map en_peer (pl_entries s') = map en_peer (pl_entries s)"

lemma same_peers_ops:
  "same_peers s (stopAdmission err s)" "same_peers s (reader_exit i s)" "same_peers s (reader_cleanup i s)"
  "same_peers s (initiateShutdown err s)"
  by (simp_all add: same_peers_def stopAdmission_def reader_exit_def reader_cleanup_def initiateShutdown_def Let_def)

lemma pl_step_peers: "pl_step s s' \<Longrightarrow> same_peers s s' \<or> (\<exists>raddr. s' = pl_accept raddr s)"
  by (erule pl_stepE) (use same_peers_ops [of s] in \<open>auto simp: same_peers_def\<close>)

lemma peers_unique_step:
  assumes "pl_step s s'" "peers_unique s" "pl_uniquePeers s"
  shows "peers_unique s'"
proof -
  from pl_step_peers [OF assms(1)] show ?thesis
  proof (elim disjE exE)
    assume sp: "same_peers s s'"
    then have "length (pl_entries s') = length (pl_entries s)"
      by (metis length_map same_peers_def)
    with sp assms(2) show ?thesis by (simp add: peers_unique_def same_peers_def)
  next
    fix raddr assume "s' = pl_accept raddr s"
    with assms(2,3) show ?thesis by (simp add: peers_unique_def pl_accept_def Let_def add.commute)
  qed
qed

lemma peers_unique_reachable: "pl_reachable True s \<Longrightarrow> peers_unique s"
proof (induction rule: pl_reachable.induct)
  case opened
  then show ?case by (simp add: peers_unique_def packetConnFromPacketListener_def)
next
  case (stepped s s')
  with pl_reachable_inv [OF stepped(1)] show ?case by (auto intro: peers_unique_step)
qed

lemma unique_peer_keys:
  assumes "peers_unique s" "length (pl_entries s) < 2 ^ 64" "i < length (pl_entries s)" "j < length (pl_entries s)"
    and "packetAddrKey (en_peer (pl_entries s ! i)) = packetAddrKey (en_peer (pl_entries s ! j))"
  shows "i = j"
proof -
  have peer: "en_peer (pl_entries s ! k) = packetListenerPeerAddr (word_of_nat (Suc k))" if "k < length (pl_entries s)" for k
    using assms(1) that by (metis (no_types, lifting) add_0 diff_zero length_upt nth_map nth_upt peers_unique_def)
  have "(word_of_nat (Suc i) :: 64 word) = word_of_nat (Suc j)"
    using assms(5) peer [OF assms(3)] peer [OF assms(4)] by (simp add: peer_key_inject del: of_nat_Suc)
  moreover have "unat (word_of_nat (Suc k) :: 64 word) = Suc k" if "k < length (pl_entries s)" for k
    using that assms(2) by (simp add: unsigned_of_nat take_bit_nat_eq_self del: of_nat_Suc)
  ultimately show ?thesis using assms(3,4) by (metis Suc_inject)
qed

text \<open>A reader still in its loop is inactive only when it was superseded or the socket shut down.\<close>

definition readers_active :: "entry list \<Rightarrow> bool" where
  "readers_active es \<longleftrightarrow> (\<forall>e\<in>set es. en_reader e = Reading \<longrightarrow> en_active e)"

lemma readers_active_upd:
  "readers_active es \<Longrightarrow> (en_reader e = Reading \<Longrightarrow> en_active e) \<Longrightarrow> readers_active (es[i := e])"
  using set_update_subset_insert [of es i e] by (auto simp: readers_active_def)

lemma readers_active_close:
  assumes "readers_active es"
  shows "readers_active (es[i := (es ! i)\<lparr>en_conn_closed := True\<rparr>])"
  using assms
  by (cases "i < length es") (auto simp: readers_active_def list_update_beyond dest!: subsetD [OF set_update_subset_insert])

lemma readers_active_step:
  assumes "pl_step s s'" "readers_active (pl_entries s)" "\<not> pl_shutdown s'"
    and "\<And>raddr. s' = pl_accept raddr s \<Longrightarrow> pl_entries s' = pl_entries s @ [last (pl_entries s')]"
  shows "readers_active (pl_entries s')"
  using assms
proof (induction rule: pl_step.induct)
  case (accepted s raddr)
  have "readers_active [last (pl_entries (pl_accept raddr s))]"
    by (simp add: readers_active_def pl_accept_def Let_def)
  with accepted(3,5) show ?case by (metis readers_active_def set_append Un_iff)
next
  case (accept_failed s err)
  then show ?case by (simp add: stopAdmission_def Let_def)
next
  case (exits i s)
  then show ?case by (auto simp: reader_exit_def intro!: readers_active_upd)
next
  case (cleans_up i s)
  then show ?case by (auto simp: reader_cleanup_frame intro!: readers_active_upd)
next
  case (shutdown s err)
  then show ?case by (simp add: initiateShutdown_def split: if_splits)
next
  case (closes_conn s i rest)
  then show ?case by (simp add: readers_active_close)
qed simp_all

lemma accept_appends:
  assumes "pl_reachable True s" "length (pl_entries s) + 1 < 2 ^ 64"
  shows "pl_entries (pl_accept raddr s) = pl_entries s @ [last (pl_entries (pl_accept raddr s))]"
proof -
  have inv: "pl_inv s" "pl_uniquePeers s" "peers_unique s"
    using pl_reachable_inv [OF assms(1)] peers_unique_reachable [OF assms(1)] by simp_all
  let ?t = "pl_accept raddr s" and ?n = "length (pl_entries s)"
  let ?k = "packetAddrKey (packetListenerPeerAddr (pl_nextPeer s + 1))"
  have t: "peers_unique ?t" "length (pl_entries ?t) = ?n + 1"
    using inv by (simp_all add: peers_unique_def pl_accept_def Let_def add.commute)
  have "map_of (pl_conns s) ?k \<noteq> Some i" for i
  proof
    assume a: "map_of (pl_conns s) ?k = Some i"
    with inv(1) have i: "i < ?n" "packetAddrKey (en_peer (pl_entries s ! i)) = ?k"
      by (auto simp: pl_inv_def dest: conns_okD)
    have "map en_peer (pl_entries ?t) = map en_peer (pl_entries s) @ [packetListenerPeerAddr (pl_nextPeer s + 1)]"
      using inv(2) by (simp add: pl_accept_def Let_def)
    then have "map en_peer (pl_entries ?t) ! i = en_peer (pl_entries s ! i)"
      "map en_peer (pl_entries ?t) ! ?n = packetListenerPeerAddr (pl_nextPeer s + 1)"
      using i(1) by (simp_all add: nth_append)
    then have "en_peer (pl_entries ?t ! i) = en_peer (pl_entries s ! i)"
      "en_peer (pl_entries ?t ! ?n) = packetListenerPeerAddr (pl_nextPeer s + 1)"
      using i(1) t(2) by simp_all
    with unique_peer_keys [OF t(1), of i ?n] t(2) i assms(2) show False by simp
  qed
  then have "map_of (pl_conns s) ?k = None" by (metis not_None_eq)
  with inv(2) show ?thesis by (simp add: pl_accept_def Let_def retire_def)
qed

lemma pl_step_grows:
  assumes "pl_step s s'"
  shows "length (pl_entries s) \<le> length (pl_entries s') \<and> (\<not> pl_shutdown s' \<longrightarrow> \<not> pl_shutdown s)"
  using assms
  by (induction rule: pl_step.induct)
     (simp_all add: pl_accept_def stopAdmission_def reader_exit_def reader_cleanup_frame initiateShutdown_def
        Let_def deactivate_all)

lemma read_packets_Packet:
  assumes "read_packets es len pkts = (ReadPacket data addr, rest)"
  shows "\<exists>i whole. (i, whole) \<in> set pkts \<and> data = take len whole \<and> en_active (es ! i) \<and> en_peer (es ! i) = addr"
  using assms by (induction es len pkts rule: read_packets.induct) (auto split: if_splits)

lemma unique_readers_active:
  assumes "pl_reachable True s" "length (pl_entries s) < 2 ^ 64" "\<not> pl_shutdown s"
  shows "readers_active (pl_entries s)"
  using assms
proof (induction rule: pl_reachable.induct)
  case opened
  then show ?case by (simp add: readers_active_def packetConnFromPacketListener_def)
next
  case (stepped s s')
  have grow: "length (pl_entries s) \<le> length (pl_entries s') \<and> (\<not> pl_shutdown s' \<longrightarrow> \<not> pl_shutdown s)"
    by (rule pl_step_grows [OF stepped(2)])
  show ?case
  proof (rule readers_active_step [OF stepped(2)])
    show "readers_active (pl_entries s)" using stepped grow by simp
    show "\<not> pl_shutdown s'" by fact
    fix raddr assume acc: "s' = pl_accept raddr s"
    then have "length (pl_entries s') = length (pl_entries s) + 1" by (simp add: pl_accept_def Let_def)
    with accept_appends [OF stepped(1), of raddr] stepped(4) acc
    show "pl_entries s' = pl_entries s @ [last (pl_entries s')]" by simp
  qed
qed

text \<open>
  C31. A packet socket over a listener hands out a packet only of a connection that is still the
  current one of its peer, at most the buffer's length of it, and a reply to the address it hands
  out goes back to the very connection the packet came from. With unique peers no accepted
  connection ever displaces another: every reader keeps its connection until that ends or the
  socket is shut down.
\<close>

theorem packet_reply_routing:
  fixes s :: "'e packetListenerWrapper"
  assumes "pl_reachable u s" "pl_ReadFrom now len s = (ReadPacket data addr, s')"
    and "\<not> deadline_expired now (pl_writeDeadline s)"
  shows "(\<exists>i whole. (i, whole) \<in> set (pl_pkts s) \<and> data = take len whole
      \<and> en_active (pl_entries s ! i) \<and> en_peer (pl_entries s ! i) = addr
      \<and> pl_WriteTo now addr s' = Inr (i, en_addr (pl_entries s ! i)))
    \<and> (u \<and> length (pl_entries s) < 2 ^ 64 \<and> \<not> pl_shutdown s \<longrightarrow> readers_active (pl_entries s))"
proof -
  have inv: "pl_inv s" "pl_drain s" using pl_reachable_inv [OF assms(1)] by simp_all
  have nd: "\<not> pl_done s" and rp: "read_packets (pl_entries s) len (pl_pkts s) = (ReadPacket data addr :: 'e read_result, pl_pkts s')"
    and s': "s' = s\<lparr>pl_pkts := pl_pkts s'\<rparr>"
    using assms(2) by (auto simp: pl_ReadFrom_def split: if_splits prod.splits)
  obtain i whole where i: "(i, whole) \<in> set (pl_pkts s)" "data = take len whole"
    "en_active (pl_entries s ! i)" "en_peer (pl_entries s ! i) = addr"
    using read_packets_Packet [OF rp] by blast
  then have "i < length (pl_entries s)" using inv(1) by (auto simp: pl_inv_def)
  with i inv(1) have "map_of (pl_conns s) (packetAddrKey addr) = Some i"
    by (auto simp: pl_inv_def dest: conns_okD(4))
  moreover have "\<not> pl_closed s" using nd inv(2) by (simp add: pl_drain_def)
  ultimately have "pl_WriteTo now addr s' = Inr (i, en_addr (pl_entries s ! i))"
    using assms(3) by (subst s') (simp add: pl_WriteTo_def)
  moreover have "readers_active (pl_entries s)" if "u \<and> length (pl_entries s) < 2 ^ 64 \<and> \<not> pl_shutdown s"
    using that assms(1) by (intro unique_readers_active) simp_all
  ultimately show ?thesis using i by blast
qed

definition sample_listener :: "string packetListenerWrapper" where
  "sample_listener =
    (pl_accept (Some (''tcp'', ''peer'')) (packetConnFromPacketListener True))\<lparr>pl_pkts := [(0, ''ping'')]\<rparr>"

lemma sample_listener_reachable: "pl_reachable True sample_listener"
proof -
  let ?s = "packetConnFromPacketListener True :: string packetListenerWrapper"
  let ?t = "pl_accept (Some (''tcp'', ''peer'')) ?s"
  have "pl_step ?s ?t" by (rule accepted) (simp_all add: packetConnFromPacketListener_def)
  then have t: "pl_reachable True ?t" by (rule stepped [OF opened])
  have "pl_step ?t (?t\<lparr>pl_pkts := pl_pkts ?t @ [(0, ''ping'')]\<rparr>)"
    by (rule received) (simp_all add: packetConnFromPacketListener_def pl_accept_def retire_def Let_def)
  moreover have "pl_pkts ?t = []" by (simp add: packetConnFromPacketListener_def pl_accept_def Let_def)
  ultimately have "pl_step ?t sample_listener" by (simp only: sample_listener_def append_Nil)
  with t show ?thesis by (rule stepped)
qed

theorem packet_reply_routing_witness:
  "pl_WriteTo 0 (packetListenerPeerAddr 1) (sample_listener\<lparr>pl_pkts := []\<rparr>) = Inr (0, Some (''tcp'', ''peer''))"
proof -
  have "pl_ReadFrom 0 3 sample_listener
      = (ReadPacket ''pin'' (packetListenerPeerAddr 1), sample_listener\<lparr>pl_pkts := []\<rparr>)"
    "pl_pkts sample_listener = [(0, ''ping'')]" "en_addr (pl_entries sample_listener ! 0) = Some (''tcp'', ''peer'')"
    "\<not> deadline_expired 0 (pl_writeDeadline sample_listener)"
    by (simp_all add: pl_ReadFrom_def sample_listener_def packetConnFromPacketListener_def pl_accept_def Let_def
        retire_def deadline_expired_def newPacketDeadline_def)
  with packet_reply_routing [OF sample_listener_reachable this(1,4)] show ?thesis by auto
qed

text \<open>A shutdown that has completed leaves no goroutine reading.\<close>

definition pl_quiet :: "'e packetListenerWrapper \<Rightarrow> bool" where
  "pl_quiet s \<longleftrightarrow> (pl_shutdownDone s \<longrightarrow> \<not> pl_accepting s \<and> (\<forall>e\<in>set (pl_entries s). en_reader e \<noteq> Reading))"

lemma not_reading_upd:
  assumes "\<forall>e\<in>set es. en_reader e \<noteq> Reading" "en_reader e \<noteq> Reading \<or> en_reader e = en_reader (es ! i)"
  shows "\<forall>e\<in>set (es[i := e]). en_reader e \<noteq> Reading"
proof (cases "i < length es")
  case True
  then have "en_reader (es ! i) \<noteq> Reading" using assms(1) by simp
  with assms show ?thesis by (auto dest!: subsetD [OF set_update_subset_insert])
qed (use assms in \<open>simp add: list_update_beyond\<close>)

lemma not_reading_deactivate:
  "\<forall>e\<in>set es. en_reader e \<noteq> Reading \<Longrightarrow>
   \<forall>e\<in>set (fold (\<lambda>i es. es[i := (es ! i)\<lparr>en_active := False\<rparr>]) is es). en_reader e \<noteq> Reading"
proof (induction "is" arbitrary: es)
  case (Cons i "is")
  from not_reading_upd [OF Cons.prems, of "(es ! i)\<lparr>en_active := False\<rparr>" i] Cons.IH show ?case by simp
qed simp

lemma pl_quiet_step:
  assumes "pl_step s s'" "pl_quiet s"
  shows "pl_quiet s'"
  using assms
proof (induction rule: pl_step.induct)
  case (accepted s raddr)
  then show ?case by (simp add: pl_quiet_def pl_accept_def Let_def)
next
  case (accept_failed s err)
  then show ?case by (simp add: pl_quiet_def stopAdmission_def Let_def)
next
  case (exits i s)
  then show ?case by (auto simp: pl_quiet_def reader_exit_def)
next
  case (cleans_up i s)
  have "pl_shutdownDone (reader_cleanup i s) = pl_shutdownDone s" "pl_accepting (reader_cleanup i s) = pl_accepting s"
    by (simp_all add: reader_cleanup_def Let_def)
  with cleans_up not_reading_upd [of "pl_entries s" "(pl_entries s ! i)\<lparr>en_reader := Finished\<rparr>" i] show ?case
    by (auto simp: pl_quiet_def reader_cleanup_frame)
next
  case (shutdown s err)
  then show ?case using not_reading_deactivate [of "pl_entries s" "map snd (pl_conns s)"]
    by (simp add: pl_quiet_def initiateShutdown_def)
next
  case (closes_conn s i rest)
  then show ?case using not_reading_upd [of "pl_entries s" "(pl_entries s ! i)\<lparr>en_conn_closed := True\<rparr>" i]
    by (simp add: pl_quiet_def)
qed (simp_all add: pl_quiet_def)

lemma pl_quiet_reachable: "pl_reachable u s \<Longrightarrow> pl_quiet s"
proof (induction rule: pl_reachable.induct)
  case opened
  then show ?case by (simp add: pl_quiet_def packetConnFromPacketListener_def)
next
  case (stepped s s')
  then show ?case by (simp add: pl_quiet_step)
qed

text \<open>
  C32. Without a shutdown the socket is done exactly when admission has ended and no accepted
  connection is left, so the end of the listener never cuts established paths; it is done once
  every reader has finished after that. When it is done there is an error to report, and when a
  shutdown has completed no goroutine accepts or reads. At most 100 packets are ever queued.
\<close>

theorem packet_socket_drains:
  assumes "pl_reachable u s"
  shows "(\<not> pl_shutdown s \<longrightarrow> pl_done s = (pl_admissionStopped s \<and> pl_conns s = []))
    \<and> (pl_admissionStopped s \<and> (\<forall>e\<in>set (pl_entries s). en_reader e = Finished) \<longrightarrow> pl_done s)
    \<and> (pl_done s \<longrightarrow> pl_closeErr s \<noteq> None)
    \<and> (pl_shutdownDone s \<longrightarrow> \<not> pl_accepting s \<and> (\<forall>e\<in>set (pl_entries s). en_reader e \<noteq> Reading))
    \<and> length (pl_pkts s) \<le> 100"
proof -
  have inv: "pl_inv s" and dr: "pl_drain s" using pl_reachable_inv [OF assms] by simp_all
  have "pl_conns s = []" if fin: "\<forall>e\<in>set (pl_entries s). en_reader e = Finished"
  proof (rule ccontr)
    assume "pl_conns s \<noteq> []"
    then have "map_of (pl_conns s) (fst (hd (pl_conns s))) = Some (snd (hd (pl_conns s)))"
      by (cases "pl_conns s") simp_all
    then obtain k i where "map_of (pl_conns s) k = Some i" by blast
    with inv have "i < length (pl_entries s)" "en_active (pl_entries s ! i) \<or> en_reader (pl_entries s ! i) = Exiting"
      by (auto simp: pl_inv_def dest: conns_okD)
    with fin inv conns_okD(5) [of "map_of (pl_conns s)" "pl_entries s" i] show False
      by (auto simp: pl_inv_def)
  qed
  with dr inv pl_quiet_reachable [OF assms] show ?thesis
    by (auto simp: pl_inv_def pl_drain_def pl_quiet_def)
qed

theorem packet_socket_drains_witness: "\<not> pl_done sample_listener \<and> length (pl_pkts sample_listener) \<le> 100"
  using packet_socket_drains [OF sample_listener_reachable]
  by (simp add: sample_listener_def packetConnFromPacketListener_def pl_accept_def Let_def)

end
