(* ===== verification/Duration.thy ===== *)
theory Duration
  imports Main
begin

text \<open>Durations (\<^verbatim>\<open>time.Duration\<close>): nanoseconds in a 64-bit signed integer, with its wrap-around.\<close>

definition wrap64 :: "int \<Rightarrow> int" where
  "wrap64 x = (x + 2 ^ 63) mod 2 ^ 64 - 2 ^ 63"

lemma wrap64_id: "- (2 ^ 63) \<le> x \<Longrightarrow> x < 2 ^ 63 \<Longrightarrow> wrap64 x = x"
  by (simp add: wrap64_def)

definition second :: int where "second = 1000000000"

end
