(* ===== verification/Turn.thy ===== *)
theory Turn
  imports Prelude Duration
begin

text \<open>
  TURN credentials (\<^verbatim>\<open>turn.go\<close>, \<^verbatim>\<open>turn_client.go\<close>, \<^verbatim>\<open>turn_app.go\<close>): how a mode is chosen, the
  lifetime of credentials, their usernames, and where they are requested.

  Durations are nanoseconds in a 64-bit signed integer, written out with \<open>wrap64\<close>. Hashes, key
  derivation, key parsing and the services behind the API are parameters.
\<close>

section \<open>Options and claims\<close>

datatype turn_mode = ModeAuto | ModeAPI | ModeEngine | ModePAT | ModeAPP | ModeOther string

record turn_options =
  to_token :: string
  to_clientID :: string
  to_clientSecret :: string
  to_apiURL :: string
  to_projectID :: string
  to_projectEndpoint :: string
  to_clusterDomain :: string
  to_turnDomain :: string
  to_turnRealm :: string
  to_turnPort :: int
  to_turnsPort :: int
  to_ttl :: int
  to_mode :: "turn_mode option"

record turnTokenClaims =
  tk_allPermissions :: bool
  tk_type :: string
  tk_tokenEndpoint :: string
  tk_legacyTokenEndpoint :: string
  tk_permissions :: "string list"
  tk_expiresAt :: "int option"

record TURNCredentials =
  tc_username :: string
  tc_credential :: string
  tc_urls :: "string list"
  tc_ttl :: int

datatype turn_error =
    TurnTTL
  | TokenAndApp
  | TokenRequired
  | TokenFormat
  | EndpointConflict
  | EndpointInvalid
  | NotPAT
  | NoTokenEndpoint
  | InvalidMode
  | NoAPIURL
  | NoProject
  | NoProjectEndpoint
  | InvalidProjectOrPort
  | NoDomain
  | NoRealm
  | InvalidDomain
  | NotExpiring
  | Expired
  | KeyDerivation
  | TurnResponse
  | ClientClosed
  | TokenMismatch
  | AppConflict
  | CertificateConflict
  | CertificateMode
  | FIPSUnavailable
  | BadAppKey
  | BadServerKey
  | CurveMismatch
  | RemoteError nat
  | Cancelled
  | TransportError bool bool


section \<open>Names and domains\<close>

definition component_char :: "char \<Rightarrow> bool" where
  "component_char c \<longleftrightarrow>
     97 \<le> nat_of_byte c \<and> nat_of_byte c \<le> 122 \<or> 65 \<le> nat_of_byte c \<and> nat_of_byte c \<le> 90 \<or> is_digit c
     \<or> c = CHR ''-'' \<or> c = CHR ''_'' \<or> c = CHR ''.''"

definition validTURNComponent :: "string \<Rightarrow> bool" where
  "validTURNComponent v \<longleftrightarrow> v \<noteq> [] \<and> length v \<le> 128 \<and> list_all component_char v"

definition label_char :: "char \<Rightarrow> bool" where
  "label_char c \<longleftrightarrow> 97 \<le> nat_of_byte c \<and> nat_of_byte c \<le> 122 \<or> is_digit c \<or> c = CHR ''-''"

definition valid_label :: "string \<Rightarrow> bool" where
  "valid_label l \<longleftrightarrow>
     length l \<noteq> 0 \<and> length l \<le> 63 \<and> hd l \<noteq> CHR ''-'' \<and> last l \<noteq> CHR ''-'' \<and> list_all label_char l"

definition validTURNDomain :: "string \<Rightarrow> bool" where
  "validTURNDomain v \<longleftrightarrow> length v \<le> 253 \<and> list_all valid_label (split_on (CHR ''.'') v)"

definition normalizeTURNClusterDomain :: "string \<Rightarrow> string" where
  "normalizeTURNClusterDomain d = to_lower (trim_space d)"

definition normalizeTURNPort :: "int \<Rightarrow> int \<Rightarrow> int" where
  "normalizeTURNPort port fallback = (if 0 < port then port else fallback)"

definition turnURLs :: "string \<Rightarrow> int \<Rightarrow> int \<Rightarrow> string list" where
  "turnURLs domain turnPort turnsPort =
    [''turn:'' @ domain @ '':'' @ itoa (normalizeTURNPort turnPort 3478) @ ''?transport=udp'',
     ''turn:'' @ domain @ '':'' @ itoa (normalizeTURNPort turnPort 3478) @ ''?transport=tcp'',
     ''turns:'' @ domain @ '':'' @ itoa (normalizeTURNPort turnsPort 5349) @ ''?transport=udp'',
     ''turns:'' @ domain @ '':'' @ itoa (normalizeTURNPort turnsPort 5349) @ ''?transport=tcp'']"

definition hasTURNAppCredentials :: "turn_options \<Rightarrow> bool" where
  "hasTURNAppCredentials opts \<longleftrightarrow> to_clientID opts \<noteq> [] \<or> to_clientSecret opts \<noteq> []"

definition turnLocalTargetAvailable :: "turn_options \<Rightarrow> bool" where
  "turnLocalTargetAvailable opts \<longleftrightarrow>
     trim_space (to_projectEndpoint opts) \<noteq> []
     \<and> (to_turnDomain opts \<noteq> [] \<and> to_turnRealm opts \<noteq> [] \<or> to_clusterDomain opts \<noteq> [])"


section \<open>Lifetimes\<close>

definition validateTURNTTL :: "int \<Rightarrow> turn_error option" where
  "validateTURNTTL ttl =
    (if ttl \<noteq> 0 \<and> (ttl < second \<or> 3600 * second < ttl \<or> ttl mod second \<noteq> 0) then Some TurnTTL else None)"

definition normalizeTURNCredentialTTL :: "int \<Rightarrow> int" where
  "normalizeTURNCredentialTTL ttl =
    (if ttl \<le> 0 then 600 * second else if 3600 * second < ttl then 3600 * second else ttl)"

text \<open>
  \<open>now\<close> is in seconds, as lifetimes are whole seconds; the zero time, for which the wall clock is
  read, is not used by the caller.
\<close>

definition normalizePATTURNCredentialTTL :: "int \<Rightarrow> turnTokenClaims \<Rightarrow> int \<Rightarrow> turn_error + int" where
  "normalizePATTURNCredentialTTL ttl claims now =
    (let ttl = normalizeTURNCredentialTTL ttl in
     case tk_expiresAt claims of
       None \<Rightarrow> Inl NotExpiring
     | Some exp \<Rightarrow>
         let remaining = wrap64 (wrap64 (exp - now) * second) in
         if remaining \<le> 0 then Inl Expired
         else if remaining < ttl then Inr remaining
         else Inr ttl)"


section \<open>Tokens and modes\<close>

text \<open>\<open>decode\<close> reads the payload segment: the claims and the raw text of the permissions.\<close>

definition parseTURNTokenClaims ::
  "(string \<Rightarrow> (turnTokenClaims \<times> string) option) \<Rightarrow> string \<Rightarrow> turn_error + turnTokenClaims" where
  "parseTURNTokenClaims decode token =
    (case split_on (CHR ''.'') token of
       _ # payload # _ \<Rightarrow>
         (case decode payload of
            None \<Rightarrow> Inl TokenFormat
          | Some (claims, permissions) \<Rightarrow>
              let claims = claims\<lparr>tk_allPermissions := (trim_space permissions = ''null'')\<rparr> in
              if tk_tokenEndpoint claims \<noteq> [] \<and> tk_legacyTokenEndpoint claims \<noteq> []
                 \<and> tk_tokenEndpoint claims \<noteq> tk_legacyTokenEndpoint claims
              then Inl EndpointConflict
              else
                let claims = (if tk_tokenEndpoint claims = []
                              then claims\<lparr>tk_tokenEndpoint := tk_legacyTokenEndpoint claims\<rparr> else claims)
                in if tk_tokenEndpoint claims \<noteq> [] \<and> \<not> validTURNComponent (tk_tokenEndpoint claims)
                   then Inl EndpointInvalid
                   else if trim_space (tk_type claims) = [] then Inl TokenFormat
                   else Inr claims)
     | _ \<Rightarrow> Inl TokenFormat)"

definition no_claims :: turnTokenClaims where
  "no_claims =
    \<lparr>tk_allPermissions = False, tk_type = [], tk_tokenEndpoint = [], tk_legacyTokenEndpoint = [],
     tk_permissions = [], tk_expiresAt = None\<rparr>"

definition resolveTURNCredentialMode ::
  "(string \<Rightarrow> (turnTokenClaims \<times> string) option) \<Rightarrow> string \<Rightarrow> turn_mode option \<Rightarrow> turn_error + (turn_mode \<times> turnTokenClaims)" where
  "resolveTURNCredentialMode decode token requested =
    (case requested of
       Some ModeAPI \<Rightarrow> Inr (ModeAPI, no_claims)
     | Some ModePAT \<Rightarrow>
         rbind (parseTURNTokenClaims decode token) (\<lambda>claims.
           if tk_type claims \<noteq> ''pat'' then Inl NotPAT
           else if trim_space (tk_tokenEndpoint claims) = [] then Inl NoTokenEndpoint
           else Inr (ModePAT, claims))
     | Some _ \<Rightarrow> Inl InvalidMode
     | None \<Rightarrow>
         (case parseTURNTokenClaims decode token of
            Inl e \<Rightarrow> if e = EndpointConflict then Inl e else Inr (ModeAPI, no_claims)
          | Inr claims \<Rightarrow>
              if tk_type claims = ''pat'' \<and> tk_tokenEndpoint claims \<noteq> [] \<and> tk_expiresAt claims \<noteq> None
                 \<and> (tk_allPermissions claims \<or> ''turn.relay.allocate'' \<in> set (tk_permissions claims))
              then Inr (ModePAT, claims)
              else Inr (ModeAPI, claims)))"


section \<open>Local credentials\<close>

text \<open>
  The cryptographic library: the HMAC of a message under the key derived from a secret, a realm
  and a label (\<^term>\<open>None\<close> if the derivation fails), in Base64.
\<close>

record turn_crypto =
  td_hash :: "bytes \<Rightarrow> bytes"
  td_hkdf :: "bytes \<Rightarrow> bytes \<Rightarrow> string \<Rightarrow> bytes option"
  td_hmac :: "bytes \<Rightarrow> bytes \<Rightarrow> bytes"
  td_base64 :: "bytes \<Rightarrow> string"

definition turn_username :: "int \<Rightarrow> string \<Rightarrow> string \<Rightarrow> string \<Rightarrow> string" where
  "turn_username expiry kind project ident =
    ''v1:'' @ itoa expiry @ '':'' @ kind @ '':'' @ project @ '':'' @ ident"

definition turn_domain_realm :: "turn_options \<Rightarrow> string \<times> string" where
  "turn_domain_realm opts =
    (let legacy = normalizeTURNClusterDomain (to_clusterDomain opts);
         domain = normalizeTURNClusterDomain (to_turnDomain opts);
         realm = normalizeTURNClusterDomain (to_turnRealm opts)
     in (if domain = [] then legacy else domain, if realm = [] then legacy else realm))"

definition turn_ports_ok :: "turn_options \<Rightarrow> bool" where
  "turn_ports_ok opts \<longleftrightarrow>
     0 \<le> to_turnPort opts \<and> to_turnPort opts \<le> 65535 \<and> 0 \<le> to_turnsPort opts \<and> to_turnsPort opts \<le> 65535"

definition createPATTURNCredentialsAt ::
  "turn_crypto \<Rightarrow> turn_options \<Rightarrow> string \<Rightarrow> turnTokenClaims \<Rightarrow> int \<Rightarrow> turn_error + TURNCredentials" where
  "createPATTURNCredentialsAt cr opts token claims now =
    (let projectEndpoint = trim_space (to_projectEndpoint opts) in
     if projectEndpoint = [] then Inl NoProjectEndpoint
     else if \<not> validTURNComponent projectEndpoint \<or> \<not> turn_ports_ok opts then Inl InvalidProjectOrPort
     else
     let (turnDomain, turnRealm) = turn_domain_realm opts in
     if turnDomain = [] then Inl NoDomain
     else if turnRealm = [] then Inl NoRealm
     else if \<not> validTURNDomain turnDomain \<or> \<not> validTURNDomain turnRealm then Inl InvalidDomain
     else rbind (normalizePATTURNCredentialTTL (to_ttl opts) claims now) (\<lambda>ttl.
       let username = turn_username (now + ttl div second) ''pat'' projectEndpoint (tk_tokenEndpoint claims)
       in case td_hkdf cr (td_hash cr token) turnRealm ''turn-pat-v1'' of
            None \<Rightarrow> Inl KeyDerivation
          | Some key \<Rightarrow>
              Inr \<lparr>tc_username = username, tc_credential = td_base64 cr (td_hmac cr key username),
                   tc_urls = turnURLs turnDomain (to_turnPort opts) (to_turnsPort opts), tc_ttl = ttl div second\<rparr>))"

text \<open>
  APP credentials: \<open>shared\<close> is the agreement of the parsed private key with the server key in
  hexadecimal, which fails for a malformed key or a different curve.
\<close>

definition deriveAPPTURNCredentials ::
  "turn_crypto \<Rightarrow> (string \<Rightarrow> turn_error + bytes) \<Rightarrow> turn_options \<Rightarrow> string \<Rightarrow> string \<Rightarrow> string \<Rightarrow> int \<Rightarrow> turn_error + TURNCredentials" where
  "deriveAPPTURNCredentials cr shared opts publicHex domain realm now =
    (if 8192 < length publicHex then Inl BadServerKey
     else rbind (shared publicHex) (\<lambda>secret.
       case td_hkdf cr secret realm ''turn-app-v1'' of
         None \<Rightarrow> Inl KeyDerivation
       | Some key \<Rightarrow>
           let ttl = normalizeTURNCredentialTTL (to_ttl opts);
               username = turn_username (now + ttl div second) ''app'' (to_projectEndpoint opts) (to_clientID opts)
           in Inr \<lparr>tc_username = username, tc_credential = td_base64 cr (td_hmac cr key username),
                   tc_urls = turnURLs domain (to_turnPort opts) (to_turnsPort opts), tc_ttl = ttl div second\<rparr>))"

text \<open>\<open>parse_key\<close> is PKCS8 parsing of the hexadecimal secret, \<open>keyring\<close> the server's public key.\<close>

definition turnAppPrivateKey :: "(string \<Rightarrow> 'k option) \<Rightarrow> turn_options \<Rightarrow> turn_error + 'k" where
  "turnAppPrivateKey parse_key opts =
    (if \<not> validTURNComponent (to_clientID opts) \<or> 16384 < length (to_clientSecret opts) then Inl BadAppKey
     else case parse_key (to_clientSecret opts) of None \<Rightarrow> Inl BadAppKey | Some k \<Rightarrow> Inr k)"

definition createAPPTURNCredentials ::
  "turn_crypto \<Rightarrow> (string \<Rightarrow> 'k option) \<Rightarrow> ('k \<Rightarrow> string \<Rightarrow> turn_error + bytes) \<Rightarrow> (string \<Rightarrow> turn_error + string)
     \<Rightarrow> turn_options \<Rightarrow> int \<Rightarrow> turn_error + TURNCredentials" where
  "createAPPTURNCredentials cr parse_key agree keyring opts now =
    (if \<not> validTURNComponent (to_projectEndpoint opts) \<or> \<not> turn_ports_ok opts then Inl InvalidProjectOrPort
     else
     let (domain, realm) = turn_domain_realm opts in
     if \<not> validTURNDomain domain \<or> \<not> validTURNDomain realm then Inl InvalidDomain
     else rbind (turnAppPrivateKey parse_key opts) (\<lambda>key.
          rbind (keyring realm) (\<lambda>publicHex.
            deriveAPPTURNCredentials cr (agree key) opts publicHex domain realm now)))"


section \<open>Requests\<close>

text \<open>\<open>turn_url\<close> is what \<^verbatim>\<open>url.Parse\<close> gives for a server URL: its scheme and its opaque part.\<close>

definition validateTURNCredentials :: "(string \<Rightarrow> (string \<times> string) option) \<Rightarrow> TURNCredentials \<Rightarrow> turn_error option" where
  "validateTURNCredentials turn_url v =
    (if tc_username v = [] \<or> 512 < length (tc_username v) \<or> tc_credential v = [] \<or> 1024 < length (tc_credential v)
        \<or> tc_ttl v < 1 \<or> 3600 < tc_ttl v \<or> length (tc_urls v) = 0 \<or> 16 < length (tc_urls v)
     then Some TurnResponse
     else if list_all (\<lambda>raw.
         case turn_url raw of
           None \<Rightarrow> False
         | Some (scheme, opaque) \<Rightarrow>
             length raw \<le> 2048 \<and> scheme \<in> set [''turn'', ''turns'', ''stun'', ''stuns''] \<and> opaque \<noteq> []
             \<and> \<not> list_ex (\<lambda>c. c \<in> set [CHR 0x0D, CHR 0x0A, CHR 0x09, CHR '' '']) raw) (tc_urls v)
     then None else Some TurnResponse)"

text \<open>The services: the Control plane by project or endpoint with an optional lifetime, and the Engine.\<close>

record turn_env =
  te_fips :: bool
  te_now :: int
  te_decode :: "string \<Rightarrow> (turnTokenClaims \<times> string) option"
  te_crypto :: turn_crypto
  te_url :: "string \<Rightarrow> (string \<times> string) option"
  te_remote :: "string \<Rightarrow> string \<Rightarrow> int option \<Rightarrow> turn_error + TURNCredentials"
  te_engine :: "turn_options \<Rightarrow> turn_error + TURNCredentials"
  te_app :: "turn_options \<Rightarrow> turn_error + TURNCredentials"
  te_app_token :: "turn_options \<Rightarrow> turn_error + string"
  te_cancelled :: bool

definition createAPITURNCredentials :: "turn_env \<Rightarrow> turn_options \<Rightarrow> string \<Rightarrow> turn_error + TURNCredentials" where
  "createAPITURNCredentials env opts token =
    (if trim_space (to_apiURL opts) = [] then Inl NoAPIURL
     else
     let projectID = trim_space (to_projectID opts); projectEndpoint = trim_space (to_projectEndpoint opts) in
     if projectID = [] \<and> projectEndpoint = [] then Inl NoProject
     else
     let ttl = (if 0 < to_ttl opts then Some (normalizeTURNCredentialTTL (to_ttl opts) div second) else None) in
     rbind (te_remote env (if projectID \<noteq> [] then projectID else projectEndpoint) token ttl) (\<lambda>res.
       case validateTURNCredentials (te_url env) res of Some e \<Rightarrow> Inl e | None \<Rightarrow> Inr res))"

definition auto_mode :: "turn_options \<Rightarrow> turn_options" where
  "auto_mode opts = (if to_mode opts = Some ModeAuto then opts\<lparr>to_mode := None\<rparr> else opts)"

definition app_locally :: "turn_options \<Rightarrow> bool" where
  "app_locally opts \<longleftrightarrow> to_mode opts = Some ModeAPP \<or> to_mode opts = None \<and> turnLocalTargetAvailable opts"

text \<open>\<^verbatim>\<open>CreateTURNCredentials\<close> without a client; the token is read after trimming.\<close>

definition CreateTURNCredentials :: "turn_env \<Rightarrow> turn_options \<Rightarrow> turn_error + TURNCredentials" where
  "CreateTURNCredentials env opts =
    (let opts = auto_mode opts in
     case validateTURNTTL (to_ttl opts) of
       Some e \<Rightarrow> Inl e
     | None \<Rightarrow>
       if te_fips env then Inl FIPSUnavailable
       else if hasTURNAppCredentials opts \<and> trim_space (to_token opts) \<noteq> [] then Inl TokenAndApp
       else if hasTURNAppCredentials opts \<and> app_locally opts then te_app env opts
       else
       rbind (if hasTURNAppCredentials opts then te_app_token env opts else Inr (to_token opts)) (\<lambda>tok.
         let token = trim_space tok in
         if token = [] then Inl TokenRequired
         else rbind (resolveTURNCredentialMode (te_decode env) token (to_mode opts)) (\<lambda>(mode, claims).
           if mode = ModeAPI \<or> to_mode opts = None \<and> \<not> turnLocalTargetAvailable opts
           then createAPITURNCredentials env opts token
           else createPATTURNCredentialsAt (te_crypto env) opts token claims (te_now env))))"

definition turnEngineFallbackAllowed :: "turn_env \<Rightarrow> turn_error \<Rightarrow> bool" where
  "turnEngineFallbackAllowed env e =
    (if te_cancelled env \<or> e = Cancelled then False
     else case e of
       RemoteError status \<Rightarrow> status = 502 \<or> status = 503 \<or> status = 504
     | TransportError retryable network \<Rightarrow> network
     | _ \<Rightarrow> False)"

text \<open>
  \<^verbatim>\<open>Client.CreateTURNCredentials\<close>: \<open>client_token\<close> and \<open>certificate\<close> are the client's identity.
\<close>

definition Client_CreateTURNCredentials ::
  "turn_env \<Rightarrow> bool \<Rightarrow> string option \<Rightarrow> bool \<Rightarrow> turn_options \<Rightarrow> turn_error + TURNCredentials" where
  "Client_CreateTURNCredentials env closed client_token certificate opts =
    (let opts = auto_mode opts in
     if te_fips env then Inl FIPSUnavailable
     else case validateTURNTTL (to_ttl opts) of
       Some e \<Rightarrow> Inl e
     | None \<Rightarrow>
     if closed then Inl ClientClosed
     else
     rbind (case client_token of
              Some t \<Rightarrow>
                if t = [] then Inr opts
                else if to_token opts \<noteq> [] \<and> to_token opts \<noteq> t then Inl TokenMismatch
                else Inr (opts\<lparr>to_token := t\<rparr>)
            | None \<Rightarrow> Inr opts) (\<lambda>opts.
     let application = hasTURNAppCredentials opts in
     if application \<and> (certificate \<or> to_token opts \<noteq> []) then Inl AppConflict
     else if certificate \<and> to_token opts \<noteq> [] then Inl CertificateConflict
     else if \<not> certificate \<and> to_token opts = [] \<and> \<not> application then Inl TokenRequired
     else if application \<and> app_locally opts then te_app env opts
     else
     rbind (if application then rbind (te_app_token env opts) (\<lambda>t.
              Inr (opts\<lparr>to_token := t, to_clientID := [], to_clientSecret := []\<rparr>)) else Inr opts) (\<lambda>opts.
     if to_mode opts = Some ModeEngine then te_engine env opts
     else if certificate then
       (if to_mode opts \<noteq> None then Inl CertificateMode else te_engine env opts)
     else if to_mode opts \<noteq> None then CreateTURNCredentials env opts
     else rbind (resolveTURNCredentialMode (te_decode env) (to_token opts) None) (\<lambda>(mode, claims).
       if mode = ModePAT \<and> turnLocalTargetAvailable opts
       then createPATTURNCredentialsAt (te_crypto env) opts (to_token opts) claims (te_now env)
       else if trim_space (to_apiURL opts) = [] then te_engine env opts
       else case createAPITURNCredentials env opts (to_token opts) of
         Inr result \<Rightarrow> Inr result
       | Inl e \<Rightarrow>
           if \<not> turnEngineFallbackAllowed env e then Inl e
           else if trim_space (to_projectEndpoint opts) = [] then Inl e
           else te_engine env opts))))"


section \<open>Laws\<close>

lemma component_no_colon: "validTURNComponent v \<Longrightarrow> CHR '':'' \<notin> set v"
  by (auto simp: validTURNComponent_def list_all_iff component_char_def is_digit_def)

lemma itoa_no_colon: "CHR '':'' \<notin> set (itoa v)"
  by (simp add: itoa_def format_nat_no_char is_digit_def)

lemma turn_username_parts:
  assumes "CHR '':'' \<notin> set kind" "CHR '':'' \<notin> set project" "CHR '':'' \<notin> set ident"
  shows "split_on (CHR '':'') (turn_username expiry kind project ident) = [''v1'', itoa expiry, kind, project, ident]"
proof -
  have "turn_username expiry kind project ident = join [CHR '':''] [''v1'', itoa expiry, kind, project, ident]"
    by (simp add: turn_username_def)
  then show ?thesis using split_on_join [of "[''v1'', itoa expiry, kind, project, ident]" "CHR '':''"] assms
    by (simp add: itoa_no_colon)
qed

lemma resolve_PAT_claims:
  assumes "resolveTURNCredentialMode decode token requested = Inr (ModePAT, claims)"
  shows "validTURNComponent (tk_tokenEndpoint claims) \<and> tk_type claims = ''pat''"
proof -
  have "parseTURNTokenClaims decode token = Inr claims" "tk_tokenEndpoint claims \<noteq> []" "tk_type claims = ''pat''"
    using assms by (auto simp: resolveTURNCredentialMode_def split: option.splits turn_mode.splits sum.splits if_splits)
  moreover from this(1) have "tk_tokenEndpoint claims = [] \<or> validTURNComponent (tk_tokenEndpoint claims)"
    unfolding parseTURNTokenClaims_def Let_def by (auto split: list.splits option.splits if_splits)
  ultimately show ?thesis by blast
qed

lemma ttl_bounds:
  assumes "validateTURNTTL ttl = None"
  shows "\<exists>k. normalizeTURNCredentialTTL ttl = k * second \<and> 1 \<le> k \<and> k \<le> 3600"
proof (cases "ttl \<le> 0 \<or> 3600 * second < ttl")
  case True
  then show ?thesis by (cases "ttl \<le> 0") (auto simp: normalizeTURNCredentialTTL_def second_def)
next
  case False
  with assms have "ttl mod second = 0" "second \<le> ttl" "ttl \<le> 3600 * second"
    by (auto simp: validateTURNTTL_def split: if_splits)
  then show ?thesis using False
    by (intro exI [of _ "ttl div second"]) (auto simp: normalizeTURNCredentialTTL_def second_def)
qed

lemma pat_ttl_bounds:
  assumes "normalizePATTURNCredentialTTL ttl claims now = Inr t" "validateTURNTTL ttl = None"
    and "tk_expiresAt claims = Some exp" "\<bar>exp - now\<bar> \<le> 9223372036"
  shows "\<exists>k. t = k * second \<and> 1 \<le> k \<and> k \<le> 3600 \<and> now + k \<le> exp"
proof -
  define d where "d = exp - now"
  have "wrap64 (wrap64 d * second) = d * second"
    using assms(4) by (simp add: d_def wrap64_id second_def)
  moreover obtain k where k: "normalizeTURNCredentialTTL ttl = k * second" "1 \<le> k" "k \<le> 3600"
    using ttl_bounds [OF assms(2)] by blast
  ultimately have "0 < d \<and> t = (if d < k then d else k) * second"
    using assms(1,3)
    by (simp add: normalizePATTURNCredentialTTL_def Let_def d_def [symmetric] second_def split: if_splits)
  with k show ?thesis by (intro exI [of _ "if d < k then d else k"]) (auto simp: d_def)
qed


text \<open>
  Outside that range the product of seconds overflows: a token that expires three centuries from
  now counts as expired, and one that expired three centuries ago does not.
\<close>

lemma turn_expiry_overflow:
  "normalizePATTURNCredentialTTL 0 (no_claims\<lparr>tk_expiresAt := Some (1700000000 + 9223372037)\<rparr>) 1700000000 = Inl Expired"
  "normalizePATTURNCredentialTTL 0 (no_claims\<lparr>tk_expiresAt := Some (1700000000 - 9223372037)\<rparr>) 1700000000
     = Inr (600 * second)"
  by (simp_all add: normalizePATTURNCredentialTTL_def no_claims_def wrap64_def second_def
      normalizeTURNCredentialTTL_def Let_def)

definition sample_turn_crypto :: turn_crypto where
  "sample_turn_crypto =
    \<lparr>td_hash = (\<lambda>b. b), td_hkdf = (\<lambda>s r l. Some (s @ r @ l)), td_hmac = (\<lambda>k m. k @ m), td_base64 = (\<lambda>b. b)\<rparr>"

definition sample_claims :: turnTokenClaims where
  "sample_claims = no_claims\<lparr>tk_type := ''pat'', tk_tokenEndpoint := ''tok'', tk_expiresAt := Some 400\<rparr>"

definition sample_turn_options :: turn_options where
  "sample_turn_options =
    \<lparr>to_token = ''h.p.s'', to_clientID = [], to_clientSecret = [], to_apiURL = [], to_projectID = [],
     to_projectEndpoint = ''proj'', to_clusterDomain = ''relay.example'', to_turnDomain = [], to_turnRealm = [],
     to_turnPort = 80, to_turnsPort = 443, to_ttl = 0, to_mode = None\<rparr>"

definition sample_credentials :: TURNCredentials where
  "sample_credentials =
    (case createPATTURNCredentialsAt sample_turn_crypto sample_turn_options ''h.p.s'' sample_claims 100 of
       Inr c \<Rightarrow> c
     | Inl _ \<Rightarrow> \<lparr>tc_username = [], tc_credential = [], tc_urls = [], tc_ttl = 0\<rparr>)"


end
