(* ===== verification/Reconciler.thy ===== *)
theory Reconciler
  imports Prelude "HOL-Library.AList"
begin

text \<open>
  The reconciler of the run command (\<^verbatim>\<open>cmd/rstream/internal/reconciler\<close>) and the desired tunnels
  it works on (\<^verbatim>\<open>cmd/rstream/internal/runmodel\<close>): it brings the tunnels that run to a desired list.

  The starter and the handles it returns are an environment that answers every Start and Stop as it
  likes. A Go map is an association list, and the order in which a loop visits it is an argument. The
  handles that run, and those that were dropped at shutdown although their Stop failed, are ghost
  state. Copies are values: \<^verbatim>\<open>CloneDesired\<close> is the identity here.
\<close>

section \<open>Desired tunnels\<close>

record ForwardTarget =
  ft_Host :: string
  ft_Port :: string

definition forward_String :: "ForwardTarget \<Rightarrow> string" where
  "forward_String f = join_host_port (ft_Host f) (ft_Port f)"

datatype forward_error =
    ForwardEmpty
  | ForwardSplit addr_error
  | ForwardInvalid

definition ParseForwardTarget :: "string \<Rightarrow> string \<Rightarrow> forward_error + ForwardTarget" where
  "ParseForwardTarget raw defaultHost =
    (let clean = trim_space raw in
     if clean = [] then Inl ForwardEmpty
     else rbind (if CHR '':'' \<in> set clean
                 then (case split_host_port clean of
                         Inl e \<Rightarrow> Inl (ForwardSplit e)
                       | Inr (host, port) \<Rightarrow> Inr (trim_space host, trim_space port))
                 else Inr (defaultHost, clean)) (\<lambda>(host, port).
       if trim_space host = [] \<or> trim_space port = [] then Inl ForwardInvalid
       else Inr \<lparr>ft_Host = host, ft_Port = port\<rparr>))"

text \<open>The transport, its configuration, the TLS configuration and the properties are opaque values here.\<close>

record ('t, 'c, 'l) ResolvedContext =
  rx_Name :: string
  rx_Engine :: string
  rx_StableDomainEngine :: string
  rx_Token :: string
  rx_Transport :: "'t option"
  rx_TransportConfig :: "'c option"
  rx_TLSClientConfig :: "'l option"
  rx_CredentialID :: string

definition StableDomainEndpoint :: "('t, 'c, 'l) ResolvedContext \<Rightarrow> string" where
  "StableDomainEndpoint r =
    (let v = trim_space (rx_StableDomainEngine r) in if v \<noteq> [] then v else rx_Engine r)"

record ('p, 't, 'c, 'l) DesiredTunnel =
  dt_Name :: string
  dt_Forward :: ForwardTarget
  dt_Context :: "('t, 'c, 'l) ResolvedContext"
  dt_Props :: 'p
  dt_Source :: string

text \<open>Equality that ignores the live objects of the context.\<close>

definition comparable_desired :: "('p, 't, 'c, 'l) DesiredTunnel \<Rightarrow> ('p, 't, 'c, 'l) DesiredTunnel" where
  "comparable_desired d =
    d\<lparr>dt_Context := (dt_Context d)\<lparr>rx_Transport := None, rx_TLSClientConfig := None\<rparr>\<rparr>"

definition EqualDesired :: "('p, 't, 'c, 'l) DesiredTunnel \<Rightarrow> ('p, 't, 'c, 'l) DesiredTunnel \<Rightarrow> bool" where
  "EqualDesired a b \<longleftrightarrow> comparable_desired a = comparable_desired b"


section \<open>State and environment\<close>

record ('p, 't, 'c, 'l) activeTunnel =
  at_desired :: "('p, 't, 'c, 'l) DesiredTunnel"
  at_handle :: nat

datatype start_result = Started | StartError | NilHandle

record ('p, 't, 'c, 'l) starter =
  env_start :: "('p, 't, 'c, 'l) DesiredTunnel \<Rightarrow> start_result"
  env_stop :: "nat \<Rightarrow> bool"

text \<open>The loop serves requests, then stops what is active, then is gone (\<^verbatim>\<open>stopped\<close> is closed).\<close>

datatype phase = Serving | Stopping | Gone

record ('p, 't, 'c, 'l) reconciler =
  rc_active :: "(string \<times> ('p, 't, 'c, 'l) activeTunnel) list"
  rc_phase :: phase
  rc_running :: "nat list"
  rc_lost :: "nat list"
  rc_next :: nat

datatype reconcile_error =
    StopRemoved string
  | StopUpdated string
  | StartFailed string
  | StartNil string

record ('p, 't, 'c, 'l) progress =
  pg_state :: "('p, 't, 'c, 'l) reconciler"
  pg_errors :: "reconcile_error list"
  pg_removed :: nat
  pg_updated :: nat
  pg_created :: nat
  pg_failed :: nat

definition begin_progress :: "('p, 't, 'c, 'l) reconciler \<Rightarrow> ('p, 't, 'c, 'l) progress" where
  "begin_progress s =
    \<lparr>pg_state = s, pg_errors = [], pg_removed = 0, pg_updated = 0, pg_created = 0, pg_failed = 0\<rparr>"

definition fail_with :: "reconcile_error \<Rightarrow> ('p, 't, 'c, 'l) progress \<Rightarrow> ('p, 't, 'c, 'l) progress" where
  "fail_with e g = g\<lparr>pg_errors := pg_errors g @ [e], pg_failed := Suc (pg_failed g)\<rparr>"

text \<open>A Stop that succeeded, and the deletion of the entry.\<close>

definition drop_tunnel :: "string \<Rightarrow> nat \<Rightarrow> ('p, 't, 'c, 'l) reconciler \<Rightarrow> ('p, 't, 'c, 'l) reconciler" where
  "drop_tunnel name h s =
    s\<lparr>rc_active := AList.delete name (rc_active s), rc_running := removeAll h (rc_running s)\<rparr>"

text \<open>A Start that succeeded, and the new entry.\<close>

definition add_tunnel ::
  "string \<Rightarrow> ('p, 't, 'c, 'l) DesiredTunnel \<Rightarrow> ('p, 't, 'c, 'l) reconciler \<Rightarrow> ('p, 't, 'c, 'l) reconciler" where
  "add_tunnel name d s =
    s\<lparr>rc_active := AList.update name \<lparr>at_desired = d, at_handle = rc_next s\<rparr> (rc_active s),
      rc_running := rc_next s # rc_running s, rc_next := Suc (rc_next s)\<rparr>"


section \<open>Reconciliation\<close>

definition remove_step ::
  "('p, 't, 'c, 'l) starter \<Rightarrow> (string \<times> ('p, 't, 'c, 'l) DesiredTunnel) list \<Rightarrow> string
     \<Rightarrow> ('p, 't, 'c, 'l) progress \<Rightarrow> ('p, 't, 'c, 'l) progress" where
  "remove_step e desiredMap name g =
    (case (map_of (rc_active (pg_state g)) name, map_of desiredMap name) of
       (Some current, None) \<Rightarrow>
         if env_stop e (at_handle current)
         then g\<lparr>pg_state := drop_tunnel name (at_handle current) (pg_state g), pg_removed := Suc (pg_removed g)\<rparr>
         else fail_with (StopRemoved name) g
     | _ \<Rightarrow> g)"

definition start_step ::
  "('p, 't, 'c, 'l) starter \<Rightarrow> string \<Rightarrow> ('p, 't, 'c, 'l) DesiredTunnel
     \<Rightarrow> ('p, 't, 'c, 'l) progress \<Rightarrow> ('p, 't, 'c, 'l) progress" where
  "start_step e name d g =
    (case env_start e d of
       StartError \<Rightarrow> fail_with (StartFailed name) g
     | NilHandle \<Rightarrow> fail_with (StartNil name) g
     | Started \<Rightarrow> g\<lparr>pg_state := add_tunnel name d (pg_state g), pg_created := Suc (pg_created g)\<rparr>)"

definition update_step ::
  "('p, 't, 'c, 'l) starter \<Rightarrow> (string \<times> ('p, 't, 'c, 'l) DesiredTunnel) list \<Rightarrow> string
     \<Rightarrow> ('p, 't, 'c, 'l) progress \<Rightarrow> ('p, 't, 'c, 'l) progress" where
  "update_step e desiredMap name g =
    (case map_of desiredMap name of
       None \<Rightarrow> g
     | Some d \<Rightarrow>
       (case map_of (rc_active (pg_state g)) name of
          None \<Rightarrow> start_step e name d g
        | Some current \<Rightarrow>
            if EqualDesired (at_desired current) d then g
            else if env_stop e (at_handle current)
            then start_step e name d
                   (g\<lparr>pg_state := drop_tunnel name (at_handle current) (pg_state g), pg_updated := Suc (pg_updated g)\<rparr>)
            else fail_with (StopUpdated name) g))"

definition desired_map ::
  "('p, 't, 'c, 'l) DesiredTunnel list \<Rightarrow> (string \<times> ('p, 't, 'c, 'l) DesiredTunnel) list" where
  "desired_map desired = fold (\<lambda>d. AList.update (dt_Name d) d) desired []"

text \<open>The two orders are those in which the loops visit the active and the desired tunnels.\<close>

definition reconcile ::
  "('p, 't, 'c, 'l) starter \<Rightarrow> string list \<Rightarrow> string list \<Rightarrow> ('p, 't, 'c, 'l) DesiredTunnel list
     \<Rightarrow> ('p, 't, 'c, 'l) reconciler \<Rightarrow> ('p, 't, 'c, 'l) progress" where
  "reconcile e order1 order2 desired s =
    (let desiredMap = desired_map desired in
     fold (update_step e desiredMap) order2 (fold (remove_step e desiredMap) order1 (begin_progress s)))"

text \<open>What \<^verbatim>\<open>Reconcile\<close> checks before it hands the list to the loop.\<close>

datatype request_error = InvalidTunnelName | DuplicateTunnelName

fun check_names :: "string list \<Rightarrow> ('p, 't, 'c, 'l) DesiredTunnel list \<Rightarrow> request_error option" where
  "check_names seen [] = None"
| "check_names seen (d # ds) =
    (if dt_Name d = [] then Some InvalidTunnelName
     else if dt_Name d \<in> set seen then Some DuplicateTunnelName
     else check_names (dt_Name d # seen) ds)"

definition stop_step ::
  "('p, 't, 'c, 'l) starter \<Rightarrow> string \<Rightarrow> ('p, 't, 'c, 'l) reconciler \<Rightarrow> ('p, 't, 'c, 'l) reconciler" where
  "stop_step e name s =
    (case map_of (rc_active s) name of
       None \<Rightarrow> s
     | Some current \<Rightarrow>
         if env_stop e (at_handle current) then drop_tunnel name (at_handle current) s
         else s\<lparr>rc_active := AList.delete name (rc_active s), rc_lost := at_handle current # rc_lost s\<rparr>)"

definition stop_all ::
  "('p, 't, 'c, 'l) starter \<Rightarrow> string list \<Rightarrow> ('p, 't, 'c, 'l) reconciler \<Rightarrow> ('p, 't, 'c, 'l) reconciler" where
  "stop_all e order s = (fold (stop_step e) order s)\<lparr>rc_phase := Gone\<rparr>"

definition new_reconciler :: "('p, 't, 'c, 'l) reconciler" where
  "new_reconciler = \<lparr>rc_active = [], rc_phase = Serving, rc_running = [], rc_lost = [], rc_next = 0\<rparr>"

text \<open>
  The loop of \<^verbatim>\<open>run\<close>: requests one at a time, until a stop request or the end of the context. A stop
  request is answered when the loop leaves, before the deferred call stops what is active.
\<close>

datatype ('p, 't, 'c, 'l) run_event =
    ReconcileRequest "('p, 't, 'c, 'l) starter" "string list" "string list" "('p, 't, 'c, 'l) DesiredTunnel list"
  | StopRequest
  | ContextDone
  | Shutdown "('p, 't, 'c, 'l) starter" "string list"

datatype run_reply = Reply "reconcile_error list" | Refused request_error | Closed | Silent

definition visits :: "string list \<Rightarrow> (string \<times> 'a) list \<Rightarrow> bool" where
  "visits order m \<longleftrightarrow> distinct order \<and> set order = set (map fst m)"

inductive run_step ::
  "('p, 't, 'c, 'l) reconciler \<Rightarrow> ('p, 't, 'c, 'l) run_event \<Rightarrow> run_reply \<Rightarrow> ('p, 't, 'c, 'l) reconciler \<Rightarrow> bool" where
  refuse: "check_names [] desired = Some err \<Longrightarrow> run_step s (ReconcileRequest e o1 o2 desired) (Refused err) s"
| serve: "rc_phase s = Serving \<Longrightarrow> check_names [] desired = None \<Longrightarrow> visits o1 (rc_active s)
    \<Longrightarrow> visits o2 (desired_map desired) \<Longrightarrow> g = reconcile e o1 o2 desired s
    \<Longrightarrow> run_step s (ReconcileRequest e o1 o2 desired) (Reply (pg_errors g)) (pg_state g)"
| closed: "rc_phase s = Gone \<Longrightarrow> check_names [] desired = None
    \<Longrightarrow> run_step s (ReconcileRequest e o1 o2 desired) Closed s"
| stop: "rc_phase s = Serving \<Longrightarrow> run_step s StopRequest (Reply []) (s\<lparr>rc_phase := Stopping\<rparr>)"
| stop_again: "rc_phase s = Gone \<Longrightarrow> run_step s StopRequest Silent s"
| cancel: "rc_phase s = Serving \<Longrightarrow> run_step s ContextDone Silent (s\<lparr>rc_phase := Stopping\<rparr>)"
| shutdown: "rc_phase s = Stopping \<Longrightarrow> visits order (rc_active s) \<Longrightarrow> run_step s (Shutdown e order) Silent (stop_all e order s)"

inductive reconciler_run :: "('p, 't, 'c, 'l) run_event list \<Rightarrow> run_reply list \<Rightarrow> ('p, 't, 'c, 'l) reconciler \<Rightarrow> bool" where
  run_new: "reconciler_run [] [] new_reconciler"
| run_next: "reconciler_run evs rs s \<Longrightarrow> run_step s ev r s' \<Longrightarrow> reconciler_run (evs @ [ev]) (rs @ [r]) s'"

inductive_cases run_stepE: "run_step s ev r s'"


section \<open>Loops over a map\<close>

text \<open>
  A loop that visits distinct keys, whose body changes the entry of its own key only: every visited
  entry is changed once, and the reports are those of the entries as they were at the start.
\<close>

locale keyed_loop =
  fixes body :: "'k \<Rightarrow> 'g \<Rightarrow> 'g"
    and entry :: "'g \<Rightarrow> 'k \<Rightarrow> 'x"
    and reports :: "'g \<Rightarrow> 'r list"
    and becomes :: "'k \<Rightarrow> 'x \<Rightarrow> 'x \<Rightarrow> bool"
    and report :: "'k \<Rightarrow> 'x \<Rightarrow> 'r list"
  assumes own: "becomes k (entry g k) (entry (body k g) k)"
    and others: "n \<noteq> k \<Longrightarrow> entry (body k g) n = entry g n"
    and reported: "reports (body k g) = reports g @ report k (entry g k)"
begin

lemma unvisited: "n \<notin> set ks \<Longrightarrow> entry (fold body ks g) n = entry g n"
  by (induction ks arbitrary: g) (auto simp: others)

lemma visited: "distinct ks \<Longrightarrow> n \<in> set ks \<Longrightarrow> becomes n (entry g n) (entry (fold body ks g) n)"
proof (induction ks arbitrary: g)
  case (Cons k ks)
  show ?case
  proof (cases "n = k")
    case True
    then show ?thesis using Cons.prems own by (simp add: unvisited)
  next
    case False
    then show ?thesis using Cons.prems Cons.IH [of "body k g"] by (simp add: others)
  qed
qed simp

lemma all_reports: "distinct ks \<Longrightarrow> reports (fold body ks g) = reports g @ concat (map (\<lambda>k. report k (entry g k)) ks)"
proof (induction ks arbitrary: g)
  case (Cons k ks)
  then have "entry (body k g) n = entry g n" if "n \<in> set ks" for n using that by (intro others) auto
  then have same: "map (\<lambda>n. report n (entry (body k g) n)) ks = map (\<lambda>n. report n (entry g n)) ks"
    by (intro map_cong refl) metis
  with Cons.IH [of "body k g"] Cons.prems show ?case by (simp add: reported del: map_eq_conv)
qed simp

end

abbreviation active_of :: "('p, 't, 'c, 'l) progress \<Rightarrow> string \<rightharpoonup> ('p, 't, 'c, 'l) activeTunnel" where
  "active_of g \<equiv> map_of (rc_active (pg_state g))"

text \<open>What the removal of tunnels that are not desired does to an entry.\<close>

fun removal :: "('p, 't, 'c, 'l) starter \<Rightarrow> ('p, 't, 'c, 'l) DesiredTunnel option \<Rightarrow> ('p, 't, 'c, 'l) activeTunnel option
    \<Rightarrow> ('p, 't, 'c, 'l) activeTunnel option" where
  "removal e None (Some a) = (if env_stop e (at_handle a) then None else Some a)"
| "removal e _ a = a"

fun removal_report :: "('p, 't, 'c, 'l) starter \<Rightarrow> string \<Rightarrow> ('p, 't, 'c, 'l) DesiredTunnel option
    \<Rightarrow> ('p, 't, 'c, 'l) activeTunnel option \<Rightarrow> reconcile_error list" where
  "removal_report e n None (Some a) = (if env_stop e (at_handle a) then [] else [StopRemoved n])"
| "removal_report e n _ a = []"

text \<open>What the second loop does to an entry: the handle of a started tunnel is a new one.\<close>

fun started :: "('p, 't, 'c, 'l) starter \<Rightarrow> ('p, 't, 'c, 'l) DesiredTunnel \<Rightarrow> ('p, 't, 'c, 'l) activeTunnel option \<Rightarrow> bool" where
  "started e d b \<longleftrightarrow> (if env_start e d = Started then map_option at_desired b = Some d else b = None)"

fun updated :: "('p, 't, 'c, 'l) starter \<Rightarrow> ('p, 't, 'c, 'l) DesiredTunnel option \<Rightarrow> ('p, 't, 'c, 'l) activeTunnel option
    \<Rightarrow> ('p, 't, 'c, 'l) activeTunnel option \<Rightarrow> bool" where
  "updated e None a b \<longleftrightarrow> b = a"
| "updated e (Some d) None b \<longleftrightarrow> started e d b"
| "updated e (Some d) (Some a) b \<longleftrightarrow>
    (if EqualDesired (at_desired a) d \<or> \<not> env_stop e (at_handle a) then b = Some a else started e d b)"

fun start_report :: "start_result \<Rightarrow> string \<Rightarrow> reconcile_error list" where
  "start_report Started n = []"
| "start_report StartError n = [StartFailed n]"
| "start_report NilHandle n = [StartNil n]"

fun update_report :: "('p, 't, 'c, 'l) starter \<Rightarrow> string \<Rightarrow> ('p, 't, 'c, 'l) DesiredTunnel option
    \<Rightarrow> ('p, 't, 'c, 'l) activeTunnel option \<Rightarrow> reconcile_error list" where
  "update_report e n None a = []"
| "update_report e n (Some d) None = start_report (env_start e d) n"
| "update_report e n (Some d) (Some a) =
    (if EqualDesired (at_desired a) d then []
     else if env_stop e (at_handle a) then start_report (env_start e d) n
     else [StopUpdated n])"

lemmas step_defs = fail_with_def drop_tunnel_def add_tunnel_def delete_conv' update_conv'

interpretation removing: keyed_loop "remove_step e desiredMap" active_of pg_errors
  "\<lambda>n a b. b = removal e (map_of desiredMap n) a" "\<lambda>n. removal_report e n (map_of desiredMap n)"
  for e :: "('p, 't, 'c, 'l) starter" and desiredMap
  by unfold_locales (auto simp: remove_step_def step_defs split: option.splits)

interpretation updating: keyed_loop "update_step e desiredMap" active_of pg_errors
  "\<lambda>n. updated e (map_of desiredMap n)" "\<lambda>n. update_report e n (map_of desiredMap n)"
  for e :: "('p, 't, 'c, 'l) starter" and desiredMap
  by unfold_locales
     (auto simp: update_step_def start_step_def step_defs split: option.splits start_result.splits)


section \<open>Refinement\<close>

text \<open>The specification: an assignment of desired tunnels to names, and one whole update of it.\<close>

definition running_specs :: "('p, 't, 'c, 'l) reconciler \<Rightarrow> string \<rightharpoonup> ('p, 't, 'c, 'l) DesiredTunnel" where
  "running_specs s n = map_option at_desired (map_of (rc_active s) n)"

definition wanted :: "('p, 't, 'c, 'l) DesiredTunnel list \<Rightarrow> string \<rightharpoonup> ('p, 't, 'c, 'l) DesiredTunnel" where
  "wanted desired n = find (\<lambda>d. dt_Name d = n) desired"

definition assign ::
  "(string \<Rightarrow> bool) \<Rightarrow> (('p, 't, 'c, 'l) DesiredTunnel \<Rightarrow> bool) \<Rightarrow> (string \<rightharpoonup> ('p, 't, 'c, 'l) DesiredTunnel)
     \<Rightarrow> (string \<rightharpoonup> ('p, 't, 'c, 'l) DesiredTunnel) \<Rightarrow> string \<rightharpoonup> ('p, 't, 'c, 'l) DesiredTunnel" where
  "assign can_stop can_start D M n =
    (case (M n, D n) of
       (None, None) \<Rightarrow> None
     | (Some a, None) \<Rightarrow> if can_stop n then None else Some a
     | (None, Some d) \<Rightarrow> if can_start d then Some d else None
     | (Some a, Some d) \<Rightarrow>
         if EqualDesired a d then Some a
         else if \<not> can_stop n then Some a
         else if can_start d then Some d else None)"

definition can_stop :: "('p, 't, 'c, 'l) starter \<Rightarrow> ('p, 't, 'c, 'l) reconciler \<Rightarrow> string \<Rightarrow> bool" where
  "can_stop e s n \<longleftrightarrow> (case map_of (rc_active s) n of None \<Rightarrow> True | Some a \<Rightarrow> env_stop e (at_handle a))"

lemma EqualDesired_refl [simp]: "EqualDesired d d"
  by (simp add: EqualDesired_def)

lemma check_names_ok:
  "check_names seen ds = None \<longleftrightarrow>
     [] \<notin> dt_Name ` set ds \<and> distinct (map dt_Name ds) \<and> dt_Name ` set ds \<inter> set seen = {}"
  by (induction ds arbitrary: seen) auto

lemma desired_map_fold:
  "map_of (fold (\<lambda>d. AList.update (dt_Name d) d) ds m) n =
     (case find (\<lambda>d. dt_Name d = n) (rev ds) of None \<Rightarrow> map_of m n | Some d \<Rightarrow> Some d)"
proof (induction ds rule: rev_induct)
  case (snoc d ds)
  then show ?case by (simp add: update_conv')
qed simp

lemma find_name_Some:
  "distinct (map dt_Name ds) \<Longrightarrow> find (\<lambda>d. dt_Name d = n) ds = Some d \<longleftrightarrow> d \<in> set ds \<and> dt_Name d = n"
  by (induction ds) (auto simp: image_iff)

lemma find_rev:
  assumes "distinct (map dt_Name ds)"
  shows "find (\<lambda>d. dt_Name d = n) (rev ds) = find (\<lambda>d. dt_Name d = n) ds"
proof -
  have "find (\<lambda>d. dt_Name d = n) (rev ds) = Some d \<longleftrightarrow> find (\<lambda>d. dt_Name d = n) ds = Some d" for d
    using assms find_name_Some [of ds n d] find_name_Some [of "rev ds" n d] by (simp add: rev_map [symmetric])
  then show ?thesis by (metis option.exhaust)
qed

lemma desired_map_wanted: "check_names [] desired = None \<Longrightarrow> map_of (desired_map desired) = wanted desired"
  by (rule ext) (simp add: desired_map_def desired_map_fold wanted_def check_names_ok find_rev split: option.splits)

lemma visits_dom: "visits order m \<Longrightarrow> n \<in> set order \<longleftrightarrow> map_of m n \<noteq> None"
  by (auto simp: visits_def map_of_eq_None_iff)

text \<open>The entry of every name after the two loops, and the errors.\<close>

lemma after_removal:
  assumes "check_names [] desired = None" "visits o1 (rc_active s)"
  shows "active_of (fold (remove_step e (desired_map desired)) o1 (begin_progress s)) n
    = removal e (wanted desired n) (map_of (rc_active s) n)"
  using removing.visited [of o1 n e "desired_map desired" "begin_progress s"]
    removing.unvisited [of n o1 e "desired_map desired" "begin_progress s"] visits_dom [OF assms(2), of n] assms(2)
  by (cases "n \<in> set o1") (auto simp: begin_progress_def desired_map_wanted [OF assms(1)] visits_def)

lemma after_reconcile:
  assumes "check_names [] desired = None" "visits o1 (rc_active s)" "visits o2 (desired_map desired)"
  shows "updated e (wanted desired n) (removal e (wanted desired n) (map_of (rc_active s) n))
    (active_of (reconcile e o1 o2 desired s) n)"
proof (cases "n \<in> set o2")
  case True
  then show ?thesis
    using updating.visited [OF _ True, of e "desired_map desired" "fold (remove_step e (desired_map desired)) o1 (begin_progress s)"]
      assms(3)
    by (simp add: reconcile_def Let_def visits_def after_removal [OF assms(1,2)] desired_map_wanted [OF assms(1)])
next
  case False
  then have "wanted desired n = None"
    using visits_dom [OF assms(3), of n] by (simp add: desired_map_wanted [OF assms(1), symmetric])
  with False show ?thesis
    by (simp add: reconcile_def Let_def updating.unvisited after_removal [OF assms(1,2)])
qed

lemma reconcile_errors:
  assumes "check_names [] desired = None" "visits o1 (rc_active s)" "visits o2 (desired_map desired)"
  shows "pg_errors (reconcile e o1 o2 desired s)
    = concat (map (\<lambda>n. removal_report e n (wanted desired n) (map_of (rc_active s) n)) o1)
      @ concat (map (\<lambda>n. update_report e n (wanted desired n) (removal e (wanted desired n) (map_of (rc_active s) n))) o2)"
  using assms(2,3)
  by (simp add: reconcile_def Let_def visits_def updating.all_reports removing.all_reports
      after_removal [OF assms(1,2)] desired_map_wanted [OF assms(1)])
     (simp add: begin_progress_def)

lemma no_errors_iff:
  assumes "check_names [] desired = None" "visits o1 (rc_active s)" "visits o2 (desired_map desired)"
  shows "pg_errors (reconcile e o1 o2 desired s) = [] \<longleftrightarrow>
    (\<forall>n. removal_report e n (wanted desired n) (map_of (rc_active s) n) = []
       \<and> update_report e n (wanted desired n) (removal e (wanted desired n) (map_of (rc_active s) n)) = [])"
proof -
  have "n \<in> set o1" if "removal_report e n (wanted desired n) (map_of (rc_active s) n) \<noteq> []" for n
    using that visits_dom [OF assms(2), of n] by (cases "map_of (rc_active s) n") auto
  moreover have "n \<in> set o2"
    if "update_report e n (wanted desired n) (removal e (wanted desired n) (map_of (rc_active s) n)) \<noteq> []" for n
    using that visits_dom [OF assms(3), of n] desired_map_wanted [OF assms(1)] by (cases "wanted desired n") auto
  ultimately show ?thesis unfolding reconcile_errors [OF assms] by (simp add: concat_eq_Nil_conv) blast
qed

lemma entry_converged:
  assumes "updated e d (removal e d a) b"
  shows "removal_report e n d a = [] \<and> update_report e n d (removal e d a) = [] \<longleftrightarrow> rel_option EqualDesired (map_option at_desired b) d"
proof (cases d)
  case None
  with assms show ?thesis by (cases a) auto
next
  case (Some x)
  with assms show ?thesis by (cases a; cases "env_start e x") auto
qed

text \<open>
  C7. One reconciliation refines one update of an assignment of tunnels to names, whatever the order in
  which Go visits its maps and whatever Start and Stop answer: a tunnel that is not desired is gone
  unless it could not be stopped; a desired one that runs unchanged is kept with its handle; any
  other desired one is running with the new description, unless its predecessor could not be stopped
  (which stays) or it could not be started. No error is returned exactly when the tunnels that
  are active are then the desired ones.
\<close>

theorem reconcile_refines_assignment:
  assumes "check_names [] desired = None" "visits o1 (rc_active s)" "visits o2 (desired_map desired)"
    and g: "g = reconcile e o1 o2 desired s"
  shows "running_specs (pg_state g)
      = assign (can_stop e s) (\<lambda>d. env_start e d = Started) (wanted desired) (running_specs s)
    \<and> (\<forall>n d a. wanted desired n = Some d \<and> map_of (rc_active s) n = Some a \<and> EqualDesired (at_desired a) d
         \<longrightarrow> map_of (rc_active (pg_state g)) n = Some a)
    \<and> (pg_errors g = [] \<longleftrightarrow> (\<forall>n. rel_option EqualDesired (running_specs (pg_state g) n) (wanted desired n)))"
proof (intro conjI allI impI)
  note after = after_reconcile [OF assms(1-3), of e, folded g]
  show "running_specs (pg_state g)
      = assign (can_stop e s) (\<lambda>d. env_start e d = Started) (wanted desired) (running_specs s)"
  proof
    fix n
    show "running_specs (pg_state g) n
        = assign (can_stop e s) (\<lambda>d. env_start e d = Started) (wanted desired) (running_specs s) n"
      using after [of n]
      by (cases "wanted desired n"; cases "map_of (rc_active s) n")
         (auto simp: running_specs_def assign_def can_stop_def split: if_splits)
  qed
  show "map_of (rc_active (pg_state g)) n = Some a"
    if "wanted desired n = Some d \<and> map_of (rc_active s) n = Some a \<and> EqualDesired (at_desired a) d" for n d a
    using after [of n] that by simp
  show "pg_errors g = [] \<longleftrightarrow> (\<forall>n. rel_option EqualDesired (running_specs (pg_state g) n) (wanted desired n))"
    unfolding g no_errors_iff [OF assms(1-3)] running_specs_def
    using entry_converged [OF after] by (simp add: g)
qed


section \<open>Ownership\<close>

text \<open>The handles that run are those of the active tunnels and the lost ones; no two tunnels share one.\<close>

definition handles :: "('p, 't, 'c, 'l) reconciler \<Rightarrow> string \<rightharpoonup> nat" where
  "handles s n = map_option at_handle (map_of (rc_active s) n)"

definition ledger :: "(string \<rightharpoonup> nat) \<Rightarrow> nat set \<Rightarrow> nat set \<Rightarrow> nat \<Rightarrow> bool" where
  "ledger F lost running nxt \<longleftrightarrow>
    running = lost \<union> ran F \<and> lost \<inter> ran F = {} \<and> (\<forall>n m h. F n = Some h \<longrightarrow> F m = Some h \<longrightarrow> n = m)
    \<and> (\<forall>h\<in>lost \<union> ran F. h < nxt)"

lemma ran_drop:
  assumes "\<forall>n m h. F n = Some h \<longrightarrow> F m = Some h \<longrightarrow> n = m" "F name = Some k"
  shows "ran (F(name := None)) = ran F - {k}"
proof (intro set_eqI iffI)
  fix h
  assume "h \<in> ran (F(name := None))"
  then obtain n where "n \<noteq> name" "F n = Some h" by (auto simp: ran_def split: if_splits)
  moreover from this assms have "h \<noteq> k" by blast
  ultimately show "h \<in> ran F - {k}" by (auto intro: ranI)
next
  fix h
  assume "h \<in> ran F - {k}"
  then obtain n where n: "F n = Some h" "h \<noteq> k" by (auto simp: ran_def)
  with assms(2) have "n \<noteq> name" by auto
  with n show "h \<in> ran (F(name := None))" by (intro ranI [of _ n]) simp
qed

lemma ledger_inj: "ledger F lost running nxt \<Longrightarrow> \<forall>n m h. F n = Some h \<longrightarrow> F m = Some h \<longrightarrow> n = m"
  by (simp add: ledger_def)

lemma ledger_drop:
  assumes l: "ledger F lost running nxt" and k: "F name = Some k"
  shows "ledger (F(name := None)) lost (running - {k}) nxt"
    and "ledger (F(name := None)) (insert k lost) running nxt"
proof -
  note ran = ran_drop [where F = F, OF ledger_inj [OF l] k]
  have k_ran: "k \<in> ran F" using k by (rule ranI)
  have inj: "n = m" if "(F(name := None)) n = Some h" "(F(name := None)) m = Some h" for n m h
    using that ledger_inj [OF l, rule_format, of n h m] by (simp split: if_splits)
  have parts: "running = lost \<union> ran F" "lost \<inter> ran F = {}" "\<forall>h\<in>lost \<union> ran F. h < nxt"
    using l unfolding ledger_def by blast+
  show "ledger (F(name := None)) lost (running - {k}) nxt"
    unfolding ledger_def ran
  proof (intro conjI)
    show "running - {k} = lost \<union> (ran F - {k})" using parts k_ran by blast
    show "lost \<inter> (ran F - {k}) = {}" "\<forall>h\<in>lost \<union> (ran F - {k}). h < nxt" using parts by blast+
  qed (use inj in blast)
  show "ledger (F(name := None)) (insert k lost) running nxt"
    unfolding ledger_def ran
  proof (intro conjI)
    show "running = insert k lost \<union> (ran F - {k})" using parts k_ran by blast
    show "insert k lost \<inter> (ran F - {k}) = {}" "\<forall>h\<in>insert k lost \<union> (ran F - {k}). h < nxt" using parts k_ran by blast+
  qed (use inj in blast)
qed

lemma ledger_add:
  assumes l: "ledger F lost running nxt" and free: "F name = None"
  shows "ledger (F(name \<mapsto> nxt)) lost (insert nxt running) (Suc nxt)"
proof -
  have less: "h < nxt" if "h \<in> lost \<union> ran F" for h using l that unfolding ledger_def by blast
  have ran: "ran (F(name \<mapsto> nxt)) = insert nxt (ran F)" using free by (rule ran_map_upd)
  have "n = m" if "(F(name \<mapsto> nxt)) n = Some h" "(F(name \<mapsto> nxt)) m = Some h" for n m h
  proof -
    have "F i \<noteq> Some nxt" for i using less [of nxt] ranI [of F i nxt] by auto
    with that show ?thesis using ledger_inj [OF l] by (auto split: if_splits)
  qed
  moreover have "lost \<inter> insert nxt (ran F) = {}" using l less [of nxt] unfolding ledger_def by auto
  moreover have "\<forall>h\<in>lost \<union> insert nxt (ran F). h < Suc nxt" using less by (auto simp: less_Suc_eq)
  ultimately show ?thesis using l unfolding ledger_def ran by blast
qed

definition owned :: "('p, 't, 'c, 'l) reconciler \<Rightarrow> bool" where
  "owned s \<longleftrightarrow>
    (\<forall>n a. map_of (rc_active s) n = Some a \<longrightarrow> dt_Name (at_desired a) = n)
    \<and> ledger (handles s) (set (rc_lost s)) (set (rc_running s)) (rc_next s)"

lemma handles_update:
  "handles (s\<lparr>rc_phase := ph\<rparr>) = handles s"
  "handles (drop_tunnel name k s) = (handles s)(name := None)"
  "handles (s\<lparr>rc_active := AList.delete name (rc_active s), rc_lost := l\<rparr>) = (handles s)(name := None)"
  "handles (add_tunnel name d s) = (handles s)(name \<mapsto> rc_next s)"
  by (auto simp: handles_def drop_tunnel_def add_tunnel_def delete_conv' update_conv' fun_eq_iff)

lemma handles_active: "map_of (rc_active s) n = Some a \<Longrightarrow> handles s n = Some (at_handle a)"
  by (simp add: handles_def)

lemma owned_phase [simp]: "owned (s\<lparr>rc_phase := ph\<rparr>) = owned s"
  by (simp add: owned_def handles_update)

lemma owned_drop:
  assumes "owned s" "map_of (rc_active s) name = Some a"
  shows "owned (drop_tunnel name (at_handle a) s)"
  using assms(1) ledger_drop(1) [where F = "handles s", OF _ handles_active [OF assms(2)]]
  unfolding owned_def handles_update by (simp add: drop_tunnel_def delete_conv')

lemma owned_lose:
  assumes "owned s" "map_of (rc_active s) name = Some a"
  shows "owned (s\<lparr>rc_active := AList.delete name (rc_active s), rc_lost := at_handle a # rc_lost s\<rparr>)"
  using assms(1) ledger_drop(2) [where F = "handles s", OF _ handles_active [OF assms(2)]]
  unfolding owned_def handles_update by (simp add: delete_conv')

lemma owned_add:
  assumes "owned s" "map_of (rc_active s) name = None" "dt_Name d = name"
  shows "owned (add_tunnel name d s)"
proof -
  have "handles s name = None" using assms(2) by (simp add: handles_def)
  then show ?thesis
    using assms ledger_add [where F = "handles s" and name = name]
    unfolding owned_def handles_update by (simp add: add_tunnel_def update_conv')
qed

lemma owned_remove: "owned (pg_state g) \<Longrightarrow> owned (pg_state (remove_step e m n g))"
  by (auto simp: remove_step_def fail_with_def intro: owned_drop split: option.splits)

lemma owned_start:
  "owned (pg_state g) \<Longrightarrow> active_of g (dt_Name d) = None \<Longrightarrow> owned (pg_state (start_step e (dt_Name d) d g))"
  by (auto simp: start_step_def fail_with_def intro: owned_add split: start_result.splits)

lemma owned_update:
  assumes "owned (pg_state g)" "\<And>d. map_of m n = Some d \<Longrightarrow> dt_Name d = n"
  shows "owned (pg_state (update_step e m n g))"
proof (cases "map_of m n")
  case (Some d)
  then have n: "n = dt_Name d" using assms(2) by simp
  show ?thesis
  proof (cases "active_of g n")
    case None
    then show ?thesis using Some assms(1) owned_start [of g d e] by (simp add: update_step_def n)
  next
    case (Some a)
    let ?g = "g\<lparr>pg_state := drop_tunnel n (at_handle a) (pg_state g), pg_updated := Suc (pg_updated g)\<rparr>"
    have "owned (pg_state ?g)" using owned_drop [OF assms(1) Some] by simp
    moreover have "active_of ?g n = None" by (simp add: drop_tunnel_def delete_conv')
    ultimately have "owned (pg_state (start_step e n d ?g))" using owned_start [of ?g d e] by (simp add: n)
    then show ?thesis using Some \<open>map_of m n = Some d\<close> assms(1) by (simp add: update_step_def fail_with_def)
  qed
qed (simp add: update_step_def assms(1))

lemma owned_reconcile:
  assumes "owned s" "check_names [] desired = None"
  shows "owned (pg_state (reconcile e o1 o2 desired s))"
proof -
  have "dt_Name d = n" if "map_of (desired_map desired) n = Some d" for n d
    using that unfolding desired_map_wanted [OF assms(2)] wanted_def by (auto simp: find_Some_iff)
  moreover have "owned (pg_state (fold (remove_step e (desired_map desired)) o1 (begin_progress s)))"
    using assms(1) by (intro fold_invariant [where P = "\<lambda>g. owned (pg_state g)" and Q = "\<lambda>_. True"])
      (auto simp: begin_progress_def intro: owned_remove)
  ultimately show ?thesis
    unfolding reconcile_def Let_def
    by (intro fold_invariant [where P = "\<lambda>g. owned (pg_state g)" and Q = "\<lambda>_. True" and xs = o2]) (auto intro: owned_update)
qed

text \<open>No loop changes the phase or the lost handles but the last one.\<close>

lemma step_frame:
  "rc_lost (pg_state (remove_step e m n g)) = rc_lost (pg_state g)"
  "rc_phase (pg_state (remove_step e m n g)) = rc_phase (pg_state g)"
  "rc_lost (pg_state (update_step e m n g)) = rc_lost (pg_state g)"
  "rc_phase (pg_state (update_step e m n g)) = rc_phase (pg_state g)"
  by (simp_all add: remove_step_def update_step_def start_step_def step_defs split: option.splits start_result.splits)

lemma reconcile_frame:
  "rc_lost (pg_state (reconcile e o1 o2 desired s)) = rc_lost s"
  "rc_phase (pg_state (reconcile e o1 o2 desired s)) = rc_phase s"
proof -
  have r: "rc_lost (pg_state (fold (remove_step e m) ks g)) = rc_lost (pg_state g)
      \<and> rc_phase (pg_state (fold (remove_step e m) ks g)) = rc_phase (pg_state g)" for m ks g
    by (induction ks arbitrary: g) (simp_all add: step_frame)
  have u: "rc_lost (pg_state (fold (update_step e m) ks g)) = rc_lost (pg_state g)
      \<and> rc_phase (pg_state (fold (update_step e m) ks g)) = rc_phase (pg_state g)" for m ks g
    by (induction ks arbitrary: g) (simp_all add: step_frame)
  show "rc_lost (pg_state (reconcile e o1 o2 desired s)) = rc_lost s"
    "rc_phase (pg_state (reconcile e o1 o2 desired s)) = rc_phase s"
    by (simp_all add: reconcile_def Let_def r u begin_progress_def)
qed

lemma stop_step_owned: "owned s \<Longrightarrow> owned (stop_step e n s)"
  by (auto simp: stop_step_def intro: owned_drop owned_lose split: option.splits)

lemma stop_step_lost: "set (rc_lost (stop_step e n s)) \<subseteq> set (rc_lost s) \<union> {h. \<not> env_stop e h}"
  by (auto simp: stop_step_def drop_tunnel_def split: option.splits)

lemma stop_step_active: "map_of (rc_active (stop_step e n s)) = (map_of (rc_active s))(n := None)"
  by (auto simp: stop_step_def drop_tunnel_def delete_conv' fun_eq_iff split: option.splits)

lemma stop_fold_active: "map_of (rc_active (fold (stop_step e) order s)) n = (if n \<in> set order then None else map_of (rc_active s) n)"
  by (induction order arbitrary: s) (simp_all add: stop_step_active)

lemma stop_all_props:
  assumes "owned s" "visits order (rc_active s)"
  shows "owned (stop_all e order s)" "rc_active (stop_all e order s) = []"
    "set (rc_lost (stop_all e order s)) \<subseteq> set (rc_lost s) \<union> {h. \<not> env_stop e h}"
proof -
  show "owned (stop_all e order s)"
    unfolding stop_all_def owned_phase using assms(1)
    by (intro fold_invariant [where P = owned and Q = "\<lambda>_. True"]) (auto intro: stop_step_owned)
  have "map_of (rc_active (fold (stop_step e) order s)) n = None" for n
    using visits_dom [OF assms(2), of n] by (simp add: stop_fold_active)
  then have "map_of (rc_active (stop_all e order s)) = Map.empty" by (simp add: stop_all_def fun_eq_iff)
  then show "rc_active (stop_all e order s) = []" by simp
  have "set (rc_lost (fold (stop_step e) order t)) \<subseteq> set (rc_lost t) \<union> {h. \<not> env_stop e h}" for t
  proof (induction order arbitrary: t)
    case (Cons n order)
    then show ?case using stop_step_lost [of e n t] by fastforce
  qed simp
  then show "set (rc_lost (stop_all e order s)) \<subseteq> set (rc_lost s) \<union> {h. \<not> env_stop e h}" by (simp add: stop_all_def)
qed

text \<open>What every run keeps: ownership, an empty table at the end, and a failed Stop for every lost handle.\<close>

definition run_invariant :: "('p, 't, 'c, 'l) run_event list \<Rightarrow> ('p, 't, 'c, 'l) reconciler \<Rightarrow> bool" where
  "run_invariant evs s \<longleftrightarrow>
    owned s \<and> (rc_phase s = Gone \<longrightarrow> rc_active s = []) \<and> (rc_phase s \<noteq> Gone \<longrightarrow> rc_lost s = [])
    \<and> (\<forall>h\<in>set (rc_lost s). \<exists>e order. Shutdown e order \<in> set evs \<and> \<not> env_stop e h)"

lemma run_invariant_mono: "run_invariant evs s \<Longrightarrow> run_invariant (evs @ [ev]) s"
  by (fastforce simp: run_invariant_def)

lemma run_invariant_step:
  assumes "run_invariant evs s" "run_step s ev r s'"
  shows "run_invariant (evs @ [ev]) s'"
  using assms(2,1)
proof cases
  case (serve desired o1 o2 g e)
  then show ?thesis
    using run_invariant_mono [OF assms(1), of ev] owned_reconcile [of s desired e o1 o2] reconcile_frame [of e o1 o2 desired s]
    by (simp add: run_invariant_def)
next
  case (shutdown order e)
  have "owned s" using assms(1) by (simp add: run_invariant_def)
  note props = stop_all_props [OF this shutdown(5), of e]
  have "\<exists>e order. Shutdown e order \<in> set (evs @ [ev]) \<and> \<not> env_stop e h" if "h \<in> set (rc_lost s')" for h
  proof (cases "h \<in> set (rc_lost s)")
    case True
    then show ?thesis using assms(1) unfolding run_invariant_def by fastforce
  next
    case False
    then have "\<not> env_stop e h" using that props(3) shutdown by auto
    then show ?thesis using shutdown by auto
  qed
  then show ?thesis using props shutdown by (simp add: run_invariant_def stop_all_def)
qed (use run_invariant_mono [OF assms(1), of ev] in \<open>simp_all add: run_invariant_def\<close>)

lemma run_invariant: "reconciler_run evs rs s \<Longrightarrow> run_invariant evs s"
proof (induction rule: reconciler_run.induct)
  case run_new
  then show ?case by (simp add: run_invariant_def new_reconciler_def owned_def ledger_def handles_def ran_def)
next
  case (run_next evs rs s ev r s')
  then show ?case by (rule_tac run_invariant_step)
qed

text \<open>
  C8. The reconciler owns what it starts. Over any sequence of requests, stop requests and cancellation,
  with Start and Stop answering as they like and the maps visited in any order: every active tunnel is
  filed under its own name and its handle runs; no two names share a handle; a handle that runs and is
  not active had its Stop fail while the reconciler shut down; once it is gone, nothing is active.
\<close>

theorem reconciler_owns_tunnels:
  assumes "reconciler_run evs rs s"
  shows "(\<forall>n a. map_of (rc_active s) n = Some a \<longrightarrow> dt_Name (at_desired a) = n \<and> at_handle a \<in> set (rc_running s))
    \<and> (\<forall>n m a b. map_of (rc_active s) n = Some a \<and> map_of (rc_active s) m = Some b \<and> at_handle a = at_handle b \<longrightarrow> n = m)
    \<and> (\<forall>h\<in>set (rc_running s). (\<exists>n a. map_of (rc_active s) n = Some a \<and> at_handle a = h)
         \<or> (\<exists>e order. Shutdown e order \<in> set evs \<and> \<not> env_stop e h))
    \<and> (rc_phase s = Gone \<longrightarrow> rc_active s = [])"
proof -
  have inv: "owned s" "rc_phase s = Gone \<longrightarrow> rc_active s = []"
    "\<forall>h\<in>set (rc_lost s). \<exists>e order. Shutdown e order \<in> set evs \<and> \<not> env_stop e h"
    using run_invariant [OF assms] by (simp_all add: run_invariant_def)
  have l: "ledger (handles s) (set (rc_lost s)) (set (rc_running s)) (rc_next s)" using inv(1) by (simp add: owned_def)
  have running: "set (rc_running s) = set (rc_lost s) \<union> ran (handles s)" using l by (simp add: ledger_def)
  have "dt_Name (at_desired a) = n \<and> at_handle a \<in> set (rc_running s)" if "map_of (rc_active s) n = Some a" for n a
    using that inv(1) ranI [of "handles s" n] by (simp add: running owned_def handles_active)
  moreover have "n = m" if "map_of (rc_active s) n = Some a \<and> map_of (rc_active s) m = Some b \<and> at_handle a = at_handle b" for n m a b
    using that ledger_inj [OF l, rule_format, of n "at_handle a" m] by (simp add: handles_active)
  moreover have "(\<exists>n a. map_of (rc_active s) n = Some a \<and> at_handle a = h)
      \<or> (\<exists>e order. Shutdown e order \<in> set evs \<and> \<not> env_stop e h)" if "h \<in> set (rc_running s)" for h
    using that inv(3) unfolding running by (auto simp: ran_def handles_def)
  ultimately show ?thesis using inv(2) by blast
qed


section \<open>A starter whose tunnels always stop\<close>

text \<open>
  The contract of a starter that the run command relies on: every handle stops. Then a reconciliation
  depends on Start alone, and a shutdown leaves nothing behind.
\<close>

locale stopping_starter =
  fixes e :: "('p, 't, 'c, 'l) starter"
  assumes stops: "env_stop e h"
begin

lemma reconciled:
  assumes "check_names [] desired = None" "visits o1 (rc_active s)" "visits o2 (desired_map desired)"
  shows "running_specs (pg_state (reconcile e o1 o2 desired s)) n =
    (case wanted desired n of
       None \<Rightarrow> None
     | Some d \<Rightarrow>
         if rel_option EqualDesired (running_specs s n) (Some d) then running_specs s n
         else if env_start e d = Started then Some d else None)"
  using after_reconcile [OF assms, of e n] stops
  by (cases "wanted desired n"; cases "map_of (rc_active s) n") (auto simp: running_specs_def split: if_splits)

lemma shut_down:
  assumes "owned s" "visits order (rc_active s)" "rc_lost s = []"
  shows "rc_running (stop_all e order s) = []"
proof -
  note props = stop_all_props [OF assms(1,2), of e]
  have "rc_lost (stop_all e order s) = []" using props(3) assms(3) stops by auto
  moreover have "handles (stop_all e order s) = Map.empty" using props(2) by (simp add: handles_def fun_eq_iff)
  ultimately have "set (rc_running (stop_all e order s)) = {}" using props(1) by (simp add: owned_def ledger_def)
  then show ?thesis by simp
qed

end


section \<open>A run\<close>

definition sample_tunnel :: "string \<Rightarrow> string \<Rightarrow> (string, unit, unit, unit) DesiredTunnel" where
  "sample_tunnel name props =
    \<lparr>dt_Name = name, dt_Forward = \<lparr>ft_Host = ''localhost'', ft_Port = ''8080''\<rparr>,
     dt_Context = \<lparr>rx_Name = [], rx_Engine = ''engine'', rx_StableDomainEngine = [], rx_Token = ''token'', rx_Transport = None,
       rx_TransportConfig = None, rx_TLSClientConfig = None, rx_CredentialID = []\<rparr>,
     dt_Props = props, dt_Source = []\<rparr>"

text \<open>Starts that fail for one description, and a Stop that fails for the second handle.\<close>

definition sample_starter :: "(string, unit, unit, unit) starter" where
  "sample_starter =
    \<lparr>env_start = (\<lambda>d. if dt_Props d = ''bad'' then StartError else Started), env_stop = (\<lambda>h. h \<noteq> 1)\<rparr>"

definition sample_first :: "(string, unit, unit, unit) DesiredTunnel list" where
  "sample_first = [sample_tunnel ''a'' ''x'', sample_tunnel ''b'' ''x'']"

definition sample_second :: "(string, unit, unit, unit) DesiredTunnel list" where
  "sample_second = [sample_tunnel ''a'' ''y'', sample_tunnel ''c'' ''bad'']"

definition sample_after_first :: "(string, unit, unit, unit) reconciler" where
  "sample_after_first = pg_state (reconcile sample_starter [] [''b'', ''a''] sample_first new_reconciler)"

definition sample_after_second :: "(string, unit, unit, unit) reconciler" where
  "sample_after_second = pg_state (reconcile sample_starter [''a'', ''b''] [''c'', ''a''] sample_second sample_after_first)"

definition sample_events :: "(string, unit, unit, unit) run_event list" where
  "sample_events =
    [ReconcileRequest sample_starter [] [''b'', ''a''] sample_first,
     ReconcileRequest sample_starter [''a'', ''b''] [''c'', ''a''] sample_second]"

lemma sample_names: "check_names [] sample_first = None" "check_names [] sample_second = None"
  by code_simp+

lemma sample_orders:
  "visits [] (rc_active (new_reconciler :: (string, unit, unit, unit) reconciler))"
  "visits [''b'', ''a''] (desired_map sample_first)"
  "visits [''a'', ''b''] (rc_active sample_after_first)" "visits [''c'', ''a''] (desired_map sample_second)"
  by code_simp+

lemma sample_phases: "rc_phase (new_reconciler :: (string, unit, unit, unit) reconciler) = Serving"
  "rc_phase sample_after_first = Serving" "rc_phase sample_after_second = Serving"
  by code_simp+

lemma sample_run: "\<exists>rs. reconciler_run sample_events rs sample_after_second"
proof -
  let ?g1 = "reconcile sample_starter [] [''b'', ''a''] sample_first new_reconciler"
  let ?g2 = "reconcile sample_starter [''a'', ''b''] [''c'', ''a''] sample_second sample_after_first"
  have "run_step new_reconciler (ReconcileRequest sample_starter [] [''b'', ''a''] sample_first)
      (Reply (pg_errors ?g1)) sample_after_first"
    unfolding sample_after_first_def by (rule serve [OF sample_phases(1) sample_names(1) sample_orders(1,2) refl])
  from run_next [OF run_new this]
  have "reconciler_run [ReconcileRequest sample_starter [] [''b'', ''a''] sample_first] [Reply (pg_errors ?g1)] sample_after_first"
    by simp
  moreover have "run_step sample_after_first (ReconcileRequest sample_starter [''a'', ''b''] [''c'', ''a''] sample_second)
      (Reply (pg_errors ?g2)) sample_after_second"
    unfolding sample_after_second_def by (rule serve [OF sample_phases(2) sample_names(2) sample_orders(3,4) refl])
  ultimately show ?thesis unfolding sample_events_def by (intro exI) (drule (1) run_next, simp)
qed

theorem reconcile_refines_assignment_witness:
  "(\<forall>n. rel_option EqualDesired (running_specs sample_after_first n) (wanted sample_first n))
   \<and> running_specs sample_after_second = assign (can_stop sample_starter sample_after_first)
       (\<lambda>d. env_start sample_starter d = Started) (wanted sample_second) (running_specs sample_after_first)
   \<and> \<not> (\<forall>n. rel_option EqualDesired (running_specs sample_after_second n) (wanted sample_second n))"
proof -
  have "pg_errors (reconcile sample_starter [] [''b'', ''a''] sample_first new_reconciler) = []" by code_simp
  then have "\<forall>n. rel_option EqualDesired (running_specs sample_after_first n) (wanted sample_first n)"
    using reconcile_refines_assignment [OF sample_names(1) sample_orders(1,2) refl, of sample_starter]
    unfolding sample_after_first_def by blast
  moreover have "pg_errors (reconcile sample_starter [''a'', ''b''] [''c'', ''a''] sample_second sample_after_first) \<noteq> []"
    by code_simp
  ultimately show ?thesis
    using reconcile_refines_assignment [OF sample_names(2) sample_orders(3,4) refl, of sample_starter]
    unfolding sample_after_second_def by blast
qed

theorem reconciler_owns_tunnels_witness:
  "(\<exists>rs. reconciler_run sample_events rs sample_after_second)
   \<and> set (rc_running sample_after_second) = {1} \<and> (\<exists>n a. map_of (rc_active sample_after_second) n = Some a \<and> at_handle a = 1)"
proof -
  obtain rs where run: "reconciler_run sample_events rs sample_after_second" using sample_run by blast
  have running: "set (rc_running sample_after_second) = {1}" by code_simp
  have "Shutdown e order \<notin> set sample_events" for e order by (simp add: sample_events_def)
  then have "\<exists>n a. map_of (rc_active sample_after_second) n = Some a \<and> at_handle a = 1"
    using reconciler_owns_tunnels [OF run] by (simp add: running)
  with run running show ?thesis by blast
qed

text \<open>
  A stop request is answered before the active tunnels are stopped, so the caller of \<^verbatim>\<open>Stop\<close> can go on,
  and the process can end, while tunnels run.
\<close>

theorem stop_answered_early:
  "\<exists>evs rs s. reconciler_run (evs @ [StopRequest]) (rs @ [Reply []]) (s :: (string, unit, unit, unit) reconciler) \<and> rc_running s \<noteq> []"
proof -
  obtain rs where run: "reconciler_run sample_events rs sample_after_second" using sample_run by blast
  have "rc_running sample_after_second = [1]" by code_simp
  with run_next [OF run stop [OF sample_phases(3)]] show ?thesis by fastforce
qed

end
