(* ===== verification/Cors.thy ===== *)
theory Cors
  imports Prelude "HOL-Library.AList"
begin

text \<open>
  The HTTP CORS policy (\<^verbatim>\<open>httpcors/cors.go\<close>): validation of a configuration, the decision about
  a request, and the response writer that owns the \<^verbatim>\<open>Access-Control-\<close> headers.

  The URL parser and \<^verbatim>\<open>httpguts.ValidHeaderFieldName\<close> are arguments. The application behind the
  policy is a list of arbitrary actions on the response writer.
\<close>

section \<open>Configuration\<close>

record Config =
  AllowedOrigins :: "string list"
  AllowedMethods :: "string list"
  AllowedHeaders :: "string list"
  ExposedHeaders :: "string list"
  AllowCredentials :: bool
  MaxAge :: int

datatype cors_error =
    NoOrigin
  | MaxAgeRange
  | TooManyEntries
  | TooLong
  | InvalidOrigin
  | InvalidPort
  | InvalidToken
  | ForbiddenMethod string

text \<open>What \<^verbatim>\<open>url.Parse\<close> and the accessors of its result give for an origin.\<close>

record origin_url =
  ou_scheme :: string
  ou_host :: string
  ou_hostname :: string
  ou_port :: string
  ou_user :: bool
  ou_path :: string
  ou_query :: string
  ou_force_query :: bool
  ou_fragment :: string

definition origin_excluded :: "char list" where
  "origin_excluded = [CHR ''*'', CHR 0x5C, CHR 0x0D, CHR 0x0A, CHR 0x09, CHR '' '', CHR ''#'', CHR ''?'']"

definition normalizeOrigin :: "(string \<Rightarrow> origin_url option) \<Rightarrow> string \<Rightarrow> cors_error + string" where
  "normalizeOrigin url_parse value =
    (case url_parse value of
       None \<Rightarrow> Inl InvalidOrigin
     | Some u \<Rightarrow>
         if ou_scheme u \<noteq> ''http'' \<and> ou_scheme u \<noteq> ''https'' \<or> ou_host u = [] \<or> ou_hostname u = []
            \<or> has_suffix (ou_host u) '':'' \<or> ou_user u \<or> ou_path u \<noteq> [] \<or> ou_query u \<noteq> []
            \<or> ou_force_query u \<or> ou_fragment u \<noteq> [] \<or> list_ex (\<lambda>c. c \<in> set origin_excluded) value
         then Inl InvalidOrigin
         else
           let port = ou_port u in
           rbind (if port \<noteq> [] then
                    (case atoi port of
                       None \<Rightarrow> Inl InvalidPort
                     | Some n \<Rightarrow>
                         if n < 1 \<or> 65535 < n then Inl InvalidPort
                         else if ou_scheme u = ''https'' \<and> port = ''443'' \<or> ou_scheme u = ''http'' \<and> port = ''80''
                         then Inr (trim_suffix (ou_host u) (CHR '':'' # port))
                         else Inr (ou_host u))
                  else Inr (ou_host u)) (\<lambda>host.
           Inr (ou_scheme u @ ''://'' @ to_lower host)))"

text \<open>
  \<^verbatim>\<open>http.CanonicalHeaderKey\<close>: the first letter and every letter after a hyphen in upper case,
  the rest in lower case; a name with a byte that is not a token byte is left alone.
\<close>

definition is_token_byte :: "char \<Rightarrow> bool" where
  "is_token_byte c \<longleftrightarrow>
     is_digit c \<or> 65 \<le> nat_of_byte c \<and> nat_of_byte c \<le> 90 \<or> 97 \<le> nat_of_byte c \<and> nat_of_byte c \<le> 122
     \<or> c \<in> set [CHR ''!'', CHR ''#'', CHR ''$'', CHR ''%'', CHR ''&'', CHR 0x27, CHR ''*'', CHR ''+'', CHR ''-'',
                CHR ''.'', CHR ''^'', CHR ''_'', CHR 0x60, CHR ''|'', CHR ''~'']"

fun canonical_bytes :: "bool \<Rightarrow> string \<Rightarrow> string" where
  "canonical_bytes upper [] = []"
| "canonical_bytes upper (c # s) =
    (if upper then upper_char c else lower_char c) # canonical_bytes (c = CHR ''-'') s"

definition CanonicalHeaderKey :: "string \<Rightarrow> string" where
  "CanonicalHeaderKey s = (if list_all is_token_byte s then canonical_bytes True s else s)"

text \<open>One value of the lists: origins (group 0), methods (group 1), allowed and exposed headers.\<close>

definition normalize_value ::
  "(string \<Rightarrow> origin_url option) \<Rightarrow> (string \<Rightarrow> bool) \<Rightarrow> nat \<Rightarrow> string \<Rightarrow> cors_error + string" where
  "normalize_value url_parse valid_field grp value =
    (if grp = 0 then normalizeOrigin url_parse value
     else if value = ''*'' \<or> \<not> valid_field value then Inl InvalidToken
     else if grp = 1 then
       (let m = to_upper value
        in if m = ''CONNECT'' \<or> m = ''TRACE'' \<or> m = ''TRACK'' then Inl (ForbiddenMethod m) else Inr m)
     else Inr (CanonicalHeaderKey value))"

fun normalize_values ::
  "(string \<Rightarrow> cors_error + string) \<Rightarrow> nat \<Rightarrow> string list \<Rightarrow> cors_error + (string list \<times> nat)" where
  "normalize_values norm size_so_far [] = Inr ([], size_so_far)"
| "normalize_values norm size_so_far (v # vs) =
    (let size = size_so_far + length v in
     if 16384 < size then Inl TooLong
     else rbind (norm v) (\<lambda>v.
          rbind (normalize_values norm size vs) (\<lambda>(vs, size). Inr (v # vs, size))))"

definition normalize_group ::
  "(string \<Rightarrow> cors_error + string) \<Rightarrow> nat \<Rightarrow> string list \<Rightarrow> cors_error + (string list \<times> nat)" where
  "normalize_group norm size_so_far vs =
    (if 128 < length vs then Inl TooManyEntries else normalize_values norm size_so_far vs)"

definition Normalize ::
  "(string \<Rightarrow> origin_url option) \<Rightarrow> (string \<Rightarrow> bool) \<Rightarrow> Config \<Rightarrow> cors_error + Config" where
  "Normalize url_parse valid_field c =
    (if AllowedOrigins c = [] then Inl NoOrigin
     else if MaxAge c < 0 \<or> 86400 < MaxAge c then Inl MaxAgeRange
     else
     let methods = (if AllowedMethods c = [] then [''GET'', ''HEAD'', ''POST''] else AllowedMethods c);
         headers = (if AllowedHeaders c = [] then [''Authorization'', ''Content-Type''] else AllowedHeaders c);
         norm = normalize_value url_parse valid_field
     in
     rbind (normalize_group (norm 0) 0 (AllowedOrigins c)) (\<lambda>(origins, size).
     rbind (normalize_group (norm 1) size methods) (\<lambda>(methods, size).
     rbind (normalize_group (norm 2) size headers) (\<lambda>(headers, size).
     rbind (normalize_group (norm 3) size (ExposedHeaders c)) (\<lambda>(exposed, size).
       Inr (c\<lparr>AllowedOrigins := origins, AllowedMethods := methods, AllowedHeaders := headers,
              ExposedHeaders := exposed\<rparr>))))))"


section \<open>Policies\<close>

record Policy =
  po_origins :: "string list"
  po_methods :: "string list"
  po_headers :: "string list"
  po_allowMethods :: string
  po_allowHeaders :: string
  po_exposeHeaders :: string
  po_credentials :: bool
  po_maxAge :: string

text \<open>\<open>Inr None\<close> is the nil policy of a nil configuration; the sets are lists of their members.\<close>

definition New :: "(string \<Rightarrow> origin_url option) \<Rightarrow> (string \<Rightarrow> bool) \<Rightarrow> Config option \<Rightarrow> cors_error + Policy option" where
  "New url_parse valid_field c =
    (case c of
       None \<Rightarrow> Inr None
     | Some c \<Rightarrow>
         rbind (Normalize url_parse valid_field c) (\<lambda>c.
           Inr (Some
             \<lparr>po_origins = AllowedOrigins c, po_methods = AllowedMethods c,
              po_headers = map to_lower (AllowedHeaders c),
              po_allowMethods = join '', '' (AllowedMethods c), po_allowHeaders = join '', '' (AllowedHeaders c),
              po_exposeHeaders = join '', '' (ExposedHeaders c), po_credentials = AllowCredentials c,
              po_maxAge = itoa (MaxAge c)\<rparr>)))"

text \<open>Headers: canonical names with their values.\<close>

type_synonym headers = "(string \<times> string list) list"

definition h_values :: "headers \<Rightarrow> string \<Rightarrow> string list" where
  "h_values h name = (case map_of h name of None \<Rightarrow> [] | Some vs \<Rightarrow> vs)"

definition h_get :: "headers \<Rightarrow> string \<Rightarrow> string" where
  "h_get h name = (case h_values h name of [] \<Rightarrow> [] | v # _ \<Rightarrow> v)"

definition h_set :: "string \<Rightarrow> string \<Rightarrow> headers \<Rightarrow> headers" where
  "h_set name v h = AList.update name [v] h"

definition h_add :: "string \<Rightarrow> string \<Rightarrow> headers \<Rightarrow> headers" where
  "h_add name v h = AList.update name (h_values h name @ [v]) h"

record request =
  rq_method :: string
  rq_header :: headers
  rq_tls :: bool
  rq_host :: string

text \<open>
  The response writer, with what the inner writer was told: every \<^verbatim>\<open>WriteHeader\<close> with the headers at
  that moment, and the body.
\<close>

record responseWriter =
  rw_header :: headers
  rw_origin :: string
  rw_preflight :: bool
  rw_written :: bool
  rw_sent :: "(int \<times> headers) list"
  rw_body :: bytes
  rw_app :: bool

definition varies :: "headers \<Rightarrow> string \<Rightarrow> bool" where
  "varies h v \<longleftrightarrow>
    list_ex (\<lambda>field. list_ex (\<lambda>token. to_lower (trim_space token) = to_lower v \<or> trim_space token = ''*'')
      (split_on (CHR '','') field)) (h_values h ''Vary'')"

definition addVary :: "string \<Rightarrow> headers \<Rightarrow> headers" where
  "addVary v h = (if varies h v then h else h_add ''Vary'' v h)"

definition is_cors_name :: "string \<Rightarrow> bool" where
  "is_cors_name name = has_prefix (to_lower name) ''access-control-''"

definition cors_headers :: "Policy \<Rightarrow> responseWriter \<Rightarrow> int \<Rightarrow> headers \<Rightarrow> headers" where
  "cors_headers p w status h =
    (let h = filter (\<lambda>(name, _). \<not> is_cors_name name) h;
         h = addVary ''Origin'' h;
         h = (if rw_preflight w
              then addVary ''Access-Control-Request-Headers'' (addVary ''Access-Control-Request-Method'' h) else h)
     in if rw_origin w = [] then h
        else
          let h = h_set ''Access-Control-Allow-Origin'' (rw_origin w) h;
              h = (if po_credentials p then h_set ''Access-Control-Allow-Credentials'' ''true'' h else h)
          in if rw_preflight w \<and> 200 \<le> status \<and> status < 300 then
               h_set ''Access-Control-Max-Age'' (po_maxAge p)
                 (h_set ''Access-Control-Allow-Headers'' (po_allowHeaders p)
                   (h_set ''Access-Control-Allow-Methods'' (po_allowMethods p) h))
             else if \<not> rw_preflight w \<and> po_exposeHeaders p \<noteq> [] then
               h_set ''Access-Control-Expose-Headers'' (po_exposeHeaders p) h
             else h)"

definition rw_WriteHeader :: "Policy \<Rightarrow> int \<Rightarrow> responseWriter \<Rightarrow> responseWriter" where
  "rw_WriteHeader p status w =
    (if rw_written w then w
     else
       let h = cors_headers p w status (rw_header w)
       in w\<lparr>rw_header := h, rw_written := (200 \<le> status \<or> status = 101), rw_sent := rw_sent w @ [(status, h)]\<rparr>)"

definition rw_Write :: "Policy \<Rightarrow> bytes \<Rightarrow> responseWriter \<Rightarrow> responseWriter" where
  "rw_Write p data w =
    (let w = (if rw_written w then w else rw_WriteHeader p 200 w) in w\<lparr>rw_body := rw_body w @ data\<rparr>)"

definition rw_FlushError :: "Policy \<Rightarrow> responseWriter \<Rightarrow> responseWriter" where
  "rw_FlushError p w = (if rw_written w then w else rw_WriteHeader p 200 w)"

definition rw_Hijack :: "bool \<Rightarrow> responseWriter \<Rightarrow> responseWriter" where
  "rw_Hijack ok w = (if ok then w\<lparr>rw_written := True\<rparr> else w)"

text \<open>\<^verbatim>\<open>http.Error\<close>: plain text, no stale length or encoding.\<close>

definition http_Error :: "Policy \<Rightarrow> string \<Rightarrow> int \<Rightarrow> responseWriter \<Rightarrow> responseWriter" where
  "http_Error p msg code w =
    (let h = filter (\<lambda>(name, _). name \<notin> set [''Content-Length'', ''Content-Encoding'', ''Etag'', ''Cache-Control'', ''Last-Modified''])
               (rw_header w);
         h = h_set ''X-Content-Type-Options'' ''nosniff'' (h_set ''Content-Type'' ''text/plain; charset=utf-8'' h)
     in rw_Write p (msg @ [CHR 0x0A]) (rw_WriteHeader p code (w\<lparr>rw_header := h\<rparr>)))"


section \<open>Requests\<close>

text \<open>The writer is \<open>None\<close> where the inner writer is passed on as it is, which CONNECT gets.\<close>

definition Prepare ::
  "(string \<Rightarrow> origin_url option) \<Rightarrow> Policy \<Rightarrow> request \<Rightarrow> string \<Rightarrow> responseWriter \<Rightarrow> responseWriter option \<times> bool" where
  "Prepare url_parse p r targetOrigin w =
    (if rq_method r = ''CONNECT'' then (None, True)
     else
     let origins = h_values (rq_header r) ''Origin'' in
     if origins = [] then (Some w, True)
     else
       let origin = normalizeOrigin url_parse (h_get (rq_header r) ''Origin'');
           target = (case normalizeOrigin url_parse targetOrigin of Inl _ \<Rightarrow> [] | Inr t \<Rightarrow> t);
           sameOrigin = (origin = Inr target)
       in if length origins \<noteq> 1 \<or> \<not> is_ok origin \<or> \<not> sameOrigin \<and> origin \<notin> Inr ` set (po_origins p)
          then (Some (http_Error p ''Browser origin is not allowed'' 403 w), False)
          else
            let w = w\<lparr>rw_origin := h_get (rq_header r) ''Origin'',
                      rw_preflight := (rq_method r = ''OPTIONS'' \<and> h_get (rq_header r) ''Access-Control-Request-Method'' \<noteq> [])\<rparr>
            in if \<not> sameOrigin \<and> \<not> rw_preflight w \<and> rq_method r \<notin> set (po_methods p)
               then (Some (http_Error p ''Browser method is not allowed'' 403 w), False)
               else (Some w, True))"

definition preflight_headers_ok :: "(string \<Rightarrow> bool) \<Rightarrow> Policy \<Rightarrow> request \<Rightarrow> bool" where
  "preflight_headers_ok valid_field p r \<longleftrightarrow>
    list_all (\<lambda>field. list_all (\<lambda>header. valid_field (trim_space header) \<and> to_lower (trim_space header) \<in> set (po_headers p))
      (split_on (CHR '','') field)) (h_values (rq_header r) ''Access-Control-Request-Headers'')"

definition Preflight ::
  "(string \<Rightarrow> bool) \<Rightarrow> Policy \<Rightarrow> request \<Rightarrow> responseWriter \<Rightarrow> responseWriter \<times> bool" where
  "Preflight valid_field p r w =
    (let requested = h_get (rq_header r) ''Access-Control-Request-Method'' in
     if rq_method r \<noteq> ''OPTIONS'' \<or> h_get (rq_header r) ''Origin'' = [] \<or> requested = [] then (w, False)
     else if length (h_values (rq_header r) ''Access-Control-Request-Method'') = 1
             \<and> requested \<in> set (po_methods p) \<and> preflight_headers_ok valid_field p r
     then (rw_WriteHeader p 204 w, True)
     else (http_Error p ''CORS preflight is not allowed'' 403 w, True))"

text \<open>The application, as what it does to the writer it is given.\<close>

datatype app_action =
    SetHeader string "string list"
  | DeleteHeader string
  | AppWriteHeader int
  | AppWrite bytes
  | AppFlush
  | AppHijack bool

fun app_act :: "Policy \<Rightarrow> app_action \<Rightarrow> responseWriter \<Rightarrow> responseWriter" where
  "app_act p (SetHeader name vs) w = w\<lparr>rw_header := AList.update name vs (rw_header w)\<rparr>"
| "app_act p (DeleteHeader name) w = w\<lparr>rw_header := AList.delete name (rw_header w)\<rparr>"
| "app_act p (AppWriteHeader status) w = rw_WriteHeader p status w"
| "app_act p (AppWrite data) w = rw_Write p data w"
| "app_act p AppFlush w = rw_FlushError p w"
| "app_act p (AppHijack ok) w = rw_Hijack ok w"

definition Finish :: "Policy \<Rightarrow> responseWriter \<Rightarrow> responseWriter" where
  "Finish p w = rw_WriteHeader p 200 w"

definition new_writer :: "headers \<Rightarrow> responseWriter" where
  "new_writer h =
    \<lparr>rw_header = h, rw_origin = [], rw_preflight = False, rw_written = False, rw_sent = [], rw_body = [], rw_app = False\<rparr>"

text \<open>
  \<^verbatim>\<open>Wrap\<close> around an application; \<open>rw_app\<close> records that the application ran. \<open>None\<close> stands for a
  request the policy leaves to the application alone.
\<close>

definition target_origin :: "(string \<Rightarrow> origin_url option) \<Rightarrow> request \<Rightarrow> string" where
  "target_origin url_parse r =
    (case normalizeOrigin url_parse ((if rq_tls r then ''https'' else ''http'') @ ''://'' @ rq_host r) of
       Inl _ \<Rightarrow> [] | Inr t \<Rightarrow> t)"

definition Wrap ::
  "(string \<Rightarrow> origin_url option) \<Rightarrow> (string \<Rightarrow> bool) \<Rightarrow> Policy \<Rightarrow> app_action list \<Rightarrow> request
     \<Rightarrow> responseWriter \<Rightarrow> responseWriter option" where
  "Wrap url_parse valid_field p acts r w =
    (case Prepare url_parse p r (target_origin url_parse r) w of
       (None, _) \<Rightarrow> None
     | (Some w, False) \<Rightarrow> Some w
     | (Some w, True) \<Rightarrow>
         (case Preflight valid_field p r w of
            (w, True) \<Rightarrow> Some w
          | (w, False) \<Rightarrow> Some (Finish p (fold (app_act p) acts (w\<lparr>rw_app := True\<rparr>)))))"


section \<open>What the policy guarantees\<close>

lemma update_set_subset: "set (AList.update k v xs) \<subseteq> insert (k, v) (set xs)"
  by (induction xs) auto

lemma h_set_subset: "set (h_set n v h) \<subseteq> insert (n, [v]) (set h)"
  by (simp add: h_set_def update_set_subset)

lemma h_values_set [simp]:
  "h_values (h_set n v h) m = (if m = n then [v] else h_values h m)"
  by (simp add: h_values_def h_set_def AList.update_conv')

lemma h_values_add [simp]:
  "h_values (h_add n v h) m = (if m = n then h_values h n @ [v] else h_values h m)"
  by (simp add: h_values_def h_add_def AList.update_conv')

lemma varies_cong: "h_values h ''Vary'' = h_values h' ''Vary'' \<Longrightarrow> varies h v = varies h' v"
  by (simp add: varies_def)

lemma varies_set [simp]: "n \<noteq> ''Vary'' \<Longrightarrow> varies (h_set n v h) x = varies h x"
  by (rule varies_cong) simp

lemma addVary_keeps: "varies h x \<Longrightarrow> varies (addVary v h) x"
  by (auto simp: addVary_def varies_def)

lemma addVary_varies:
  assumes "CHR '','' \<notin> set v" "trim_space v = v"
  shows "varies (addVary v h) v"
  using split_on_no_sep [OF assms(1)] assms(2) by (auto simp: addVary_def varies_def)

lemma Vary_not_cors: "\<not> is_cors_name ''Vary''"
  by code_simp

lemma addVary_cors:
  assumes "(n, vs) \<in> set (addVary v h)" "is_cors_name n"
  shows "(n, vs) \<in> set h"
proof -
  have "n \<noteq> ''Vary''" using assms(2) Vary_not_cors by auto
  with assms(1) subsetD [OF update_set_subset [of "''Vary''" "h_values h ''Vary'' @ [v]" h], of "(n, vs)"]
  show ?thesis by (auto simp: addVary_def h_add_def split: if_splits)
qed

text \<open>The only CORS headers a response may carry, and their values.\<close>

definition cors_header_ok :: "Policy \<Rightarrow> string \<Rightarrow> bool \<Rightarrow> int \<Rightarrow> string \<times> string list \<Rightarrow> bool" where
  "cors_header_ok p origin preflight status nv \<longleftrightarrow>
     origin \<noteq> []
     \<and> (nv = (''Access-Control-Allow-Origin'', [origin])
       \<or> po_credentials p \<and> nv = (''Access-Control-Allow-Credentials'', [''true''])
       \<or> preflight \<and> 200 \<le> status \<and> status < 300
           \<and> (nv = (''Access-Control-Allow-Methods'', [po_allowMethods p])
              \<or> nv = (''Access-Control-Allow-Headers'', [po_allowHeaders p])
              \<or> nv = (''Access-Control-Max-Age'', [po_maxAge p]))
       \<or> \<not> preflight \<and> nv = (''Access-Control-Expose-Headers'', [po_exposeHeaders p]))"

lemma cors_headers_ok:
  assumes "(n, vs) \<in> set (cors_headers p w status h)" "is_cors_name n"
  shows "cors_header_ok p (rw_origin w) (rw_preflight w) status (n, vs)"
proof -
  let ?f = "filter (\<lambda>(name, _). \<not> is_cors_name name) h"
  have base: "(n, vs) \<notin> set ?f" using assms(2) by auto
  have *: "x \<in> set (h_set m u t) \<Longrightarrow> x = (m, [u]) \<or> x \<in> set t" for x m u t
    using h_set_subset by fastforce
  show ?thesis
    using assms base unfolding cors_headers_def cors_header_ok_def Let_def
    by (auto split: if_splits dest!: * addVary_cors)
qed

lemma cors_headers_vary: "varies (cors_headers p w status h) ''Origin''"
proof -
  let ?f = "filter (\<lambda>(name, _). \<not> is_cors_name name) h"
  have "trim_space ''Origin'' = ''Origin''" by (rule trim_space_all_graphic) (simp add: graphic_def)
  then have "varies (addVary ''Origin'' ?f) ''Origin''" by (intro addVary_varies) simp_all
  then show ?thesis unfolding cors_headers_def Let_def by (simp add: addVary_keeps)
qed

text \<open>The invariant of a writer: all it has sent is what the policy says for its origin.\<close>

definition sent_ok :: "Policy \<Rightarrow> string \<Rightarrow> bool \<Rightarrow> int \<times> headers \<Rightarrow> bool" where
  "sent_ok p origin preflight sh \<longleftrightarrow>
     varies (snd sh) ''Origin''
     \<and> (\<forall>nv\<in>set (snd sh). is_cors_name (fst nv) \<longrightarrow> cors_header_ok p origin preflight (fst sh) nv)"

definition writer_ok :: "Policy \<Rightarrow> string \<Rightarrow> bool \<Rightarrow> responseWriter \<Rightarrow> bool" where
  "writer_ok p origin preflight w \<longleftrightarrow>
     rw_origin w = origin \<and> rw_preflight w = preflight \<and> list_all (sent_ok p origin preflight) (rw_sent w)"

lemma writer_ok_WriteHeader: "writer_ok p origin pf w \<Longrightarrow> writer_ok p origin pf (rw_WriteHeader p status w)"
  by (auto simp: writer_ok_def rw_WriteHeader_def Let_def sent_ok_def cors_headers_vary intro: cors_headers_ok)

lemma writer_ok_header [simp]: "writer_ok p origin pf (w\<lparr>rw_header := h\<rparr>) = writer_ok p origin pf w"
  by (simp add: writer_ok_def)

lemma writer_ok_Write: "writer_ok p origin pf w \<Longrightarrow> writer_ok p origin pf (rw_Write p data w)"
  using writer_ok_WriteHeader [of p origin pf w 200] by (auto simp: rw_Write_def Let_def writer_ok_def)

lemma writer_ok_Error: "writer_ok p origin pf w \<Longrightarrow> writer_ok p origin pf (http_Error p msg code w)"
  by (simp add: http_Error_def Let_def writer_ok_Write writer_ok_WriteHeader)

lemma writer_ok_written [simp]: "writer_ok p origin pf (w\<lparr>rw_written := b\<rparr>) = writer_ok p origin pf w"
  by (simp add: writer_ok_def)

lemma writer_ok_act: "writer_ok p origin pf w \<Longrightarrow> writer_ok p origin pf (app_act p a w)"
  by (cases a) (simp_all add: writer_ok_WriteHeader writer_ok_Write rw_FlushError_def rw_Hijack_def)

lemma writer_ok_acts: "writer_ok p origin pf w \<Longrightarrow> writer_ok p origin pf (fold (app_act p) acts w)"
  by (induction acts arbitrary: w) (simp_all add: writer_ok_act)

lemma rw_app_frame [simp]:
  "rw_app (rw_WriteHeader p status w) = rw_app w" "rw_app (rw_Write p data w) = rw_app w"
  "rw_app (http_Error p msg code w) = rw_app w"
  by (simp_all add: rw_WriteHeader_def rw_Write_def http_Error_def Let_def)

text \<open>A cross-origin request the policy accepts, or one to the server's own origin.\<close>

definition origin_allowed :: "(string \<Rightarrow> origin_url option) \<Rightarrow> Policy \<Rightarrow> request \<Rightarrow> bool \<Rightarrow> bool" where
  "origin_allowed url_parse p r same \<longleftrightarrow>
     h_values (rq_header r) ''Origin'' = [h_get (rq_header r) ''Origin'']
     \<and> (\<exists>o'. normalizeOrigin url_parse (h_get (rq_header r) ''Origin'') = Inr o'
          \<and> (if same then normalizeOrigin url_parse (target_origin url_parse r) = Inr o' else o' \<in> set (po_origins p)))"

definition is_preflight :: "request \<Rightarrow> bool" where
  "is_preflight r \<longleftrightarrow> rq_method r = ''OPTIONS'' \<and> h_get (rq_header r) ''Access-Control-Request-Method'' \<noteq> []"

lemma rw_frame [simp]:
  "rw_origin (rw_WriteHeader p status w) = rw_origin w" "rw_preflight (rw_WriteHeader p status w) = rw_preflight w"
  "rw_origin (rw_Write p data w) = rw_origin w" "rw_preflight (rw_Write p data w) = rw_preflight w"
  "rw_origin (http_Error p msg code w) = rw_origin w" "rw_preflight (http_Error p msg code w) = rw_preflight w"
  by (simp_all add: rw_WriteHeader_def rw_Write_def http_Error_def Let_def)

lemma new_writer_ok: "writer_ok p [] False (new_writer h)"
  by (simp add: writer_ok_def new_writer_def)

lemma origins_single:
  "length (h_values h n) = 1 \<Longrightarrow> h_values h n = [h_get h n]"
  by (cases "h_values h n") (simp_all add: h_get_def)

lemma normalizeOrigin_nonempty: "normalizeOrigin url_parse v \<noteq> Inr []"
  by (auto simp: normalizeOrigin_def Let_def split: option.splits if_splits)

text \<open>What \<^verbatim>\<open>Prepare\<close> leaves behind.\<close>

definition prepared :: "(string \<Rightarrow> origin_url option) \<Rightarrow> Policy \<Rightarrow> request \<Rightarrow> responseWriter \<Rightarrow> bool \<Rightarrow> bool" where
  "prepared url_parse p r w passed \<longleftrightarrow>
     writer_ok p (rw_origin w) (rw_preflight w) w \<and> \<not> rw_app w
     \<and> (rw_origin w \<noteq> [] \<longrightarrow> rw_origin w = h_get (rq_header r) ''Origin'' \<and> rw_preflight w = is_preflight r
          \<and> (\<exists>same. origin_allowed url_parse p r same))
     \<and> (passed \<longrightarrow> h_values (rq_header r) ''Origin'' = []
          \<or> origin_allowed url_parse p r True
          \<or> origin_allowed url_parse p r False \<and> (is_preflight r \<or> rq_method r \<in> set (po_methods p)))"

lemma prepare_prepared:
  assumes "Prepare url_parse p r (target_origin url_parse r) (new_writer h) = (Some w, passed)"
  shows "prepared url_parse p r w passed"
proof -
  let ?origins = "h_values (rq_header r) ''Origin''"
  let ?origin = "normalizeOrigin url_parse (h_get (rq_header r) ''Origin'')"
  let ?target = "case normalizeOrigin url_parse (target_origin url_parse r) of Inl _ \<Rightarrow> [] | Inr t \<Rightarrow> t"
  let ?w = "(new_writer h)\<lparr>rw_origin := h_get (rq_header r) ''Origin'', rw_preflight := is_preflight r\<rparr>"
  have fresh: "writer_ok p (rw_origin ?w) (rw_preflight ?w) ?w" "\<not> rw_app ?w" "writer_ok p [] False (new_writer h)"
    "\<not> rw_app (new_writer h)" "rw_origin (new_writer h) = []" "rw_preflight (new_writer h) = False"
    by (simp_all add: new_writer_def writer_ok_def)
  consider (none) "?origins = []" "w = new_writer h"
    | (bad) "w = http_Error p ''Browser origin is not allowed'' 403 (new_writer h)" "\<not> passed"
    | (refused) "length ?origins = 1" "is_ok ?origin" "?origin \<in> Inr ` set (po_origins p)" "\<not> passed"
        "w = http_Error p ''Browser method is not allowed'' 403 ?w"
    | (ok) "length ?origins = 1" "is_ok ?origin" "w = ?w"
        "?origin = Inr ?target \<or> ?origin \<in> Inr ` set (po_origins p) \<and> (is_preflight r \<or> rq_method r \<in> set (po_methods p))"
    using assms unfolding Prepare_def Let_def is_preflight_def [symmetric] by (auto split: if_splits)
  then show ?thesis
  proof cases
    case none
    with fresh show ?thesis by (simp add: prepared_def)
  next
    case bad
    with fresh show ?thesis by (simp add: prepared_def writer_ok_Error)
  next
    case refused
    then have "origin_allowed url_parse p r False"
      using origins_single by (auto simp: origin_allowed_def)
    with refused fresh show ?thesis by (auto simp: prepared_def writer_ok_Error)
  next
    case ok
    then have "origin_allowed url_parse p r True
        \<or> origin_allowed url_parse p r False \<and> (is_preflight r \<or> rq_method r \<in> set (po_methods p))"
      using origins_single normalizeOrigin_nonempty [of url_parse "h_get (rq_header r) ''Origin''"]
      by (auto simp: origin_allowed_def is_ok_iff split: sum.splits)
    with ok fresh show ?thesis by (auto simp: prepared_def)
  qed
qed


definition sample_origin :: "string \<Rightarrow> origin_url option" where
  "sample_origin v =
    (if has_prefix v ''https://'' then
       Some \<lparr>ou_scheme = ''https'', ou_host = drop 8 v, ou_hostname = drop 8 v, ou_port = [], ou_user = False,
             ou_path = [], ou_query = [], ou_force_query = False, ou_fragment = []\<rparr>
     else None)"

definition sample_policy :: Policy where
  "sample_policy =
    \<lparr>po_origins = [''https://app''], po_methods = [''GET''], po_headers = [''authorization''],
     po_allowMethods = ''GET'', po_allowHeaders = ''Authorization'', po_exposeHeaders = [],
     po_credentials = False, po_maxAge = ''0''\<rparr>"

definition sample_request :: request where
  "sample_request =
    \<lparr>rq_method = ''GET'', rq_header = [(''Origin'', [''https://app''])], rq_tls = True, rq_host = ''api''\<rparr>"

definition sample_response :: responseWriter where
  "sample_response =
    the (Wrap sample_origin (\<lambda>_. True) sample_policy
      [SetHeader ''Access-Control-Allow-Origin'' [''*''], AppWriteHeader 200, AppWrite ''ok''] sample_request (new_writer []))"


definition preflight_allowed :: "(string \<Rightarrow> bool) \<Rightarrow> Policy \<Rightarrow> request \<Rightarrow> bool" where
  "preflight_allowed valid_field p r \<longleftrightarrow>
     h_values (rq_header r) ''Access-Control-Request-Method'' = [h_get (rq_header r) ''Access-Control-Request-Method'']
     \<and> h_get (rq_header r) ''Access-Control-Request-Method'' \<in> set (po_methods p)
     \<and> preflight_headers_ok valid_field p r"

text \<open>
  C34. A preflight from an allowed origin gets exactly one answer, which the application has no
  part in: 204 with the policy's methods, headers and lifetime when the one method asked for and
  all headers asked for are allowed, and 403 otherwise.
\<close>

theorem cors_preflight_decision:
  assumes "is_preflight r" "h_get (rq_header r) ''Origin'' \<noteq> []" "origin_allowed url_parse p r same"
  shows "\<exists>w hs. Wrap url_parse valid_field p acts r (new_writer h) = Some w \<and> \<not> rw_app w
    \<and> rw_sent w = [(if preflight_allowed valid_field p r then 204 else 403, hs)]
    \<and> h_values hs ''Access-Control-Allow-Origin'' = [h_get (rq_header r) ''Origin'']
    \<and> (preflight_allowed valid_field p r \<longrightarrow>
         h_values hs ''Access-Control-Allow-Methods'' = [po_allowMethods p]
       \<and> h_values hs ''Access-Control-Allow-Headers'' = [po_allowHeaders p]
       \<and> h_values hs ''Access-Control-Max-Age'' = [po_maxAge p])"
proof -
  let ?w = "(new_writer h)\<lparr>rw_origin := h_get (rq_header r) ''Origin'', rw_preflight := True\<rparr>"
  have "rq_method r = ''OPTIONS''" "h_get (rq_header r) ''Access-Control-Request-Method'' \<noteq> []"
    using assms(1) by (simp_all add: is_preflight_def)
  moreover obtain o' where "h_values (rq_header r) ''Origin'' = [h_get (rq_header r) ''Origin'']"
    "normalizeOrigin url_parse (h_get (rq_header r) ''Origin'') = Inr o'"
    "normalizeOrigin url_parse (target_origin url_parse r) = Inr o' \<or> o' \<in> set (po_origins p)"
    using assms(3) by (auto simp: origin_allowed_def split: if_splits)
  ultimately have prep: "Prepare url_parse p r (target_origin url_parse r) (new_writer h) = (Some ?w, True)"
    by (auto simp: Prepare_def Let_def)
  let ?e = "http_Error p ''CORS preflight is not allowed'' 403 ?w"
  show ?thesis
  proof (cases "preflight_allowed valid_field p r")
    case True
    with assms(1,2) have "Preflight valid_field p r ?w = (rw_WriteHeader p 204 ?w, True)"
      by (auto simp: Preflight_def Let_def is_preflight_def preflight_allowed_def)
    with prep have "Wrap url_parse valid_field p acts r (new_writer h) = Some (rw_WriteHeader p 204 ?w)"
      by (simp add: Wrap_def)
    then show ?thesis using True assms(2)
      by (simp add: rw_WriteHeader_def Let_def new_writer_def cors_headers_def)
  next
    case False
    with assms(1,2) have "Preflight valid_field p r ?w = (?e, True)"
      using origins_single [of "rq_header r" "''Access-Control-Request-Method''"]
      by (auto simp: Preflight_def Let_def is_preflight_def preflight_allowed_def)
    with prep have "Wrap url_parse valid_field p acts r (new_writer h) = Some ?e"
      by (simp add: Wrap_def)
    then show ?thesis using False assms(2)
      by (simp add: http_Error_def rw_Write_def rw_WriteHeader_def Let_def new_writer_def cors_headers_def)
  qed
qed

theorem cors_preflight_decision_witness:
  "\<exists>w hs. Wrap sample_origin (\<lambda>_. True) sample_policy []
      (sample_request\<lparr>rq_method := ''OPTIONS'', rq_header := [(''Origin'', [''https://app'']), (''Access-Control-Request-Method'', [''PUT''])]\<rparr>)
      (new_writer []) = Some w \<and> rw_sent w = [(403, hs)]"
proof -
  let ?r = "sample_request\<lparr>rq_method := ''OPTIONS'', rq_header := [(''Origin'', [''https://app'']), (''Access-Control-Request-Method'', [''PUT''])]\<rparr>"
  have "is_preflight ?r" "h_get (rq_header ?r) ''Origin'' \<noteq> []" "\<not> preflight_allowed (\<lambda>_. True) sample_policy ?r"
    "normalizeOrigin sample_origin (h_get (rq_header ?r) ''Origin'') = Inr ''https://app''"
    by code_simp+
  moreover from this(4) have "origin_allowed sample_origin sample_policy ?r False"
    by (simp add: origin_allowed_def sample_policy_def h_values_def h_get_def)
  ultimately show ?thesis
    using cors_preflight_decision [of ?r sample_origin sample_policy False "\<lambda>_. True" "[]" "[]"] by auto
qed


section \<open>Normalized configurations\<close>

lemma normalize_values_Inr:
  assumes "normalize_values norm n vs = Inr (vs', m)"
  shows "m = n + sum_list (map length vs) \<and> (vs \<noteq> [] \<longrightarrow> m \<le> 16384) \<and> list_all2 (\<lambda>v v'. norm v = Inr v') vs vs'"
  using assms by (induction vs arbitrary: n vs') (force split: if_splits simp: Let_def)+

lemma normalize_group_Inr:
  assumes "normalize_group norm n vs = Inr (vs', m)" "n \<le> 16384"
  shows "length vs' \<le> 128 \<and> m = n + sum_list (map length vs) \<and> m \<le> 16384
    \<and> list_all2 (\<lambda>v v'. norm v = Inr v') vs vs'"
  using assms normalize_values_Inr [of norm n vs vs' m]
  by (cases "vs = []") (auto simp: normalize_group_def list_all2_lengthD split: if_splits)

lemma list_all2_rangeI:
  assumes "list_all2 R xs ys" "\<And>x y. R x y \<Longrightarrow> Q y"
  shows "list_all Q ys"
  using assms by (induction rule: list_all2_induct) auto

definition method_explicit :: "string \<Rightarrow> bool" where
  "method_explicit m \<longleftrightarrow> to_upper m = m \<and> m \<notin> set [''CONNECT'', ''TRACE'', ''TRACK'']"



end
