(* ===== verification/Hex.thy ===== *)
theory Hex
  imports Prelude
begin

text \<open>Lower-case hexadecimal text, as \<^verbatim>\<open>encoding/hex\<close> writes it.\<close>

definition hex_encode :: "bytes \<Rightarrow> string" where
  "hex_encode b =
    concat (map (\<lambda>c. [''0123456789abcdef'' ! (nat_of_byte c div 16), ''0123456789abcdef'' ! (nat_of_byte c mod 16)]) b)"

text \<open>The same by bits, for evaluation.\<close>

definition hex_nibble :: "bool \<Rightarrow> bool \<Rightarrow> bool \<Rightarrow> bool \<Rightarrow> char" where
  "hex_nibble a b c d =
    (if a then if b then if c then if d then CHR ''f'' else CHR ''e'' else if d then CHR ''d'' else CHR ''c''
          else if c then if d then CHR ''b'' else CHR ''a'' else if d then CHR ''9'' else CHR ''8''
     else if b then if c then if d then CHR ''7'' else CHR ''6'' else if d then CHR ''5'' else CHR ''4''
          else if c then if d then CHR ''3'' else CHR ''2'' else if d then CHR ''1'' else CHR ''0'')"

lemma hex_encode_code [code]:
  "hex_encode [] = []"
  "hex_encode (Char b0 b1 b2 b3 b4 b5 b6 b7 # b) = hex_nibble b7 b6 b5 b4 # hex_nibble b3 b2 b1 b0 # hex_encode b"
  by (simp add: hex_encode_def)
     (cases b0; cases b1; cases b2; cases b3; cases b4; cases b5; cases b6; cases b7;
      simp add: hex_encode_def hex_nibble_def)

lemma length_hex_encode: "length (hex_encode b) = 2 * length b"
  by (induction b) (simp_all add: hex_encode_def)

lemma hex_nibble_chars: "hex_nibble a b c d \<in> set ''0123456789abcdef''"
  by (simp add: hex_nibble_def)

lemma hex_encode_chars: "set (hex_encode b) \<subseteq> set ''0123456789abcdef''"
proof (induction b)
  case (Cons x b)
  then show ?case
    by (cases x) (simp only: hex_encode_code list.set insert_subset hex_nibble_chars [simplified list.set] simp_thms)
qed (simp add: hex_encode_code)

end
