(* ===== verification/Tunnel.thy ===== *)
theory Tunnel
  imports Cors Hex
begin

text \<open>
  Tunnel properties (\<^verbatim>\<open>tunnel_properties.go\<close>, \<^verbatim>\<open>helpers.go\<close>, \<^verbatim>\<open>stable_domains.go\<close>): validation of
  the properties of a new tunnel, their wire form, the addresses that are shown for them, and
  generated stable domains.

  Pointers are options and copies are values; the types the code distinguishes by name only
  (tunnel type, protocol, TLS mode, HTTP version) are strings, as on the wire. The code looks at
  slices by their length only, so a nil slice is the empty list. The URL parser, the IP parser, the
  header-name predicate of \<^verbatim>\<open>httpguts\<close> and the random source are arguments.
\<close>

section \<open>Properties\<close>

record TunnelProperties =
  tp_ID :: "string option"
  tp_CreationDate :: "int option"
  tp_Name :: "string option"
  tp_Type :: "string option"
  tp_Publish :: "bool option"
  tp_Protocol :: "string option"
  tp_Labels :: "(string \<times> string) list"
  tp_GeoIP :: "string list"
  tp_TrustedIPs :: "string list"
  tp_Host :: "string option"
  tp_Hostname :: "string option"
  tp_Port :: "32 word option"
  tp_TLSMode :: "string option"
  tp_TLSALPNs :: "string list"
  tp_TLSMinVersion :: "string option"
  tp_TLSCiphers :: "string list"
  tp_MTLSAuth :: "bool option"
  tp_HTTPVersion :: "string option"
  tp_HTTPCORS :: "Config option"
  tp_HTTPUseTLS :: "bool option"
  tp_UpstreamTLS :: "bool option"
  tp_DatagramGuaranteedDelivery :: "bool option"
  tp_AllowCrossRegionRouting :: "bool option"
  tp_TokenAuth :: "bool option"
  tp_RstreamAuth :: "bool option"
  tp_ChallengeMode :: "bool option"

abbreviation ProtocolTLS :: string where "ProtocolTLS \<equiv> ''tls''"
abbreviation ProtocolTCP :: string where "ProtocolTCP \<equiv> ''tcp''"
abbreviation ProtocolDTLS :: string where "ProtocolDTLS \<equiv> ''dtls''"
abbreviation ProtocolQUIC :: string where "ProtocolQUIC \<equiv> ''quic''"
abbreviation ProtocolHTTP :: string where "ProtocolHTTP \<equiv> ''http''"
abbreviation ProtocolWebTTY :: string where "ProtocolWebTTY \<equiv> ''webtty''"

datatype tunnel_error =
    CORSNotPublishedHTTP
  | CORSInvalid cors_error
  | PortRequiresTCP
  | PortRange
  | TCPNotBytestream
  | TCPUnpublished
  | TCPOptions

text \<open>The options a published TCP tunnel does not accept.\<close>

definition tcp_options_set :: "TunnelProperties \<Rightarrow> bool" where
  "tcp_options_set p \<longleftrightarrow>
     tp_Hostname p \<noteq> None \<or> tp_TLSMode p \<noteq> None \<or> 0 < length (tp_TLSALPNs p) \<or> tp_TLSMinVersion p \<noteq> None
     \<or> 0 < length (tp_TLSCiphers p) \<or> tp_MTLSAuth p \<noteq> None \<or> tp_HTTPVersion p \<noteq> None \<or> tp_HTTPUseTLS p \<noteq> None
     \<or> tp_UpstreamTLS p \<noteq> None \<or> tp_DatagramGuaranteedDelivery p \<noteq> None \<or> tp_TokenAuth p \<noteq> None
     \<or> tp_RstreamAuth p \<noteq> None \<or> tp_ChallengeMode p \<noteq> None"

definition normalize_cors ::
  "(string \<Rightarrow> origin_url option) \<Rightarrow> (string \<Rightarrow> bool) \<Rightarrow> TunnelProperties \<Rightarrow> tunnel_error + TunnelProperties" where
  "normalize_cors url_parse valid_field p =
    (case tp_HTTPCORS p of
       None \<Rightarrow> Inr p
     | Some c \<Rightarrow>
         if tp_Publish p = Some False \<or> tp_Protocol p \<noteq> None \<and> tp_Protocol p \<noteq> Some ProtocolHTTP
         then Inl CORSNotPublishedHTTP
         else (case Normalize url_parse valid_field c of
                 Inl e \<Rightarrow> Inl (CORSInvalid e)
               | Inr c \<Rightarrow> Inr (p\<lparr>tp_HTTPCORS := Some c\<rparr>)))"

definition normalizeCreateTunnelProperties ::
  "(string \<Rightarrow> origin_url option) \<Rightarrow> (string \<Rightarrow> bool) \<Rightarrow> TunnelProperties \<Rightarrow> tunnel_error + TunnelProperties" where
  "normalizeCreateTunnelProperties url_parse valid_field p =
    rbind (normalize_cors url_parse valid_field p) (\<lambda>p.
      if tp_Port p \<noteq> None \<and> tp_Protocol p \<noteq> Some ProtocolTCP then Inl PortRequiresTCP
      else if tp_Protocol p \<noteq> Some ProtocolTCP then Inr p
      else if (case tp_Port p of None \<Rightarrow> False | Some port \<Rightarrow> port = 0 \<or> 65535 < port) then Inl PortRange
      else if tp_Type p \<noteq> None \<and> tp_Type p \<noteq> Some ''bytestream'' then Inl TCPNotBytestream
      else if tp_Publish p = Some False then Inl TCPUnpublished
      else if tcp_options_set p then Inl TCPOptions
      else Inr (p\<lparr>tp_Type := Some ''bytestream'', tp_Publish := Some True\<rparr>))"


section \<open>Wire form\<close>

text \<open>
  The messages of the control protocol. A wrapper message is an option of its value, a timestamp is
  the pair of its seconds and nanoseconds, a point in time is its number of nanoseconds since 1970.
\<close>

record HttpCors =
  hc_AllowedOrigins :: "string list"
  hc_AllowedMethods :: "string list"
  hc_AllowedHeaders :: "string list"
  hc_ExposedHeaders :: "string list"
  hc_AllowCredentials :: bool
  hc_MaxAge :: int

record TunnelPropertiesPb =
  pb_Id :: "string option"
  pb_CreationDate :: "(int \<times> int) option"
  pb_Name :: "string option"
  pb_Type :: "string option"
  pb_Publish :: "bool option"
  pb_Protocol :: "string option"
  pb_Labels :: "(string \<times> string) list"
  pb_Geoip :: "string list"
  pb_TrustedIps :: "string list"
  pb_Host :: "string option"
  pb_Hostname :: "string option"
  pb_Port :: "32 word option"
  pb_TlsMode :: "string option"
  pb_TlsAlpns :: "string list"
  pb_TlsMinVersion :: "string option"
  pb_TlsCiphers :: "string list"
  pb_MtlsAuth :: "bool option"
  pb_HttpVersion :: "string option"
  pb_HttpCors :: "HttpCors option"
  pb_HttpUseTls :: "bool option"
  pb_UpstreamTls :: "bool option"
  pb_DatagramGuaranteedDelivery :: "bool option"
  pb_AllowCrossRegionRouting :: "bool option"
  pb_TokenAuth :: "bool option"
  pb_RstreamAuth :: "bool option"
  pb_ChallengeMode :: "bool option"

definition timestamp_of_time :: "int \<Rightarrow> int \<times> int" where
  "timestamp_of_time t = (t div 1000000000, t mod 1000000000)"

definition time_of_timestamp :: "int \<times> int \<Rightarrow> int" where
  "time_of_timestamp = (\<lambda>(seconds, nanos). seconds * 1000000000 + nanos)"

definition httpCORSFromPb :: "HttpCors \<Rightarrow> Config" where
  "httpCORSFromPb v =
    \<lparr>AllowedOrigins = hc_AllowedOrigins v, AllowedMethods = hc_AllowedMethods v, AllowedHeaders = hc_AllowedHeaders v,
     ExposedHeaders = hc_ExposedHeaders v, AllowCredentials = hc_AllowCredentials v, MaxAge = hc_MaxAge v\<rparr>"

definition httpCORSToPb :: "Config \<Rightarrow> HttpCors" where
  "httpCORSToPb v =
    \<lparr>hc_AllowedOrigins = AllowedOrigins v, hc_AllowedMethods = AllowedMethods v, hc_AllowedHeaders = AllowedHeaders v,
     hc_ExposedHeaders = ExposedHeaders v, hc_AllowCredentials = AllowCredentials v, hc_MaxAge = MaxAge v\<rparr>"

definition toTunnelProperties :: "TunnelPropertiesPb \<Rightarrow> TunnelProperties" where
  "toTunnelProperties m =
    \<lparr>tp_ID = pb_Id m,
     tp_CreationDate = map_option time_of_timestamp (pb_CreationDate m),
     tp_Name = pb_Name m,
     tp_Type = pb_Type m,
     tp_Publish = pb_Publish m,
     tp_Protocol = pb_Protocol m,
     tp_Labels = pb_Labels m,
     tp_GeoIP = pb_Geoip m,
     tp_TrustedIPs = pb_TrustedIps m,
     tp_Host = pb_Host m,
     tp_Hostname = pb_Hostname m,
     tp_Port = pb_Port m,
     tp_TLSMode = pb_TlsMode m,
     tp_TLSALPNs = pb_TlsAlpns m,
     tp_TLSMinVersion = pb_TlsMinVersion m,
     tp_TLSCiphers = pb_TlsCiphers m,
     tp_MTLSAuth = pb_MtlsAuth m,
     tp_HTTPVersion = pb_HttpVersion m,
     tp_HTTPCORS = map_option httpCORSFromPb (pb_HttpCors m),
     tp_HTTPUseTLS = pb_HttpUseTls m,
     tp_UpstreamTLS = pb_UpstreamTls m,
     tp_DatagramGuaranteedDelivery = pb_DatagramGuaranteedDelivery m,
     tp_AllowCrossRegionRouting = pb_AllowCrossRegionRouting m,
     tp_TokenAuth = pb_TokenAuth m,
     tp_RstreamAuth = pb_RstreamAuth m,
     tp_ChallengeMode = pb_ChallengeMode m\<rparr>"

definition toTunnelPropertiesPb :: "TunnelProperties \<Rightarrow> TunnelPropertiesPb" where
  "toTunnelPropertiesPb m =
    \<lparr>pb_Id = tp_ID m,
     pb_CreationDate = map_option timestamp_of_time (tp_CreationDate m),
     pb_Name = tp_Name m,
     pb_Type = tp_Type m,
     pb_Publish = tp_Publish m,
     pb_Protocol = tp_Protocol m,
     pb_Labels = tp_Labels m,
     pb_Geoip = tp_GeoIP m,
     pb_TrustedIps = tp_TrustedIPs m,
     pb_Host = tp_Host m,
     pb_Hostname = tp_Hostname m,
     pb_Port = tp_Port m,
     pb_TlsMode = tp_TLSMode m,
     pb_TlsAlpns = tp_TLSALPNs m,
     pb_TlsMinVersion = tp_TLSMinVersion m,
     pb_TlsCiphers = tp_TLSCiphers m,
     pb_MtlsAuth = tp_MTLSAuth m,
     pb_HttpVersion = tp_HTTPVersion m,
     pb_HttpCors = map_option httpCORSToPb (tp_HTTPCORS m),
     pb_HttpUseTls = tp_HTTPUseTLS m,
     pb_UpstreamTls = tp_UpstreamTLS m,
     pb_DatagramGuaranteedDelivery = tp_DatagramGuaranteedDelivery m,
     pb_AllowCrossRegionRouting = tp_AllowCrossRegionRouting m,
     pb_TokenAuth = tp_TokenAuth m,
     pb_RstreamAuth = tp_RstreamAuth m,
     pb_ChallengeMode = tp_ChallengeMode m\<rparr>"

lemma time_timestamp [simp]: "time_of_timestamp (timestamp_of_time t) = t"
  by (simp add: time_of_timestamp_def timestamp_of_time_def)

lemma httpCORS_pb [simp]: "httpCORSFromPb (httpCORSToPb c) = c"
  by (simp add: httpCORSFromPb_def httpCORSToPb_def)

theorem tunnel_properties_roundtrip: "toTunnelProperties (toTunnelPropertiesPb p) = p"
  by (simp add: toTunnelProperties_def toTunnelPropertiesPb_def option.map_comp comp_def option.map_ident)


section \<open>Addresses\<close>

definition publishedHost :: "TunnelProperties \<Rightarrow> string option" where
  "publishedHost p =
    (case map_option trim_space (tp_Hostname p) of
       Some (c # host) \<Rightarrow>
         let host = c # host;
             port = (case tp_Port p of None \<Rightarrow> 443 | Some port \<Rightarrow> if 0 < port then port else 443) in
         if tp_Protocol p = Some ProtocolTLS \<or> tp_Protocol p = Some ProtocolTCP \<or> port \<noteq> 443
         then Some (join_host_port host (format_nat (unat port)))
         else Some host
     | _ \<Rightarrow>
       (case map_option trim_space (tp_Host p) of
          Some (c # host) \<Rightarrow> Some (c # host)
        | _ \<Rightarrow> None))"

definition FormatForwardingAddr :: "TunnelProperties \<Rightarrow> string option" where
  "FormatForwardingAddr p =
    (case publishedHost p of
       Some host \<Rightarrow>
         Some (if tp_Protocol p = Some ProtocolHTTP then ''https://'' @ host
               else if tp_Protocol p = Some ProtocolWebTTY then ''https://'' @ host @ '' (webtty)''
               else if tp_Protocol p = Some ProtocolTLS then host @ '' (tls)''
               else if tp_Protocol p = Some ProtocolTCP then host @ '' (tcp)''
               else if tp_Protocol p = Some ProtocolDTLS then host @ '' (dtls)''
               else if tp_Protocol p = Some ProtocolQUIC then host @ '' (quic)''
               else host)
     | None \<Rightarrow>
       (case tp_Name p of
          Some name \<Rightarrow> Some (''rstrm://'' @ name @ '' (unpublished)'')
        | None \<Rightarrow> map_option (\<lambda>i. ''rstrm://'' @ i @ '' (unpublished)'') (tp_ID p)))"

definition tunnelUsesUpstreamTLS :: "TunnelProperties \<Rightarrow> bool" where
  "tunnelUsesUpstreamTLS p = (case tp_UpstreamTLS p of Some b \<Rightarrow> b | None \<Rightarrow> flag_set (tp_HTTPUseTLS p))"

definition FormatForwardedHostPort :: "string \<Rightarrow> string \<Rightarrow> TunnelProperties \<Rightarrow> string" where
  "FormatForwardedHostPort host port p =
    (let isHTTP = (tp_Protocol p = Some ProtocolHTTP);
         isH3 = (tp_HTTPVersion p = Some ''h3'');
         useHTTPS = (isHTTP \<and> (isH3 \<or> tunnelUsesUpstreamTLS p));
         scheme = (if isHTTP then if useHTTPS then ''https://'' else ''http://'' else []);
         b = scheme @ host
             @ (if \<not> (\<not> useHTTPS \<and> isHTTP \<and> port = ''80'' \<or> useHTTPS \<and> port = ''443'') then '':'' @ port else []) in
     if isHTTP \<and> tp_HTTPVersion p \<noteq> None then
       b @ (if \<not> useHTTPS \<or> isH3 then '' ('' @ the (tp_HTTPVersion p) @ '')'' else [])
     else if tp_Protocol p = Some ProtocolTLS then
       b @ (if tp_TLSMode p = Some ''passthrough'' then '' (tls)''
            else if flag_set (tp_UpstreamTLS p) then '' (tls)'' else '' (tcp)'')
     else if tp_Protocol p = Some ProtocolTCP then b @ '' (tcp)''
     else if tp_Protocol p = Some ProtocolDTLS then
       b @ (if flag_set (tp_UpstreamTLS p) then '' (dtls)'' else '' (udp)'')
     else if tp_Protocol p = Some ProtocolQUIC then b @ '' (quic)''
     else if tp_Protocol p = Some ProtocolWebTTY then b @ '' (webtty)''
     else b)"

datatype tcp_addr_error = NoIP | NoPort

definition FormatForwardedAddr ::
  "(bytes \<Rightarrow> string) \<Rightarrow> bytes \<Rightarrow> int \<Rightarrow> TunnelProperties \<Rightarrow> tcp_addr_error + string" where
  "FormatForwardedAddr ip_string ip port p =
    (if ip = [] then Inl NoIP
     else if port = 0 then Inl NoPort
     else Inr (FormatForwardedHostPort (ip_string ip) (itoa port) p))"

text \<open>The host and the port of an address; an empty one is absent.\<close>

definition non_empty :: "string \<Rightarrow> string option" where
  "non_empty s = (if s = [] then None else Some s)"

definition splitHostPort :: "string \<Rightarrow> addr_error + (string option \<times> string option)" where
  "splitHostPort addr =
    (case split_host_port addr of
       Inr (host, port) \<Rightarrow> Inr (non_empty host, non_empty port)
     | Inl e \<Rightarrow> if CHR '':'' \<in> set addr then Inl e else Inr (non_empty addr, None))"


section \<open>Stable domains\<close>

text \<open>The regular expression of a label: 1 to 63 lower-case letters, digits and inner hyphens.\<close>

definition label_char :: "char \<Rightarrow> bool" where
  "label_char c \<longleftrightarrow> is_digit c \<or> 97 \<le> nat_of_byte c \<and> nat_of_byte c \<le> 122"

definition stableDomainLabelRe :: "string \<Rightarrow> bool" where
  "stableDomainLabelRe s \<longleftrightarrow>
     s \<noteq> [] \<and> length s \<le> 63 \<and> label_char (hd s) \<and> label_char (last s)
     \<and> list_all (\<lambda>c. label_char c \<or> c = CHR ''-'') s"

definition trim_cutset :: "char list \<Rightarrow> string \<Rightarrow> string" where
  "trim_cutset cs s = rev (dropWhile (\<lambda>c. c \<in> set cs) (rev (dropWhile (\<lambda>c. c \<in> set cs) s)))"

text \<open>
  \<^verbatim>\<open>strings.ToLower\<close> on a host: besides the ASCII letters, two runes have an ASCII lower case, the
  Kelvin sign and the dotted capital I. Any other rune keeps bytes outside ASCII, which no label
  accepts.
\<close>

fun lower_host :: "string \<Rightarrow> string" where
  "lower_host (c # d # e # s) =
    (if c = CHR 0xE2 \<and> d = CHR 0x84 \<and> e = CHR 0xAA then CHR ''k'' # lower_host s
     else if c = CHR 0xC4 \<and> d = CHR 0xB0 then CHR ''i'' # lower_host (e # s)
     else lower_char c # lower_host (d # e # s))"
| "lower_host [c, d] = (if c = CHR 0xC4 \<and> d = CHR 0xB0 then ''i'' else [lower_char c, lower_char d])"
| "lower_host [c] = [lower_char c]"
| "lower_host [] = []"

definition engineHostname :: "(string \<Rightarrow> origin_url option) \<Rightarrow> (string \<Rightarrow> bool) \<Rightarrow> string \<Rightarrow> string" where
  "engineHostname url_parse is_ip engine =
    (let value = trim_space engine in
     if value = [] then []
     else
     let value = (if sublist ''://'' value
                  then (case url_parse value of None \<Rightarrow> value | Some u \<Rightarrow> ou_host u) else value);
         value = (case split_host_port value of Inl _ \<Rightarrow> value | Inr (host, _) \<Rightarrow> host);
         value = trim_cutset ''[]'' value;
         value = lower_host (trim_suffix (trim_space value) ''.'') in
     if is_ip value \<or> CHR '':'' \<in> set value then [] else value)"

definition validClusterDomain :: "string \<Rightarrow> bool" where
  "validClusterDomain domain = list_all stableDomainLabelRe (split_on (CHR ''.'') domain)"

text \<open>The four random bytes, or a failing source.\<close>

type_synonym byte4 = "byte \<times> byte \<times> byte \<times> byte"

definition randomStableDomainSlug :: "byte4 option \<Rightarrow> string option" where
  "randomStableDomainSlug random = map_option (\<lambda>(a, b, c, d). ''r'' @ hex_encode [a, b, c, d]) random"

text \<open>An error of the random source is \<^term>\<open>Inl ()\<close>; no domain for this engine is \<^term>\<open>Inr None\<close>.\<close>

definition GenerateStableDomain ::
  "(string \<Rightarrow> origin_url option) \<Rightarrow> (string \<Rightarrow> bool) \<Rightarrow> byte4 option \<Rightarrow> string \<Rightarrow> unit + string option" where
  "GenerateStableDomain url_parse is_ip random engine =
    (let host = engineHostname url_parse is_ip engine in
     if host = [] then Inr None
     else
     let labels = split_on (CHR ''.'') host in
     if length labels < 2 then Inr None
     else
     let projectEndpoint = labels ! 0;
         clusterDomain = join ''.'' (drop 1 labels) in
     if \<not> stableDomainLabelRe projectEndpoint \<or> \<not> validClusterDomain clusterDomain then Inr None
     else
     let maxSlugLen = 63 - int (length projectEndpoint) - 1 in
     if maxSlugLen < 9 then Inr None
     else
       (case randomStableDomainSlug random of
          None \<Rightarrow> Inl ()
        | Some slug \<Rightarrow>
            let slug = (if maxSlugLen < int (length slug) then take (nat maxSlugLen) slug else slug) in
            Inr (Some (slug @ ''-'' @ projectEndpoint @ ''.t.'' @ clusterDomain))))"

text \<open>For properties that are there; the code does nothing for a nil pointer.\<close>

definition MaybeSetGeneratedStableDomain ::
  "(string \<Rightarrow> origin_url option) \<Rightarrow> (string \<Rightarrow> bool) \<Rightarrow> byte4 option \<Rightarrow> string \<Rightarrow> TunnelProperties
     \<Rightarrow> unit + TunnelProperties" where
  "MaybeSetGeneratedStableDomain url_parse is_ip random engine p =
    (if tp_Hostname p \<noteq> None \<or> tp_Host p \<noteq> None then Inr p
     else if tp_Publish p = Some False then Inr p
     else if tp_Protocol p = Some ProtocolTCP then Inr p
     else rbind (GenerateStableDomain url_parse is_ip random engine) (\<lambda>hostname.
       case hostname of None \<Rightarrow> Inr p | Some h \<Rightarrow> Inr (p\<lparr>tp_Hostname := Some h\<rparr>)))"


section \<open>Generated names\<close>

text \<open>The parts of an engine host that a generated name is made of.\<close>

definition stable_parts :: "string \<Rightarrow> (string \<times> string) option" where
  "stable_parts host =
    (case cut_byte (CHR ''.'') host of
       Some (endpoint, cluster) \<Rightarrow>
         if stableDomainLabelRe endpoint \<and> length endpoint \<le> 53 \<and> validClusterDomain cluster
         then Some (endpoint, cluster) else None
     | None \<Rightarrow> None)"

definition stable_name :: "byte4 \<Rightarrow> string \<times> string \<Rightarrow> string" where
  "stable_name = (\<lambda>(a, b, c, d) (endpoint, cluster).
     ''r'' @ hex_encode [a, b, c, d] @ ''-'' @ endpoint @ ''.t.'' @ cluster)"

definition wants_stable_domain :: "TunnelProperties \<Rightarrow> bool" where
  "wants_stable_domain p \<longleftrightarrow>
     tp_Hostname p = None \<and> tp_Host p = None \<and> tp_Publish p \<noteq> Some False \<and> tp_Protocol p \<noteq> Some ProtocolTCP"

lemma label_char_graphic: "label_char c \<Longrightarrow> graphic c"
  by (auto simp: label_char_def is_digit_def graphic_def)

lemma graphic_hyphen: "graphic (CHR ''-'')"
  by (simp add: graphic_def)

lemma label_no_dot: "stableDomainLabelRe s \<Longrightarrow> CHR ''.'' \<notin> set s"
  by (auto simp: stableDomainLabelRe_def label_char_def is_digit_def list_all_iff)

lemma hex_label_char: "c \<in> set (hex_encode b) \<Longrightarrow> label_char c"
  using hex_encode_chars [of b] by (auto simp: label_char_def is_digit_def)

lemma stable_label:
  assumes "stableDomainLabelRe endpoint" "length endpoint \<le> 53"
  shows "stableDomainLabelRe (''r'' @ hex_encode [a, b, c, d] @ ''-'' @ endpoint)"
proof -
  have "list_all label_char (hex_encode [a, b, c, d])" by (auto simp: list_all_iff hex_label_char)
  moreover have "label_char (CHR ''r'')" by (simp add: label_char_def)
  ultimately show ?thesis
    using assms by (auto simp: stableDomainLabelRe_def length_hex_encode list_all_iff)
qed

lemma stable_name_labels:
  assumes "stable_parts host = Some parts"
  shows "list_all stableDomainLabelRe (split_on (CHR ''.'') (stable_name r parts))"
proof -
  obtain endpoint cluster where parts: "parts = (endpoint, cluster)" by (cases parts)
  with assms have ok: "stableDomainLabelRe endpoint" "length endpoint \<le> 53" "validClusterDomain cluster"
    by (auto simp: stable_parts_def split: option.splits if_splits)
  obtain a b c d where r: "r = (a, b, c, d)" by (cases r)
  let ?label = "''r'' @ hex_encode [a, b, c, d] @ ''-'' @ endpoint"
  have t: "stableDomainLabelRe ''t''" by (simp add: stableDomainLabelRe_def label_char_def)
  have "stable_name r parts = ?label @ CHR ''.'' # ''t'' @ CHR ''.'' # cluster"
    by (simp add: stable_name_def r parts)
  then have "split_on (CHR ''.'') (stable_name r parts) = ?label # ''t'' # split_on (CHR ''.'') cluster"
    by (simp only: split_on_append [OF label_no_dot [OF stable_label [OF ok(1,2)]]] split_on_append [OF label_no_dot [OF t]])
  then show ?thesis
    using ok stable_label [OF ok(1,2), of a b c d] t by (simp only: list.pred_inject validClusterDomain_def simp_thms)
qed

lemma stable_parts_labels:
  "stable_parts host =
    (let labels = split_on (CHR ''.'') host; endpoint = labels ! 0; cluster = join ''.'' (drop 1 labels) in
     if length labels < 2 \<or> \<not> stableDomainLabelRe endpoint \<or> \<not> validClusterDomain cluster
        \<or> 63 - int (length endpoint) - 1 < 9 then None
     else Some (endpoint, cluster))"
proof (cases "cut_byte (CHR ''.'') host")
  case None
  then have "CHR ''.'' \<notin> set host" by (simp add: cut_byte_None_iff)
  with None show ?thesis by (simp add: stable_parts_def split_on_no_sep)
next
  case (Some parts)
  obtain endpoint cluster where parts: "parts = (endpoint, cluster)" by (cases parts)
  with Some have host: "host = endpoint @ CHR ''.'' # cluster" "CHR ''.'' \<notin> set endpoint"
    by (simp_all add: cut_byte_Some_iff)
  have "\<not> length (endpoint # split_on (CHR ''.'') cluster) < 2"
    by (cases "split_on (CHR ''.'') cluster") simp_all
  then show ?thesis
    using Some host by (auto simp: stable_parts_def parts split_on_append join_split_on Let_def)
qed

theorem GenerateStableDomain_eq:
  "GenerateStableDomain url_parse is_ip random engine =
    (case stable_parts (engineHostname url_parse is_ip engine) of
       None \<Rightarrow> Inr None
     | Some parts \<Rightarrow> (case random of None \<Rightarrow> Inl () | Some r \<Rightarrow> Inr (Some (stable_name r parts))))"
  by (auto simp: GenerateStableDomain_def stable_parts_labels Let_def randomStableDomainSlug_def stable_name_def
        length_hex_encode split: option.splits)

lemma join_chars: "set (join sep ps) \<subseteq> set sep \<union> \<Union> (set ` set ps)"
  by (induction sep ps rule: join.induct) auto

lemma label_graphic: "stableDomainLabelRe s \<Longrightarrow> c \<in> set s \<Longrightarrow> graphic c"
  unfolding stableDomainLabelRe_def list_all_iff by (metis graphic_hyphen label_char_graphic)

lemma labels_trimmed:
  assumes "list_all stableDomainLabelRe (split_on (CHR ''.'') h)"
  shows "trim_space h = h"
proof (rule trim_space_all_graphic)
  have "graphic c" if "c \<in> set h" for c
  proof -
    have "c \<in> set (join ''.'' (split_on (CHR ''.'') h))" using that by (simp add: join_split_on)
    then have "c = CHR ''.'' \<or> (\<exists>s\<in>set (split_on (CHR ''.'') h). c \<in> set s)"
      using join_chars [of "''.''" "split_on (CHR ''.'') h"] by auto
    then show ?thesis using assms label_graphic by (auto simp: list_all_iff graphic_def)
  qed
  then show "list_all graphic h" by (simp add: list_all_iff)
qed

lemma labels_no_colon:
  assumes "list_all stableDomainLabelRe (split_on (CHR ''.'') h)"
  shows "CHR '':'' \<notin> set h"
proof
  assume "CHR '':'' \<in> set h"
  then have "CHR '':'' \<in> set (join ''.'' (split_on (CHR ''.'') h))" by (simp add: join_split_on)
  then obtain s where "s \<in> set (split_on (CHR ''.'') h)" "CHR '':'' \<in> set s"
    using join_chars [of "''.''" "split_on (CHR ''.'') h"] by auto
  with assms have "label_char (CHR '':'') \<or> CHR '':'' = CHR ''-''"
    unfolding list_all_iff stableDomainLabelRe_def by blast
  then show False by (simp add: label_char_def is_digit_def)
qed

lemma normalize_cors_hostname:
  assumes "normalize_cors url_parse valid_field p = Inr q"
  shows "normalize_cors url_parse valid_field (p\<lparr>tp_Hostname := h\<rparr>) = Inr (q\<lparr>tp_Hostname := h\<rparr>)"
    and "tp_Port q = tp_Port p" and "tp_Protocol q = tp_Protocol p" and "tp_Host q = tp_Host p"
    and "tp_Hostname q = tp_Hostname p"
proof -
  obtain c where q: "q = p\<lparr>tp_HTTPCORS := c\<rparr>"
    and *: "normalize_cors url_parse valid_field (p\<lparr>tp_Hostname := h\<rparr>) = Inr (p\<lparr>tp_HTTPCORS := c, tp_Hostname := h\<rparr>)"
  proof (cases "tp_HTTPCORS p")
    case None
    with assms that [of None] show ?thesis by (simp add: normalize_cors_def)
  next
    case (Some c)
    with assms obtain d where "Normalize url_parse valid_field c = Inr d"
      by (auto simp: normalize_cors_def split: sum.splits if_splits)
    with assms Some that [of "Some d"] show ?thesis by (simp add: normalize_cors_def split: if_splits)
  qed
  show "normalize_cors url_parse valid_field (p\<lparr>tp_Hostname := h\<rparr>) = Inr (q\<lparr>tp_Hostname := h\<rparr>)"
    using * by (simp add: q)
  show "tp_Port q = tp_Port p" "tp_Protocol q = tp_Protocol p" "tp_Host q = tp_Host p" "tp_Hostname q = tp_Hostname p"
    by (simp_all add: q)
qed

lemma normalize_hostname:
  assumes ok: "normalizeCreateTunnelProperties url_parse valid_field p = Inr q" and tcp: "tp_Protocol p \<noteq> Some ProtocolTCP"
  shows "normalizeCreateTunnelProperties url_parse valid_field (p\<lparr>tp_Hostname := h\<rparr>) = Inr (q\<lparr>tp_Hostname := h\<rparr>)"
    and "tp_Port q = None" and "tp_Protocol q = tp_Protocol p"
proof -
  obtain r where r: "normalize_cors url_parse valid_field p = Inr r"
    using ok by (auto simp: normalizeCreateTunnelProperties_def)
  note frame = normalize_cors_hostname [OF r]
  have q: "q = r" and port: "tp_Port r = None"
    using ok tcp frame(3) by (simp_all add: normalizeCreateTunnelProperties_def r split: if_splits)
  show "normalizeCreateTunnelProperties url_parse valid_field (p\<lparr>tp_Hostname := h\<rparr>) = Inr (q\<lparr>tp_Hostname := h\<rparr>)"
    using tcp frame(3) by (simp add: normalizeCreateTunnelProperties_def frame(1) q port)
  show "tp_Port q = None" "tp_Protocol q = tp_Protocol p" using frame port by (simp_all add: q)
qed

lemma normalize_keeps_hostname:
  assumes "normalizeCreateTunnelProperties url_parse valid_field p = Inr q"
  shows "tp_Hostname q = tp_Hostname p"
proof -
  obtain r where r: "normalize_cors url_parse valid_field p = Inr r"
    using assms by (auto simp: normalizeCreateTunnelProperties_def)
  have "tp_Hostname q = tp_Hostname r"
    using assms by (auto simp: normalizeCreateTunnelProperties_def r split: if_splits)
  then show ?thesis using normalize_cors_hostname(5) [OF r] by simp
qed

lemma format_443: "format_nat 443 = ''443''"
  by code_simp

lemma publishedHost_labels:
  assumes "list_all stableDomainLabelRe (split_on (CHR ''.'') h)" "tp_Port q = None"
    "tp_Protocol q = proto" "proto \<noteq> Some ProtocolTCP"
  shows "publishedHost (q\<lparr>tp_Hostname := Some h\<rparr>) = Some (if proto = Some ProtocolTLS then h @ '':443'' else h)"
proof -
  have "h \<noteq> []" using assms(1) by (auto simp: stableDomainLabelRe_def)
  then obtain c s where h: "h = c # s" by (cases h) auto
  have "CHR '':'' \<notin> set h" using assms(1) labels_no_colon by blast
  then show ?thesis
    using assms labels_trimmed [OF assms(1)]
    by (simp add: publishedHost_def h join_host_port_def format_443)
qed

text \<open>
  C40. A generated domain never makes acceptable properties unacceptable. If the properties of a
  tunnel are accepted and a stable domain is then chosen for it, the properties with the domain are
  accepted too, and normalisation gives what it gave before with that host name. A domain is set
  exactly when the tunnel has no host of its own, is not unpublished and is not a TCP tunnel, and
  the engine is a host name of at least two labels, the first at most 53 characters. Every label of
  the domain is well formed (63 characters at most), and the published address is that domain
  as it is, with the port 443 written out for a TLS tunnel only.
\<close>

theorem stable_domain_accepted:
  assumes "normalizeCreateTunnelProperties url_parse valid_field p = Inr q"
    and "MaybeSetGeneratedStableDomain url_parse is_ip random engine p = Inr p'"
  shows "normalizeCreateTunnelProperties url_parse valid_field p' = Inr (q\<lparr>tp_Hostname := tp_Hostname p'\<rparr>)
    \<and> (if wants_stable_domain p \<and> stable_parts (engineHostname url_parse is_ip engine) \<noteq> None
       then \<exists>h. p' = p\<lparr>tp_Hostname := Some h\<rparr>
              \<and> list_all stableDomainLabelRe (split_on (CHR ''.'') h)
              \<and> publishedHost (q\<lparr>tp_Hostname := Some h\<rparr>)
                  = Some (if tp_Protocol p = Some ProtocolTLS then h @ '':443'' else h)
       else p' = p)"
proof (cases "wants_stable_domain p \<and> stable_parts (engineHostname url_parse is_ip engine) \<noteq> None")
  case False
  have "p' = p"
    using assms(2) False
    by (auto simp: MaybeSetGeneratedStableDomain_def GenerateStableDomain_eq wants_stable_domain_def
        split: if_splits option.splits)
  moreover have "q\<lparr>tp_Hostname := tp_Hostname p\<rparr> = q"
    using normalize_keeps_hostname [OF assms(1)] by simp
  ultimately show ?thesis using assms(1) unfolding if_not_P [OF False] by simp
next
  case True
  then obtain parts where parts: "stable_parts (engineHostname url_parse is_ip engine) = Some parts" by auto
  obtain r where p': "p' = p\<lparr>tp_Hostname := Some (stable_name r parts)\<rparr>"
    using assms(2) True parts
    by (auto simp: MaybeSetGeneratedStableDomain_def GenerateStableDomain_eq wants_stable_domain_def split: option.splits)
  let ?h = "stable_name r parts"
  note labels = stable_name_labels [OF parts, of r]
  have tcp: "tp_Protocol p \<noteq> Some ProtocolTCP" using True by (simp add: wants_stable_domain_def)
  note normal = normalize_hostname [OF assms(1) tcp]
  have "publishedHost (q\<lparr>tp_Hostname := Some ?h\<rparr>) = Some (if tp_Protocol p = Some ProtocolTLS then ?h @ '':443'' else ?h)"
    by (rule publishedHost_labels [OF labels normal(2,3) tcp])
  then have "p' = p\<lparr>tp_Hostname := Some ?h\<rparr> \<and> list_all stableDomainLabelRe (split_on (CHR ''.'') ?h)
      \<and> publishedHost (q\<lparr>tp_Hostname := Some ?h\<rparr>) = Some (if tp_Protocol p = Some ProtocolTLS then ?h @ '':443'' else ?h)"
    using labels p' by blast
  then show ?thesis unfolding if_P [OF True] using normal(1) by (auto simp: p')
qed

definition sample_properties :: TunnelProperties where
  "sample_properties =
    \<lparr>tp_ID = None, tp_CreationDate = None, tp_Name = None, tp_Type = None, tp_Publish = Some
     True, tp_Protocol = Some ProtocolHTTP, tp_Labels = [], tp_GeoIP = [], tp_TrustedIPs = [], tp_Host =
     None, tp_Hostname = None, tp_Port = None, tp_TLSMode = None, tp_TLSALPNs = [], tp_TLSMinVersion =
     None, tp_TLSCiphers = [], tp_MTLSAuth = None, tp_HTTPVersion = None, tp_HTTPCORS = None,
     tp_HTTPUseTLS = None, tp_UpstreamTLS = None, tp_DatagramGuaranteedDelivery = None,
     tp_AllowCrossRegionRouting = None, tp_TokenAuth = None, tp_RstreamAuth = None, tp_ChallengeMode =
     None\<rparr>"

theorem stable_domain_accepted_witness:
  "\<exists>h. MaybeSetGeneratedStableDomain (\<lambda>_. None) (\<lambda>_. False)
         (Some (CHR ''a'', CHR ''b'', CHR ''c'', CHR ''d'')) ''Demo.eu.example.io:443'' sample_properties
       = Inr (sample_properties\<lparr>tp_Hostname := Some h\<rparr>)
     \<and> list_all stableDomainLabelRe (split_on (CHR ''.'') h)
     \<and> publishedHost (sample_properties\<lparr>tp_Hostname := Some h\<rparr>) = Some h"
proof -
  let ?h = "''r61626364-demo.t.eu.example.io''"
  have "normalizeCreateTunnelProperties (\<lambda>_. None) (\<lambda>_. True) sample_properties = Inr sample_properties"
    by (simp add: normalizeCreateTunnelProperties_def normalize_cors_def sample_properties_def)
  moreover have parts: "stable_parts (engineHostname (\<lambda>_. None) (\<lambda>_. False) ''Demo.eu.example.io:443'')
      = Some (''demo'', ''eu.example.io'')"
    by code_simp
  moreover have set: "MaybeSetGeneratedStableDomain (\<lambda>_. None) (\<lambda>_. False)
      (Some (CHR ''a'', CHR ''b'', CHR ''c'', CHR ''d'')) ''Demo.eu.example.io:443'' sample_properties
      = Inr (sample_properties\<lparr>tp_Hostname := Some ?h\<rparr>)"
    by code_simp
  ultimately obtain h where
    "sample_properties\<lparr>tp_Hostname := Some ?h\<rparr> = sample_properties\<lparr>tp_Hostname := Some h\<rparr>"
    "list_all stableDomainLabelRe (split_on (CHR ''.'') h)"
    "publishedHost (sample_properties\<lparr>tp_Hostname := Some h\<rparr>) = Some h"
    using stable_domain_accepted by (fastforce simp: wants_stable_domain_def sample_properties_def)
  with set show ?thesis by metis
qed

end
