(* ===== verification/Runner.thy ===== *)
theory Runner
  imports Reconciler Tunnel Duration
begin

text \<open>
  The tunnel runner (\<^verbatim>\<open>cmd/rstream/internal/runengine\<close>, \<^verbatim>\<open>netretry\<close>, \<^verbatim>\<open>engine_error.go\<close>): what it starts, which
  errors it retries, how long it waits between attempts, and the accept loop of a tunnel.

  What an attempt, an Accept and a wait give is an argument: the loops are functions of the list of
  these outcomes, and their result is what they did. An error is what the code asks of it: whether a
  cancellation, a deadline or an engine error is in its chain. A draw of the random source is reduced
  to the range the code asks for.
\<close>

section \<open>Errors\<close>

record engine_error =
  ee_Code :: int
  ee_Message :: string

abbreviation EngineErrorCodeInvalidRequest :: int where "EngineErrorCodeInvalidRequest \<equiv> 2000"
abbreviation EngineErrorCodeServiceUnavailable :: int where "EngineErrorCodeServiceUnavailable \<equiv> 6000"
abbreviation EngineErrorCodeCapacityExhausted :: int where "EngineErrorCodeCapacityExhausted \<equiv> 7000"
abbreviation EngineErrorCodeResourceConflict :: int where "EngineErrorCodeResourceConflict \<equiv> 8000"
abbreviation EngineErrorCodeInternal :: int where "EngineErrorCodeInternal \<equiv> 9000"

definition Retryable :: "engine_error \<Rightarrow> bool" where
  "Retryable e \<longleftrightarrow>
     ee_Code e = EngineErrorCodeServiceUnavailable \<or> ee_Code e = EngineErrorCodeCapacityExhausted
     \<or> ee_Code e = EngineErrorCodeResourceConflict \<or> ee_Code e = EngineErrorCodeInternal"

record run_error =
  re_canceled :: bool
  re_deadline :: bool
  re_engine :: "engine_error option"

definition legacyResourceConflictMessage :: "string \<Rightarrow> bool" where
  "legacyResourceConflictMessage message \<longleftrightarrow>
     trim_space message \<in> set [''Hostname is already in use.'', ''TCP port is already in use.'',
       ''Registered WebTTY server is already online.'']"

definition retryableTunnelError :: "run_error \<Rightarrow> bool" where
  "retryableTunnelError err =
    (if re_canceled err \<or> re_deadline err then False
     else case re_engine err of
       Some e \<Rightarrow>
         if Retryable e then True
         else ee_Code e = EngineErrorCodeInvalidRequest \<and> legacyResourceConflictMessage (ee_Message e)
     | None \<Rightarrow> True)"


section \<open>Backoff\<close>

record backoff =
  bo_current :: int
  bo_initial :: int
  bo_max :: int

definition newBackoff :: "int \<Rightarrow> int \<Rightarrow> backoff" where
  "newBackoff initial maximum =
    (let initial = (if initial \<le> 0 then second else initial);
         maximum = (if maximum \<le> 0 then 30 * second else maximum);
         maximum = (if maximum < initial then initial else maximum) in
     \<lparr>bo_current = initial, bo_initial = initial, bo_max = maximum\<rparr>)"

definition backoff_Next :: "backoff \<Rightarrow> int \<times> backoff" where
  "backoff_Next b =
    (let b = (if bo_current b < bo_initial b then b\<lparr>bo_current := bo_initial b\<rparr> else b) in
     (bo_current b,
      if wrap64 (bo_max b - bo_current b) \<le> bo_current b then b\<lparr>bo_current := bo_max b\<rparr>
      else b\<lparr>bo_current := wrap64 (bo_current b * 2)\<rparr>))"

definition backoff_Reset :: "backoff \<Rightarrow> backoff" where
  "backoff_Reset b = b\<lparr>bo_current := bo_initial b\<rparr>"

text \<open>\<^verbatim>\<open>rand.Uint64N\<close> for the draw \<^term>\<open>u\<close>.\<close>

definition Uint64N :: "nat \<Rightarrow> int \<Rightarrow> int" where
  "Uint64N u n = int u mod n"

definition jitterRetry :: "nat \<Rightarrow> int \<Rightarrow> int" where
  "jitterRetry u delay =
    (let spread = delay div 5 in
     if spread \<le> 0 then delay else wrap64 (wrap64 (delay - spread) + Uint64N u (spread + 1)))"


section \<open>The run loop\<close>

text \<open>The log of an outage: one warning at its start, one message with the number of failures at its end.\<close>

record retryFailureLog =
  fl_startedAt :: int
  fl_attempts :: "64 word"

datatype run_log =
    Unavailable int
  | RecoveredAfter "64 word" int

definition log_Failed :: "int \<Rightarrow> int \<Rightarrow> retryFailureLog \<Rightarrow> run_log list \<times> retryFailureLog" where
  "log_Failed now retry l =
    (if fl_attempts l = 0
     then ([Unavailable retry], l\<lparr>fl_startedAt := now, fl_attempts := fl_attempts l + 1\<rparr>)
     else ([], l\<lparr>fl_attempts := fl_attempts l + 1\<rparr>))"

definition log_Recovered :: "int \<Rightarrow> retryFailureLog \<Rightarrow> run_log list \<times> retryFailureLog" where
  "log_Recovered now l =
    (if fl_attempts l = 0 then ([], l)
     else ([RecoveredAfter (fl_attempts l) (now - fl_startedAt l)], l\<lparr>fl_startedAt := 0, fl_attempts := 0\<rparr>))"

text \<open>
  One turn of the loop, as it happens: whether the context has ended, whether the tunnel became ready
  and when, the result of the attempt (no error is \<^term>\<open>None\<close>), the draw for the jitter, the time of the
  failure, and whether the wait ran to its end.
\<close>

record attempt =
  tr_cancelled :: bool
  tr_ready :: "int option"
  tr_result :: "run_error option"
  tr_draw :: nat
  tr_now :: int
  tr_waited :: bool

datatype run_end = TransportFailed | TunnelStopped | TunnelClosed | TunnelFailed run_error

text \<open>The waits, the log and how the loop ended, if it did.\<close>

record run_trace =
  rt_waits :: "int list"
  rt_log :: "run_log list"
  rt_end :: "run_end option"

definition on_ready :: "attempt \<Rightarrow> backoff \<times> retryFailureLog \<Rightarrow> run_log list \<times> backoff \<times> retryFailureLog" where
  "on_ready a = (\<lambda>(b, l).
    case tr_ready a of
      None \<Rightarrow> ([], b, l)
    | Some now \<Rightarrow> (let (logs, l) = log_Recovered now l in (logs, backoff_Reset b, l)))"

definition ended :: "run_log list \<Rightarrow> int list \<Rightarrow> run_end \<Rightarrow> run_trace" where
  "ended logs waits e = \<lparr>rt_waits = waits, rt_log = logs, rt_end = Some e\<rparr>"

fun run_loop :: "attempt list \<Rightarrow> backoff \<times> retryFailureLog \<Rightarrow> run_trace" where
  "run_loop [] _ = \<lparr>rt_waits = [], rt_log = [], rt_end = None\<rparr>"
| "run_loop (a # as) st =
    (if tr_cancelled a then ended [] [] TunnelStopped
     else
     let (logs, b, l) = on_ready a st in
     case tr_result a of
       None \<Rightarrow> ended logs [] TunnelClosed
     | Some err \<Rightarrow>
         if re_canceled err then ended logs [] TunnelStopped
         else if \<not> retryableTunnelError err then ended logs [] (TunnelFailed err)
         else
         let (delay, b) = backoff_Next b;
             retry = jitterRetry (tr_draw a) delay;
             (logs', l) = log_Failed (tr_now a) retry l in
         if \<not> tr_waited a then ended (logs @ logs') [retry] TunnelStopped
         else let t = run_loop as (b, l) in
           t\<lparr>rt_waits := retry # rt_waits t, rt_log := logs @ logs' @ rt_log t\<rparr>)"

text \<open>The first argument says whether the transport of the tunnel is there or could be made.\<close>

definition runner_run :: "bool \<Rightarrow> int \<Rightarrow> int \<Rightarrow> attempt list \<Rightarrow> run_trace" where
  "runner_run transport retryInitial retryMax as =
    (let b = newBackoff retryInitial retryMax; failures = \<lparr>fl_startedAt = 0, fl_attempts = 0\<rparr> in
     if \<not> transport then ended [] [] TransportFailed else run_loop as (b, failures))"


section \<open>Accepting\<close>

abbreviation initialAcceptDelay :: int where "initialAcceptDelay \<equiv> 5000000"
abbreviation acceptRetryMaxDelay :: int where "acceptRetryMaxDelay \<equiv> 1000000000"

datatype accept_error = EINTR | ECONNABORTED | EMFILE | ENFILE | ENOBUFS | ENOMEM | OtherAcceptError

definition NextAcceptDelay :: "accept_error \<Rightarrow> int \<Rightarrow> int \<Rightarrow> int \<times> bool" where
  "NextAcceptDelay err current maximum =
    (if err \<notin> set [EINTR, ECONNABORTED, EMFILE, ENFILE, ENOBUFS, ENOMEM] then (0, False)
     else
     let current = (if current \<le> 0 then initialAcceptDelay else wrap64 (current * 2));
         current = (if 0 < maximum \<and> maximum < current then maximum else current) in
     (current, True))"

text \<open>One turn of \<^verbatim>\<open>serveTCP\<close> or \<^verbatim>\<open>serveUDP\<close>: a session that starts or is refused, or an error and the wait.\<close>

datatype accept_event =
    Accepted bool
  | AcceptFailed accept_error bool

datatype serve_end = ServeCanceled | ServeError accept_error

fun serve :: "accept_event list \<Rightarrow> int \<Rightarrow> int list \<times> serve_end option" where
  "serve [] acceptRetryDelay = ([], None)"
| "serve (Accepted running # evs) acceptRetryDelay =
    (if running then serve evs 0 else ([], Some ServeCanceled))"
| "serve (AcceptFailed err waited # evs) acceptRetryDelay =
    (let (delay, retry) = NextAcceptDelay err acceptRetryDelay acceptRetryMaxDelay in
     if retry \<and> waited then (let (ds, e) = serve evs delay in (delay # ds, e))
     else if retry then ([delay], Some (ServeError err))
     else ([], Some (ServeError err)))"


section \<open>Starting\<close>

type_synonym ('t, 'c, 'l) desired = "(TunnelProperties, 't, 'c, 'l) DesiredTunnel"

definition HasAuthentication :: "('l \<Rightarrow> bool) \<Rightarrow> ('t, 'c, 'l) ResolvedContext \<Rightarrow> bool" where
  "HasAuthentication has_certificate r \<longleftrightarrow>
     rx_Token r \<noteq> [] \<or> (case rx_TLSClientConfig r of None \<Rightarrow> False | Some l \<Rightarrow> has_certificate l)"

definition Runner_Start ::
  "(string \<Rightarrow> origin_url option) \<Rightarrow> (string \<Rightarrow> bool) \<Rightarrow> ('l \<Rightarrow> bool) \<Rightarrow> byte4 option \<Rightarrow> ('t, 'c, 'l) desired \<Rightarrow> start_result" where
  "Runner_Start url_parse is_ip has_certificate random d =
    (if dt_Name d = [] then StartError
     else if trim_space (rx_Engine (dt_Context d)) = [] then StartError
     else if \<not> HasAuthentication has_certificate (dt_Context d) then StartError
     else case MaybeSetGeneratedStableDomain url_parse is_ip random (StableDomainEndpoint (dt_Context d)) (dt_Props d) of
       Inl _ \<Rightarrow> StartError
     | Inr _ \<Rightarrow> Started)"

text \<open>\<^verbatim>\<open>handle.Stop\<close> cancels, waits for the worker and never fails.\<close>

definition runner_starter ::
  "(string \<Rightarrow> origin_url option) \<Rightarrow> (string \<Rightarrow> bool) \<Rightarrow> ('l \<Rightarrow> bool) \<Rightarrow> (string \<Rightarrow> byte4 option)
     \<Rightarrow> (TunnelProperties, 't, 'c, 'l) starter" where
  "runner_starter url_parse is_ip has_certificate random =
    \<lparr>env_start = (\<lambda>d. Runner_Start url_parse is_ip has_certificate (random (dt_Name d)) d), env_stop = (\<lambda>_. True)\<rparr>"

interpretation runner: stopping_starter "runner_starter url_parse is_ip has_certificate random"
  for url_parse is_ip has_certificate random
  by unfold_locales (simp add: runner_starter_def)



section \<open>The waits\<close>

text \<open>The wait after the \<^term>\<open>k\<close>-th failure in a row, before the jitter.\<close>

definition retry_base :: "int \<Rightarrow> int \<Rightarrow> nat \<Rightarrow> int" where
  "retry_base initial maximum k =
    (let initial = (if 0 < initial then initial else second);
         maximum = (if 0 < maximum then maximum else 30 * second) in
     min (max initial maximum) (initial * 2 ^ k))"

definition retried :: "attempt \<Rightarrow> bool" where
  "retried a \<longleftrightarrow> \<not> tr_cancelled a \<and> (case tr_result a of None \<Rightarrow> False | Some err \<Rightarrow> retryableTunnelError err)"

text \<open>For every attempt that is retried, the number of failures since the tunnel was last ready.\<close>

fun streaks :: "nat \<Rightarrow> attempt list \<Rightarrow> nat list" where
  "streaks k [] = []"
| "streaks k (a # as) =
    (if \<not> retried a then []
     else let k = (if tr_ready a = None then k else 0) in k # (if tr_waited a then streaks (Suc k) as else []))"

definition backoff_at :: "int \<Rightarrow> int \<Rightarrow> nat \<Rightarrow> backoff" where
  "backoff_at initial maximum k =
    \<lparr>bo_current = retry_base initial maximum k, bo_initial = retry_base initial maximum 0,
     bo_max = max (retry_base initial maximum 0) (if 0 < maximum then maximum else 30 * second)\<rparr>"

lemma newBackoff_at: "newBackoff initial maximum = backoff_at initial maximum 0"
  by (simp add: newBackoff_def backoff_at_def retry_base_def Let_def second_def max_def)

lemma Reset_at: "backoff_Reset (backoff_at initial maximum k) = backoff_at initial maximum 0"
  by (simp add: backoff_Reset_def backoff_at_def)

lemma min_double: "0 < (x :: int) \<Longrightarrow> 0 < m \<Longrightarrow> min m (x * 2) = (if m - min m x \<le> min m x then m else min m x * 2)"
  by (auto simp: min_def)

lemma Next_at:
  assumes "initial < 2 ^ 63" "maximum < 2 ^ 63"
  shows "backoff_Next (backoff_at initial maximum k) = (retry_base initial maximum k, backoff_at initial maximum (Suc k))"
proof -
  define i where "i = (if 0 < initial then initial else second)"
  define m where "m = max i (if 0 < maximum then maximum else 30 * second)"
  have base: "retry_base initial maximum j = min m (i * 2 ^ j)" for j
    by (simp add: retry_base_def i_def m_def Let_def)
  have bounds: "0 < i" "i \<le> m" "m < 2 ^ 63" using assms by (auto simp: i_def m_def second_def)
  have pos: "0 < i * 2 ^ k" using bounds by simp
  have le: "i \<le> i * 2 ^ k" using bounds by simp
  define x where "x = min m (i * 2 ^ k)"
  have x: "i \<le> x" "x \<le> m" "0 < x" using bounds pos le by (auto simp: x_def)
  have "wrap64 (m - x) = m - x" using x bounds by (intro wrap64_id) auto
  moreover have "wrap64 (x * 2) = x * 2" if "\<not> m - x \<le> x" using that x bounds by (intro wrap64_id) auto
  moreover have "min m (i * 2 ^ Suc k) = (if m - x \<le> x then m else x * 2)"
    using min_double [OF pos, of m] bounds by (simp add: x_def mult.assoc mult.commute)
  moreover have "retry_base initial maximum 0 = i" using bounds by (simp add: base)
  ultimately show ?thesis
    using x by (simp add: backoff_Next_def backoff_at_def base m_def [symmetric] x_def [symmetric] Let_def)
qed

lemma retry_base_range:
  assumes "initial < 2 ^ 63" "maximum < 2 ^ 63"
  shows "0 < retry_base initial maximum k" "retry_base initial maximum k < 2 ^ 63"
  using assms by (auto simp: retry_base_def Let_def second_def min_less_iff_disj)

lemma jitter_range:
  assumes "0 < d" "d < 2 ^ 63"
  shows "d - d div 5 \<le> jitterRetry u d" "jitterRetry u d \<le> d" "0 < jitterRetry u d"
proof -
  have "d - d div 5 \<le> jitterRetry u d \<and> jitterRetry u d \<le> d"
  proof (cases "d div 5 \<le> 0")
    case True
    then show ?thesis using assms by (simp add: jitterRetry_def)
  next
    case False
    then have r: "0 \<le> Uint64N u (d div 5 + 1)" "Uint64N u (d div 5 + 1) \<le> d div 5"
      using pos_mod_bound [of "d div 5 + 1" "int u"] by (simp_all add: Uint64N_def)
    have "0 \<le> d div 5" "d div 5 \<le> d" using False assms by linarith+
    then have "wrap64 (d - d div 5) = d - d div 5"
      "wrap64 (d - d div 5 + Uint64N u (d div 5 + 1)) = d - d div 5 + Uint64N u (d div 5 + 1)"
      using assms r by (intro wrap64_id; linarith)+
    then show ?thesis using False r by (simp add: jitterRetry_def Let_def)
  qed
  moreover have "0 < d - d div 5" using assms by linarith
  ultimately show "d - d div 5 \<le> jitterRetry u d" "jitterRetry u d \<le> d" "0 < jitterRetry u d" by linarith+
qed

definition within_jitter :: "int \<Rightarrow> int \<Rightarrow> bool" where
  "within_jitter base d \<longleftrightarrow> base - base div 5 \<le> d \<and> d \<le> base \<and> 0 < d"

lemma run_loop_waits:
  assumes "initial < 2 ^ 63" "maximum < 2 ^ 63"
  shows "list_all2 (\<lambda>k. within_jitter (retry_base initial maximum k)) (streaks k as)
      (rt_waits (run_loop as (backoff_at initial maximum k, l)))
    \<and> (rt_end (run_loop as (backoff_at initial maximum k, l)) = None \<longleftrightarrow> list_all (\<lambda>a. retried a \<and> tr_waited a) as)"
proof (induction as arbitrary: k l)
  case (Cons a as)
  show ?case
  proof (cases "retried a")
    case False
    then show ?thesis
      by (auto simp: retried_def ended_def Let_def split: option.splits prod.splits)
  next
    case True
    define j where "j = (if tr_ready a = None then k else 0)"
    obtain logs l' where ready: "on_ready a (backoff_at initial maximum k, l) = (logs, backoff_at initial maximum j, l')"
    proof (cases "tr_ready a")
      case None
      then show ?thesis using that by (simp add: on_ready_def j_def)
    next
      case (Some now)
      then show ?thesis
        using that by (cases "log_Recovered now l") (simp add: on_ready_def j_def Reset_at)
    qed
    obtain err where err: "tr_result a = Some err" "retryableTunnelError err" "\<not> re_canceled err" "\<not> tr_cancelled a"
      using True by (auto simp: retried_def retryableTunnelError_def split: option.splits if_splits)
    note range = jitter_range [OF retry_base_range [OF assms, of j], of "tr_draw a"]
    obtain logs' l'' where log: "log_Failed (tr_now a) (jitterRetry (tr_draw a) (retry_base initial maximum j)) l' = (logs', l'')"
      by (cases "log_Failed (tr_now a) (jitterRetry (tr_draw a) (retry_base initial maximum j)) l'")
    show ?thesis
      using Cons.IH [of "Suc j" l''] range True
      by (simp add: err ready log Next_at [OF assms] ended_def within_jitter_def j_def [symmetric] Let_def)
  qed
qed simp

text \<open>
  C39. However the retry limits are configured, a runner with a transport waits between attempts for a positive time
  that is at most a fifth below the exponential schedule: the wait after the \<^term>\<open>k\<close>-th failure since
  the tunnel was last ready is derived from \<^term>\<open>initial * 2 ^ k\<close> capped at the maximum, with the
  defaults for limits that are not positive and without wrap-around. It waits after every retryable
  error and only then, and goes on for as long as errors are retryable and waits are not interrupted.
\<close>

theorem retry_schedule:
  assumes "retryInitial < 2 ^ 63" "retryMax < 2 ^ 63"
  shows "list_all2 (\<lambda>k. within_jitter (retry_base retryInitial retryMax k)) (streaks 0 as)
      (rt_waits (runner_run True retryInitial retryMax as))
    \<and> (rt_end (runner_run True retryInitial retryMax as) = None \<longleftrightarrow> list_all (\<lambda>a. retried a \<and> tr_waited a) as)"
  using run_loop_waits [OF assms, of 0 as] by (simp add: runner_run_def newBackoff_at)

definition sample_attempt :: "bool \<Rightarrow> attempt" where
  "sample_attempt ready =
    \<lparr>tr_cancelled = False, tr_ready = (if ready then Some 0 else None),
     tr_result = Some \<lparr>re_canceled = False, re_deadline = False, re_engine = None\<rparr>, tr_draw = 7, tr_now = 0, tr_waited = True\<rparr>"

theorem retry_schedule_witness:
  "list_all2 (\<lambda>k. within_jitter (retry_base 0 3000000000 k)) [0, 1, 2, 0, 1]
     (rt_waits (runner_run True 0 3000000000 (map sample_attempt [False, False, False, True, False])))"
proof -
  have "streaks 0 (map sample_attempt [False, False, False, True, False]) = [0, 1, 2, 0, 1]" by code_simp
  then show ?thesis
    using retry_schedule [of 0 3000000000 "map sample_attempt [False, False, False, True, False]"] by simp
qed


section \<open>The accept loop\<close>

lemma NextAcceptDelay_range:
  assumes "NextAcceptDelay err d acceptRetryMaxDelay = (d', True)" "d \<le> acceptRetryMaxDelay"
  shows "0 < d' \<and> d' \<le> acceptRetryMaxDelay"
proof -
  have "wrap64 (d * 2) = d * 2" if "0 < d" using that assms(2) by (intro wrap64_id) auto
  then show ?thesis using assms by (auto simp: NextAcceptDelay_def Let_def split: if_splits)
qed

theorem accept_waits_bounded:
  "0 \<le> d \<Longrightarrow> d \<le> acceptRetryMaxDelay \<Longrightarrow> list_all (\<lambda>w. 0 < w \<and> w \<le> acceptRetryMaxDelay) (fst (serve evs d))"
proof (induction evs d rule: serve.induct)
  case (3 err waited evs d)
  obtain d' retry where n: "NextAcceptDelay err d acceptRetryMaxDelay = (d', retry)"
    by (cases "NextAcceptDelay err d acceptRetryMaxDelay")
  show ?case
  proof (cases retry)
    case True
    then have "0 < d' \<and> d' \<le> acceptRetryMaxDelay" using NextAcceptDelay_range [of err d d'] n 3 by simp
    then show ?thesis using 3 n True by (auto simp: split_beta Let_def)
  qed (simp add: n)
qed simp_all


section \<open>The runner behind the reconciler\<close>

text \<open>
  With the runner as the starter, a reconciliation leaves exactly the desired tunnels that the runner
  accepts or that ran unchanged, and a shutdown leaves nothing running.
\<close>

theorem run_command_converges:
  assumes "check_names [] desired = None" "visits o1 (rc_active s)" "visits o2 (desired_map desired)"
  shows "running_specs (pg_state (reconcile (runner_starter url_parse is_ip has_certificate random) o1 o2 desired s)) n =
    (case wanted desired n of
       None \<Rightarrow> None
     | Some d \<Rightarrow>
         if rel_option EqualDesired (running_specs s n) (Some d) then running_specs s n
         else if Runner_Start url_parse is_ip has_certificate (random n) d = Started then Some d else None)"
proof -
  have "dt_Name d = n" if "wanted desired n = Some d" for d
    using that by (auto simp: wanted_def find_Some_iff)
  then show ?thesis
    unfolding runner.reconciled [OF assms] by (auto simp: runner_starter_def split: option.splits)
qed

theorem run_command_shuts_down:
  assumes "reconciler_run evs rs s" "visits order (rc_active s)" "rc_phase s = Stopping"
  shows "rc_running (stop_all (runner_starter url_parse is_ip has_certificate random) order s) = []"
  using run_invariant [OF assms(1)] assms(2,3) by (intro runner.shut_down) (simp_all add: run_invariant_def)

end
