(* ===== verification/Paths.thy ===== *)
theory Paths
  imports Prelude
begin

text \<open>
  Path policy of an exported directory (\<^verbatim>\<open>filesystem/filesystem.go\<close>): the part of
  \<^verbatim>\<open>path/filepath\<close> it uses on Unix, \<^verbatim>\<open>allowed\<close>, \<^verbatim>\<open>lexical\<close> and
  \<^verbatim>\<open>resolve\<close>. The pattern matcher \<^verbatim>\<open>path.Match\<close> and the symbolic link resolution
  of the operating system are parameters; what is proved holds for all of them.
\<close>

datatype fs_error =
    ErrNotExist | ErrExist | ErrPermission | ErrIO | ErrListingLimit | ErrCancelled
  | ErrJournal | ErrCapacity | ErrBadRequest

section \<open>Path functions\<close>

text \<open>\<^verbatim>\<open>filepath.Clean\<close>: the elements kept so far are in reverse order.\<close>

fun clean_parts :: "bool \<Rightarrow> string list \<Rightarrow> string list \<Rightarrow> string list" where
  "clean_parts rooted out [] = rev out"
| "clean_parts rooted out (p # ps) =
    (if p = [] \<or> p = ''.'' then clean_parts rooted out ps
     else if p = ''..'' then
       (case out of
          [] \<Rightarrow> clean_parts rooted (if rooted then [] else [''..'']) ps
        | q # qs \<Rightarrow> if q = ''..'' then clean_parts rooted (p # out) ps else clean_parts rooted qs ps)
     else clean_parts rooted (p # out) ps)"

definition path_IsAbs :: "string \<Rightarrow> bool" where
  "path_IsAbs p \<longleftrightarrow> has_prefix p ''/''"

definition path_Clean :: "string \<Rightarrow> string" where
  "path_Clean p =
    (let s = join ''/'' (clean_parts (path_IsAbs p) [] (split_on (CHR ''/'') p))
     in if path_IsAbs p then CHR ''/'' # s else if s = [] then ''.'' else s)"

definition path_IsLocal :: "string \<Rightarrow> bool" where
  "path_IsLocal p \<longleftrightarrow>
     \<not> path_IsAbs p \<and> p \<noteq> []
     \<and> (let hasDots = (\<exists>part\<in>set (split_on (CHR ''/'') p). part = ''.'' \<or> part = ''..'');
            p = (if hasDots then path_Clean p else p)
        in p \<noteq> ''..'' \<and> \<not> has_prefix p ''../'')"

definition path_Dir :: "string \<Rightarrow> string" where
  "path_Dir p =
    (case cut_last (CHR ''/'') p of None \<Rightarrow> path_Clean [] | Some (a, _) \<Rightarrow> path_Clean (a @ ''/''))"

definition path_Base :: "string \<Rightarrow> string" where
  "path_Base p =
    (if p = [] then ''.''
     else
       let q = rev (dropWhile (\<lambda>c. c = CHR ''/'') (rev p)) in
       if q = [] then ''/''
       else case cut_last (CHR ''/'') q of None \<Rightarrow> q | Some (_, b) \<Rightarrow> b)"

definition path_Join :: "string \<Rightarrow> string \<Rightarrow> string" where
  "path_Join a b =
    (if a = [] then (if b = [] then [] else path_Clean b) else path_Clean (a @ ''/'' @ b))"

text \<open>The elements of a clean path, and \<^verbatim>\<open>filepath.Rel\<close>.\<close>

definition path_parts :: "string \<Rightarrow> string list" where
  "path_parts p = filter (\<lambda>q. q \<noteq> [] \<and> q \<noteq> ''.'') (split_on (CHR ''/'') p)"

fun strip_common :: "string list \<Rightarrow> string list \<Rightarrow> string list \<times> string list" where
  "strip_common (b # bs) (t # ts) = (if b = t then strip_common bs ts else (b # bs, t # ts))"
| "strip_common bs ts = (bs, ts)"

definition path_Rel :: "string \<Rightarrow> string \<Rightarrow> fs_error + string" where
  "path_Rel basepath targpath =
    (let base = path_Clean basepath; targ = path_Clean targpath in
     if targ = base then Inr ''.''
     else if path_IsAbs base \<noteq> path_IsAbs targ then Inl ErrPermission
     else
       let (bs, ts) = strip_common (path_parts base) (path_parts targ) in
       if bs \<noteq> [] \<and> hd bs = ''..'' then Inl ErrPermission
       else Inr (join ''/'' (replicate (length bs) ''..'' @ ts)))"


section \<open>The export\<close>

record fs_Policy =
  fp_StateDir :: string
  fp_ReadOnly :: bool
  fp_HideHidden :: bool
  fp_Exclude :: "string list"
  fp_MaxEntries :: int
  fp_AllowFile :: bool

record Local =
  lo_path :: string
  lo_file :: string
  lo_policy :: fs_Policy

definition uploadPrefix :: string where
  "uploadPrefix = ''.rstream-upload-''"

definition private_part :: "string \<Rightarrow> bool" where
  "private_part part \<longleftrightarrow> has_prefix (to_lower part) uploadPrefix"

definition privateUploadPath :: "string \<Rightarrow> bool" where
  "privateUploadPath name \<longleftrightarrow> (\<exists>part\<in>set (split_on (CHR ''/'') name). private_part part)"

text \<open>
  The names an exclusion is matched against: the name and its ancestors. The loop of the source
  ends at \<^verbatim>\<open>"."\<close>; a relative name reaches it within its length (\<open>ancestors_enough\<close>
  below), which is the bound given here.
\<close>

primrec ancestors :: "nat \<Rightarrow> string \<Rightarrow> string list" where
  "ancestors 0 current = []"
| "ancestors (Suc n) current = (if current = ''.'' then [] else current # ancestors n (path_Dir current))"

definition excluded :: "(string \<Rightarrow> string \<Rightarrow> bool) \<Rightarrow> string list \<Rightarrow> string \<Rightarrow> bool" where
  "excluded glob patterns name \<longleftrightarrow>
     (\<exists>pattern\<in>set patterns. \<exists>current\<in>set (ancestors (length name + 1) name).
        let candidate = (if CHR ''/'' \<in> set pattern then current else path_Base current)
        in glob (to_lower pattern) (to_lower candidate))"

definition part_hidden :: "Local \<Rightarrow> string \<Rightarrow> bool" where
  "part_hidden f part \<longleftrightarrow>
     lo_file f = [] \<and> fp_HideHidden (lo_policy f) \<and> part \<noteq> ''.'' \<and> has_prefix part ''.''"

definition allowed :: "(string \<Rightarrow> string \<Rightarrow> bool) \<Rightarrow> Local \<Rightarrow> string \<Rightarrow> bool" where
  "allowed glob f name \<longleftrightarrow>
    (if lo_file f \<noteq> [] \<and> name = ''.'' then True
     else if lo_file f \<noteq> [] \<and> name \<noteq> lo_file f then False
     else (\<forall>part\<in>set (split_on (CHR ''/'') name). \<not> private_part part \<and> \<not> part_hidden f part)
       \<and> \<not> excluded glob (fp_Exclude (lo_policy f)) name)"

definition lexical :: "(string \<Rightarrow> string \<Rightarrow> bool) \<Rightarrow> Local \<Rightarrow> string \<Rightarrow> fs_error + string" where
  "lexical glob f name =
    (if CHR 0x5C \<in> set name \<or> CHR 0x00 \<in> set name then Inl ErrNotExist
     else
       let relative = trim_prefix name ''/'';
           relative = (if relative = [] then ''.'' else relative)
       in if \<not> path_IsLocal relative then Inl ErrPermission
          else if ''..'' \<in> set (split_on (CHR ''/'') relative) then Inl ErrPermission
          else
            let relative = path_Clean relative in
            if \<not> allowed glob f relative then Inl ErrNotExist else Inr relative)"

definition resolve ::
  "(string \<Rightarrow> string \<Rightarrow> bool) \<Rightarrow> (string \<Rightarrow> fs_error + string) \<Rightarrow> Local \<Rightarrow> string \<Rightarrow> bool \<Rightarrow> fs_error + string" where
  "resolve glob EvalSymlinks f name parent =
    rbind (lexical glob f name) (\<lambda>relative.
    let target = path_Join (lo_path f) relative;
        lookup = (if parent then path_Dir target else target)
    in rbind (EvalSymlinks lookup) (\<lambda>resolved.
       let resolved = (if parent then path_Join resolved (path_Base target) else resolved) in
       (case path_Rel (lo_path f) resolved of
          Inl _ \<Rightarrow> Inl ErrPermission
        | Inr r \<Rightarrow>
            if \<not> path_IsLocal r then Inl ErrPermission
            else if \<not> allowed glob f r then Inl ErrNotExist
            else Inr r)))"


section \<open>Clean paths\<close>

text \<open>A path element that names a file: neither empty nor one of the dot elements.\<close>

definition normal :: "string \<Rightarrow> bool" where
  "normal p \<longleftrightarrow> p \<noteq> [] \<and> p \<noteq> ''.'' \<and> p \<noteq> ''..'' \<and> CHR ''/'' \<notin> set p"

definition rel_path :: "string list \<Rightarrow> string" where
  "rel_path ps = (if ps = [] then ''.'' else join ''/'' ps)"

definition abs_path :: "string list \<Rightarrow> string" where
  "abs_path ps = CHR ''/'' # join ''/'' ps"

lemma split_on_concat: "split_on c (a @ c # b) = split_on c a @ split_on c b"
  by (induction a) (auto split: list.splits)

lemma join_eq_Nil_iff: "list_all normal ps \<Longrightarrow> join sep ps = [] \<longleftrightarrow> ps = []"
  by (cases "(sep, ps)" rule: join.cases) (auto simp: normal_def)

lemma split_join_normal: "list_all normal ps \<Longrightarrow> ps \<noteq> [] \<Longrightarrow> split_on (CHR ''/'') (join ''/'' ps) = ps"
  by (rule split_on_join) (auto simp: list_all_iff normal_def)

lemma filter_normal: "list_all normal ps \<Longrightarrow> filter (\<lambda>q. q \<noteq> [] \<and> q \<noteq> ''.'') ps = ps"
  by (induction ps) (auto simp: normal_def)

lemma clean_parts_normal:
  "''..'' \<notin> set ps \<Longrightarrow> clean_parts rooted out ps = rev out @ filter (\<lambda>q. q \<noteq> [] \<and> q \<noteq> ''.'') ps"
  by (induction rooted out ps rule: clean_parts.induct) auto

lemma clean_parts_rooted:
  assumes "list_all normal out" "\<forall>p\<in>set ps. CHR ''/'' \<notin> set p"
  shows "list_all normal (clean_parts True out ps)"
  using assms
proof (induction True out ps rule: clean_parts.induct)
  case (2 out p ps)
  then show ?case by (cases out) (auto simp: normal_def)
qed (simp add: list_all_iff)

lemma split_no_slash: "\<forall>p\<in>set (split_on (CHR ''/'') s). CHR ''/'' \<notin> set p"
  by (rule split_on_parts)

lemma parts_normal: "''..'' \<notin> set (split_on (CHR ''/'') p) \<Longrightarrow> list_all normal (path_parts p)"
  using split_no_slash [of p] by (auto simp: path_parts_def list_all_iff normal_def)

lemma Clean_relative:
  assumes "\<not> path_IsAbs p" "''..'' \<notin> set (split_on (CHR ''/'') p)"
  shows "path_Clean p = rel_path (path_parts p)"
  using assms parts_normal [OF assms(2)]
  by (simp add: path_Clean_def Let_def clean_parts_normal path_parts_def [symmetric] rel_path_def join_eq_Nil_iff)

lemma Clean_absolute:
  assumes "path_IsAbs p"
  shows "\<exists>ps. list_all normal ps \<and> path_Clean p = abs_path ps"
  using assms clean_parts_rooted [of "[]" "split_on (CHR ''/'') p"] split_no_slash
  by (auto simp: path_Clean_def Let_def abs_path_def)

lemma split_rel_path:
  "list_all normal ps \<Longrightarrow> split_on (CHR ''/'') (rel_path ps) = (if ps = [] then [''.''] else ps)"
  by (simp add: rel_path_def split_join_normal)

lemma split_abs_path:
  "list_all normal ps \<Longrightarrow> split_on (CHR ''/'') (abs_path ps) = [] # (if ps = [] then [[]] else ps)"
  by (simp add: abs_path_def split_join_normal)

lemma parts_rel_path [simp]: "list_all normal ps \<Longrightarrow> path_parts (rel_path ps) = ps"
  by (simp add: path_parts_def split_rel_path filter_normal)

lemma parts_abs_path [simp]: "list_all normal ps \<Longrightarrow> path_parts (abs_path ps) = ps"
  by (simp add: path_parts_def split_abs_path filter_normal)

lemma rel_path_not_abs: "list_all normal ps \<Longrightarrow> \<not> path_IsAbs (rel_path ps)"
proof (cases ps)
  case (Cons p qs)
  assume "list_all normal ps"
  with Cons obtain c r where "p = c # r" "c \<noteq> CHR ''/''" by (cases p) (auto simp: normal_def)
  with Cons show ?thesis by (cases qs) (auto simp: rel_path_def path_IsAbs_def has_prefix_iff)
qed (simp add: rel_path_def path_IsAbs_def has_prefix_iff)

lemma rel_path_no_dots: "list_all normal ps \<Longrightarrow> ''..'' \<notin> set (split_on (CHR ''/'') (rel_path ps))"
  by (auto simp: split_rel_path list_all_iff normal_def)

lemma Clean_rel_path [simp]: "list_all normal ps \<Longrightarrow> path_Clean (rel_path ps) = rel_path ps"
  by (simp add: Clean_relative rel_path_not_abs rel_path_no_dots)

lemma rel_path_IsLocal:
  assumes "list_all normal ps"
  shows "path_IsLocal (rel_path ps)"
proof -
  have "rel_path ps \<noteq> ''..'' \<and> \<not> has_prefix (rel_path ps) ''../''"
  proof (rule ccontr)
    assume "\<not> ?thesis"
    then have "''..'' \<in> set (split_on (CHR ''/'') (rel_path ps))" by (auto simp: has_prefix_iff)
    with rel_path_no_dots [OF assms] show False by blast
  qed
  moreover have "rel_path ps \<noteq> []" using assms by (simp add: rel_path_def join_eq_Nil_iff)
  ultimately show ?thesis
    using assms rel_path_not_abs [OF assms] by (simp add: path_IsLocal_def Let_def)
qed

lemma join_set_sup: "p \<in> set ps \<Longrightarrow> set p \<subseteq> set (join sep ps)"
  by (induction sep ps rule: join.induct) auto

lemma split_on_set: "q \<in> set (split_on c s) \<Longrightarrow> set q \<subseteq> set s"
  using join_set_sup [of q "split_on c s" "[c]"] by (simp add: join_split_on)

lemma join_set: "set (join sep ps) \<subseteq> set sep \<union> (\<Union>p\<in>set ps. set p)"
  by (induction sep ps rule: join.induct) auto

lemma rel_path_chars:
  assumes "c \<in> set (rel_path (path_parts p))" "c \<noteq> CHR ''/''" "c \<noteq> CHR ''.''"
  shows "c \<in> set p"
proof -
  have "c \<in> (\<Union>q\<in>set (path_parts p). set q)"
    using assms join_set [of "''/''" "path_parts p"] by (auto simp: rel_path_def split: if_splits)
  then show ?thesis using split_on_set by (fastforce simp: path_parts_def)
qed

lemma not_abs_trim: "\<not> path_IsAbs p \<Longrightarrow> trim_prefix p ''/'' = p"
  by (simp add: path_IsAbs_def trim_prefix_def)

lemma lexical_Inr:
  assumes "lexical glob f name = Inr r"
  shows "\<exists>ps. list_all normal ps \<and> r = rel_path ps \<and> allowed glob f r \<and> CHR 0x5C \<notin> set r \<and> CHR 0x00 \<notin> set r"
proof -
  let ?p = "if trim_prefix name ''/'' = [] then ''.'' else trim_prefix name ''/''"
  have p: "path_IsLocal ?p" "''..'' \<notin> set (split_on (CHR ''/'') ?p)" "r = path_Clean ?p" "allowed glob f r"
    and c: "CHR 0x5C \<notin> set name" "CHR 0x00 \<notin> set name"
    using assms by (auto simp: lexical_def Let_def split: if_splits)
  have r: "r = rel_path (path_parts ?p)" using p by (simp add: Clean_relative path_IsLocal_def)
  have sub: "set ?p \<subseteq> set name \<union> {CHR ''.''}"
    using set_drop_subset [of 1 name] by (auto simp: trim_prefix_def)
  have "d \<notin> set r" if "d \<notin> set name" "d \<noteq> CHR ''/''" "d \<noteq> CHR ''.''" for d
    using rel_path_chars [of d ?p] that sub r by auto
  with c parts_normal [OF p(2)] p(4) r show ?thesis by auto
qed

lemma lexical_normal:
  assumes "list_all normal ps" "r = rel_path ps" "allowed glob f r" "CHR 0x5C \<notin> set r" "CHR 0x00 \<notin> set r"
  shows "lexical glob f r = Inr r"
proof -
  have "r \<noteq> []" using rel_path_IsLocal [OF assms(1)] assms(2) by (simp add: path_IsLocal_def)
  then show ?thesis
    using assms by (simp add: lexical_def Let_def not_abs_trim rel_path_not_abs rel_path_IsLocal rel_path_no_dots)
qed

lemma strip_common_prefix: "strip_common bs ts = (bs', ts') \<Longrightarrow> \<exists>c. bs = c @ bs' \<and> ts = c @ ts'"
proof (induction bs ts rule: strip_common.induct)
  case (1 b bs t ts)
  then show ?case by (cases "b = t") (auto intro: exI [of _ "_ # _"])
qed auto

lemma Clean_below:
  assumes "list_all normal bs" "list_all normal ts"
  shows "path_Join (abs_path bs) (rel_path ts) = abs_path (bs @ ts)"
proof -
  let ?p = "abs_path bs @ CHR ''/'' # rel_path ts"
  have split: "split_on (CHR ''/'') ?p = split_on (CHR ''/'') (abs_path bs) @ split_on (CHR ''/'') (rel_path ts)"
    by (rule split_on_concat)
  then have nd: "''..'' \<notin> set (split_on (CHR ''/'') ?p)"
    using assms by (auto simp: split_abs_path split_rel_path list_all_iff normal_def)
  have "filter (\<lambda>q. q \<noteq> [] \<and> q \<noteq> ''.'') (split_on (CHR ''/'') ?p) = path_parts (abs_path bs) @ path_parts (rel_path ts)"
    by (simp add: split path_parts_def)
  then have "clean_parts True [] (split_on (CHR ''/'') ?p) = bs @ ts"
    using assms nd by (simp add: clean_parts_normal)
  moreover have "path_IsAbs ?p" "abs_path bs \<noteq> []" by (simp_all add: path_IsAbs_def has_prefix_iff abs_path_def)
  ultimately show ?thesis by (simp add: path_Join_def path_Clean_def abs_path_def [of "bs @ ts"])
qed

lemma Clean_fixed:
  "\<not> path_IsAbs r \<Longrightarrow> r \<noteq> [] \<Longrightarrow> clean_parts False [] (split_on (CHR ''/'') r) = split_on (CHR ''/'') r \<Longrightarrow> path_Clean r = r"
  by (simp add: path_Clean_def join_split_on)

lemma up_not_local: "path_Clean r = r \<or> path_IsAbs r \<Longrightarrow> r = ''..'' \<or> has_prefix r ''../'' \<Longrightarrow> \<not> path_IsLocal r"
  by (auto simp: path_IsLocal_def Let_def)

lemma clean_dot_dot: "clean_parts False (replicate m ''..'') (''..'' # ps) = clean_parts False (replicate (Suc m) ''..'') ps"
  by (cases m) simp_all

lemma clean_dots:
  assumes "list_all normal ts"
  shows "clean_parts False (replicate m ''..'') (replicate n ''..'' @ ts) = replicate (m + n) ''..'' @ ts"
proof (induction n arbitrary: m)
  case 0
  have "''..'' \<notin> set ts" using assms by (auto simp: list_all_iff normal_def)
  with assms show ?case by (simp add: clean_parts_normal filter_normal rev_replicate)
next
  case (Suc n)
  have "replicate (Suc n) ''..'' @ ts = ''..'' # replicate n ''..'' @ ts" by simp
  then show ?case using Suc.IH [of "Suc m"] by (simp only: clean_dot_dot add_Suc_right add_Suc)
qed

lemma join_dots: "ps = ''..'' # qs \<Longrightarrow> join ''/'' ps = ''..'' \<or> has_prefix (join ''/'' ps) ''../''"
  by (cases qs) (simp_all add: has_prefix_iff)

lemma dots_not_local:
  assumes "list_all normal ts" "ps = replicate (Suc k) ''..'' @ ts"
  shows "\<not> path_IsLocal (join ''/'' ps)"
proof -
  have "set ps \<subseteq> {''..''} \<union> set ts" "ps \<noteq> []" unfolding assms(2) by (simp_all add: subset_iff)
  moreover have "CHR ''/'' \<notin> set p" if "p = ''..'' \<or> normal p" for p
    using that by (elim disjE) (simp_all add: normal_def)
  ultimately have "ps \<noteq> []" "\<forall>p\<in>set ps. CHR ''/'' \<notin> set p"
    using assms(1) by (blast, unfold list_all_iff, blast)
  then have split: "split_on (CHR ''/'') (join ''/'' ps) = ps" by (rule split_on_join)
  have dots: "join ''/'' ps = ''..'' \<or> has_prefix (join ''/'' ps) ''../''"
    by (rule join_dots [of _ "replicate k ''..'' @ ts"]) (simp add: assms(2))
  have "clean_parts False [] ps = ps" using clean_dots [OF assms(1), of 0 "Suc k"] by (simp only: assms(2) replicate_0 add_0)
  then have "clean_parts False [] (split_on (CHR ''/'') (join ''/'' ps)) = split_on (CHR ''/'') (join ''/'' ps)"
    by (simp only: split)
  moreover have "join ''/'' ps \<noteq> []" using dots by (auto simp: has_prefix_iff)
  ultimately have "path_Clean (join ''/'' ps) = join ''/'' ps \<or> path_IsAbs (join ''/'' ps)"
    using Clean_fixed [of "join ''/'' ps"] by blast
  then show ?thesis using dots by (rule up_not_local)
qed

lemma clean_parts_all:
  assumes "list_all P out" "list_all (\<lambda>q. q \<noteq> [] \<longrightarrow> P q) ps"
  shows "list_all P (clean_parts rooted out ps)"
  using assms
proof (induction ps arbitrary: out)
  case (Cons p ps)
  have IH: "list_all P (clean_parts rooted out' ps)" if "list_all P out'" for out'
    using Cons that by simp
  show ?case
  proof (cases "p = [] \<or> p = ''.''")
    case True
    with IH [OF Cons.prems(1)] show ?thesis by (simp only: clean_parts.simps if_True)
  next
    case False
    then have "P p" using Cons.prems(2) by simp
    with Cons.prems(1) False IH show ?thesis
      by (cases rooted; cases out; cases "p = ''..''"; cases "hd out = ''..''") simp_all
  qed
qed (simp add: list_all_iff)

lemma join_not_abs:
  assumes "list_all (\<lambda>q. q \<noteq> [] \<and> CHR ''/'' \<notin> set q) ps"
  shows "\<not> path_IsAbs (join ''/'' ps)"
proof (cases ps)
  case (Cons p qs)
  with assms obtain c r where "p = c # r" "c \<noteq> CHR ''/''" by (cases p) auto
  with Cons show ?thesis by (cases qs) (auto simp: path_IsAbs_def has_prefix_iff)
qed (simp add: path_IsAbs_def has_prefix_iff)

lemma IsAbs_Clean: "path_IsAbs (path_Clean p) = path_IsAbs p"
proof (cases "path_IsAbs p")
  case False
  let ?s = "join ''/'' (clean_parts False [] (split_on (CHR ''/'') p))"
  have "list_all (\<lambda>q. q \<noteq> [] \<longrightarrow> q \<noteq> [] \<and> CHR ''/'' \<notin> set q) (split_on (CHR ''/'') p)"
    using split_no_slash [of p] unfolding list_all_iff by blast
  then have "list_all (\<lambda>q. q \<noteq> [] \<and> CHR ''/'' \<notin> set q) (clean_parts False [] (split_on (CHR ''/'') p))"
    by (intro clean_parts_all) simp
  then have "\<not> path_IsAbs ?s" by (rule join_not_abs)
  with False show ?thesis by (simp add: path_Clean_def Let_def path_IsAbs_def [of "''.''"] has_prefix_iff)
qed (simp add: path_Clean_def path_IsAbs_def has_prefix_iff Let_def)

lemma abs_path_IsAbs [simp]: "path_IsAbs (abs_path ps)"
  by (simp add: abs_path_def path_IsAbs_def has_prefix_iff)

lemma Clean_abs_path [simp]:
  assumes "list_all normal ps"
  shows "path_Clean (abs_path ps) = abs_path ps"
proof -
  have "''..'' \<notin> set ps" using assms by (auto simp: list_all_iff normal_def)
  then have "clean_parts True [] (split_on (CHR ''/'') (abs_path ps)) = ps"
    using assms by (simp add: split_abs_path clean_parts_normal filter_normal)
  then have "path_Clean (abs_path ps) = CHR ''/'' # join ''/'' ps" by (simp add: path_Clean_def)
  then show ?thesis by (simp add: abs_path_def)
qed

lemma Rel_local:
  assumes "list_all normal bs" "path_Rel (abs_path bs) targ = Inr r" "path_IsLocal r"
  shows "\<exists>ts. list_all normal ts \<and> r = rel_path ts \<and> path_Clean targ = path_Join (abs_path bs) r"
proof (cases "path_Clean targ = abs_path bs")
  case True
  with assms(1,2) have "r = rel_path []" by (simp add: path_Rel_def rel_path_def)
  with True Clean_below [OF assms(1), of "[]"] show ?thesis by (intro exI [of _ "[]"]) simp
next
  case False
  obtain bs' ts where st: "strip_common bs (path_parts (path_Clean targ)) = (bs', ts)" by force
  from False assms(1,2) st have abs: "path_IsAbs (path_Clean targ)"
    and r: "r = join ''/'' (replicate (length bs') ''..'' @ ts)"
    by (auto simp: path_Rel_def Let_def split: if_splits)
  from abs have "path_IsAbs targ" by (simp add: IsAbs_Clean)
  then obtain ps where ps: "list_all normal ps" "path_Clean targ = abs_path ps" using Clean_absolute by blast
  then have st': "strip_common bs ps = (bs', ts)" using st by simp
  from strip_common_prefix [OF st'] obtain c where c: "bs = c @ bs'" "ps = c @ ts" by blast
  have ts: "list_all normal ts" using ps c by simp
  have "bs' = []"
  proof (cases bs')
    case (Cons b list)
    with r dots_not_local [OF ts, of _ "length list"] assms(3) show ?thesis by simp
  qed
  moreover from this have "ts \<noteq> []" using False c ps by auto
  ultimately show ?thesis using ts r c ps Clean_below [OF assms(1) ts] by (auto simp: rel_path_def)
qed

section \<open>Ancestors\<close>

lemma join_snoc: "ps \<noteq> [] \<Longrightarrow> join sep (ps @ [p]) = join sep ps @ sep @ p"
  by (induction sep ps rule: join.induct) (auto simp: join_Cons)

lemma Dir_rel_path:
  assumes "list_all normal ps" "normal p"
  shows "path_Dir (rel_path (ps @ [p])) = rel_path ps"
proof (cases "ps = []")
  case True
  then show ?thesis using assms
    by (simp add: path_Dir_def rel_path_def cut_last_None_iff [THEN iffD2] normal_def path_Clean_def path_IsAbs_def has_prefix_iff)
next
  case False
  have cut: "cut_last (CHR ''/'') (rel_path (ps @ [p])) = Some (join ''/'' ps, p)"
    using assms(2) False by (simp add: cut_last_Some_iff rel_path_def join_snoc normal_def)
  have split: "split_on (CHR ''/'') (join ''/'' ps @ ''/'') = ps @ [[]]"
    using split_on_concat [of "CHR ''/''" "join ''/'' ps" "[]"] split_join_normal [OF assms(1) False] by simp
  have "''..'' \<notin> set (ps @ [[]])" using assms(1) by (auto simp: list_all_iff normal_def)
  moreover have "\<not> path_IsAbs (join ''/'' ps @ ''/'')"
    using rel_path_not_abs [OF assms(1)] False join_eq_Nil_iff [OF assms(1), of "''/''"]
    by (cases "join ''/'' ps") (auto simp: rel_path_def path_IsAbs_def has_prefix_iff)
  ultimately have "path_Clean (join ''/'' ps @ ''/'') = rel_path (path_parts (join ''/'' ps @ ''/''))"
    by (intro Clean_relative) (simp_all only: split not_False_eq_True)
  also have "path_parts (join ''/'' ps @ ''/'') = ps"
    by (simp only: path_parts_def split filter_append filter_normal [OF assms(1)]) simp
  finally show ?thesis by (simp add: path_Dir_def cut)
qed

lemma rel_path_dot: "list_all normal ps \<Longrightarrow> rel_path ps = ''.'' \<longleftrightarrow> ps = []"
  using parts_rel_path [of ps] by (auto simp: rel_path_def path_parts_def)

text \<open>The loop over the ancestors ends before its bound, and visits every ancestor.\<close>

lemma ancestors_set:
  assumes "list_all normal ps" "length ps \<le> n"
  shows "set (ancestors n (rel_path ps)) = {rel_path qs | qs. qs \<noteq> [] \<and> prefix qs ps}"
  using assms
proof (induction ps arbitrary: n rule: rev_induct)
  case Nil
  then show ?case by (cases n) (simp_all add: rel_path_def)
next
  case (snoc p ps)
  obtain m where n: "n = Suc m" using snoc.prems(2) by (cases n) auto
  have "set (ancestors n (rel_path (ps @ [p]))) = insert (rel_path (ps @ [p])) (set (ancestors m (rel_path ps)))"
    using snoc.prems n by (simp add: rel_path_dot Dir_rel_path)
  also have "set (ancestors m (rel_path ps)) = {rel_path qs | qs. qs \<noteq> [] \<and> prefix qs ps}"
    using snoc n by simp
  also have "insert (rel_path (ps @ [p])) {rel_path qs | qs. qs \<noteq> [] \<and> prefix qs ps}
      = {rel_path qs | qs. qs \<noteq> [] \<and> prefix qs (ps @ [p])}"
    by (auto simp: prefix_snoc)
  finally show ?case .
qed

lemma ancestors_enough:
  assumes "list_all normal ps" "length ps \<le> n"
  shows "ancestors (n + m) (rel_path ps) = ancestors n (rel_path ps)"
  using assms
proof (induction ps arbitrary: n rule: rev_induct)
  case Nil
  then show ?case by (cases n; cases m) (simp_all add: rel_path_def)
next
  case (snoc p ps)
  then obtain k where "n = Suc k" by (cases n) auto
  with snoc show ?case by (simp add: Dir_rel_path)
qed

lemma length_rel_path: "list_all normal ps \<Longrightarrow> length ps \<le> length (rel_path ps)"
proof (induction ps)
  case (Cons p ps)
  then show ?case by (cases ps; cases p) (auto simp: rel_path_def normal_def)
qed (simp add: rel_path_def)

lemma excluded_descends:
  assumes "list_all normal (ps @ qs)" "excluded glob patterns (rel_path ps)"
  shows "excluded glob patterns (rel_path (ps @ qs))"
proof -
  have "set (ancestors (length (rel_path ps) + 1) (rel_path ps)) \<subseteq> set (ancestors (length (rel_path (ps @ qs)) + 1) (rel_path (ps @ qs)))"
    using assms(1) length_rel_path [of ps] length_rel_path [of "ps @ qs"]
    by (subst (1 2) ancestors_set) (auto intro: prefix_order.trans)
  with assms(2) show ?thesis unfolding excluded_def by blast
qed

section \<open>Confinement\<close>

text \<open>The elements of an allowed path: none is private upload state, none is hidden by the policy.\<close>

definition visible :: "Local \<Rightarrow> string list \<Rightarrow> bool" where
  "visible f ps \<longleftrightarrow> (\<forall>p\<in>set ps. normal p \<and> \<not> private_part p \<and> \<not> part_hidden f p)"

lemma visible_normal: "visible f ps \<Longrightarrow> list_all normal ps"
  by (simp add: visible_def list_all_iff)

lemma allowed_visible: "list_all normal ps \<Longrightarrow> allowed glob f (rel_path ps) \<Longrightarrow> visible f ps"
  by (cases "ps = []") (auto simp: allowed_def visible_def split_rel_path rel_path_dot list_all_iff split: if_splits)

lemma allowed_ancestor:
  assumes "lo_file f = []" "list_all normal (ps @ qs)" "allowed glob f (rel_path (ps @ qs))"
  shows "allowed glob f (rel_path ps)"
proof -
  have "\<not> excluded glob (fp_Exclude (lo_policy f)) (rel_path ps)"
    using assms excluded_descends by (auto simp: allowed_def)
  moreover have "visible f (ps @ qs)" using assms(2,3) by (rule allowed_visible)
  moreover have "\<not> private_part ''.''" "\<not> part_hidden f ''.''"
    by (simp_all add: private_part_def part_hidden_def uploadPrefix_def to_lower_def has_prefix_iff)
  ultimately show ?thesis
    using assms(1,2) by (simp add: allowed_def split_rel_path visible_def)
qed

lemma join_append: "as \<noteq> [] \<Longrightarrow> bs \<noteq> [] \<Longrightarrow> join sep (as @ bs) = join sep as @ sep @ join sep bs"
  by (induction sep as rule: join.induct) (auto simp: join_Cons)

lemma rel_path_subset: "set (rel_path ps) \<subseteq> insert (CHR ''.'') (set (rel_path (ps @ qs)))"
  by (cases "ps = []"; cases "qs = []") (auto simp: rel_path_def join_append)

lemma lexical_ancestor:
  assumes "lo_file f = []" "lexical glob f name = Inr (rel_path (ps @ qs))" "list_all normal (ps @ qs)"
  shows "lexical glob f (rel_path ps) = Inr (rel_path ps)"
proof -
  obtain ps' where "list_all normal ps'" "rel_path (ps @ qs) = rel_path ps'" "allowed glob f (rel_path (ps @ qs))"
    and chars: "CHR 0x5C \<notin> set (rel_path (ps @ qs))" "CHR 0x00 \<notin> set (rel_path (ps @ qs))"
    using lexical_Inr [OF assms(2)] by auto
  then have "allowed glob f (rel_path ps)" using assms allowed_ancestor by blast
  with assms(3) chars rel_path_subset [of ps qs] show ?thesis by (intro lexical_normal [of ps]) auto
qed

lemma resolve_Inr:
  assumes "resolve glob EvalSymlinks f name parent = Inr t"
  obtains rel resolved where "lexical glob f name = Inr rel"
    and "EvalSymlinks (if parent then path_Dir (path_Join (lo_path f) rel) else path_Join (lo_path f) rel) = Inr resolved"
    and "path_Rel (lo_path f) (if parent then path_Join resolved (path_Base (path_Join (lo_path f) rel)) else resolved) = Inr t"
    and "path_IsLocal t" "allowed glob f t"
proof -
  from assms obtain rel where rel: "lexical glob f name = Inr rel" by (auto simp: resolve_def)
  with assms obtain resolved where
    res: "EvalSymlinks (if parent then path_Dir (path_Join (lo_path f) rel) else path_Join (lo_path f) rel) = Inr resolved"
    by (auto simp: resolve_def Let_def)
  let ?r = "path_Rel (lo_path f) (if parent then path_Join resolved (path_Base (path_Join (lo_path f) rel)) else resolved)"
  have "(case ?r of Inl _ \<Rightarrow> Inl ErrPermission
        | Inr r \<Rightarrow> if \<not> path_IsLocal r then Inl ErrPermission else if \<not> allowed glob f r then Inl ErrNotExist else Inr r) = Inr t"
    using assms rel res by (simp add: resolve_def Let_def)
  then have "?r = Inr t \<and> path_IsLocal t \<and> allowed glob f t" by (cases ?r) (simp_all split: if_splits)
  with rel res that show ?thesis by blast
qed

lemma resolve_visible:
  assumes "lo_path f = abs_path bs" "list_all normal bs" "resolve glob EvalSymlinks f name parent = Inr t"
  shows "\<exists>ts. visible f ts \<and> t = rel_path ts"
  using assms(3)
proof (rule resolve_Inr)
  fix rel resolved
  assume "path_Rel (lo_path f) (if parent then path_Join resolved (path_Base (path_Join (lo_path f) rel)) else resolved) = Inr t"
    and t: "path_IsLocal t" "allowed glob f t"
  from Rel_local [OF assms(2) this(1) [unfolded assms(1)] t(1)] obtain ts where "list_all normal ts" "t = rel_path ts" by blast
  with allowed_visible t(2) show ?thesis by blast
qed

lemma visible_not_private: "visible f ts \<Longrightarrow> \<not> privateUploadPath (rel_path ts)"
  by (auto simp: privateUploadPath_def visible_def split_rel_path list_all_iff private_part_def uploadPrefix_def
      to_lower_def has_prefix_iff)

text \<open>A staged file lies beside its target, under a reserved name.\<close>

lemma Base_rel_path:
  assumes "list_all normal ps" "normal n"
  shows "path_Base (rel_path (ps @ [n])) = n"
proof -
  obtain k c where n: "n = k @ [c]" "c \<noteq> CHR ''/''" using assms(2) by (cases n rule: rev_cases) (auto simp: normal_def)
  have r: "rel_path (ps @ [n]) = (if ps = [] then n else join ''/'' ps @ ''/'' @ n)" by (simp add: rel_path_def join_snoc)
  have "cut_last (CHR ''/'') (rel_path (ps @ [n])) = (if ps = [] then None else Some (join ''/'' ps, n))"
    using assms(2) by (auto simp: r normal_def cut_last_None_iff cut_last_Some_iff)
  moreover have "rev (dropWhile (\<lambda>c. c = CHR ''/'') (rev (rel_path (ps @ [n])))) = rel_path (ps @ [n])"
    unfolding r using n by simp
  moreover have "rel_path (ps @ [n]) \<noteq> []" unfolding r using n by simp
  ultimately show ?thesis unfolding path_Base_def Let_def using r by (cases "ps = []") simp_all
qed

lemma Join_rel_path:
  assumes "list_all normal ps" "normal n"
  shows "path_Join (rel_path ps) n = rel_path (ps @ [n])"
proof -
  let ?p = "rel_path ps @ CHR ''/'' # n"
  have split: "split_on (CHR ''/'') ?p = split_on (CHR ''/'') (rel_path ps) @ [n]"
    using assms(2) by (simp add: split_on_concat split_on_no_sep normal_def)
  have "''..'' \<notin> set (split_on (CHR ''/'') ?p)"
    using rel_path_no_dots [OF assms(1)] assms(2) by (auto simp: split normal_def)
  moreover have ne: "rel_path ps \<noteq> []" using rel_path_IsLocal [OF assms(1)] by (simp add: path_IsLocal_def)
  moreover from ne have "\<not> path_IsAbs ?p"
    using rel_path_not_abs [OF assms(1)] by (cases "rel_path ps") (auto simp: path_IsAbs_def has_prefix_iff)
  moreover have "path_parts ?p = path_parts (rel_path ps) @ [n]"
    using assms(2) by (simp add: path_parts_def split normal_def)
  ultimately show ?thesis using assms by (simp add: path_Join_def Clean_relative)
qed

lemma staged_path:
  assumes "list_all normal ts" "CHR ''/'' \<notin> set rnd"
  defines "temporary \<equiv> path_Join (path_Dir (rel_path ts)) (uploadPrefix @ rnd)"
  shows "privateUploadPath temporary" "has_prefix (path_Base temporary) uploadPrefix" "temporary \<noteq> []"
proof -
  let ?n = "uploadPrefix @ rnd"
  have n: "normal ?n" using assms(2) by (auto simp: normal_def uploadPrefix_def)
  have dir: "path_Dir (rel_path ts) = rel_path (butlast ts)"
  proof (cases ts rule: rev_cases)
    case Nil
    then show ?thesis by (simp add: rel_path_def) code_simp
  next
    case (snoc ds d)
    with assms(1) show ?thesis by (simp add: Dir_rel_path)
  qed
  have ds: "list_all normal (butlast ts)" using assms(1) by (auto simp: list_all_iff dest: in_set_butlastD)
  have t: "temporary = rel_path (butlast ts @ [?n])" unfolding temporary_def dir by (rule Join_rel_path [OF ds n])
  have all: "list_all normal (butlast ts @ [?n])" using ds n by simp
  have "to_lower uploadPrefix = uploadPrefix" by code_simp
  then have "private_part ?n" by (simp add: private_part_def to_lower_append)
  then show "privateUploadPath temporary" unfolding t privateUploadPath_def split_rel_path [OF all] by simp
  show "has_prefix (path_Base temporary) uploadPrefix" unfolding t Base_rel_path [OF ds n] by simp
  show "temporary \<noteq> []" unfolding t using rel_path_IsLocal [OF all] by (simp add: path_IsLocal_def)
qed


definition sample_local :: Local where
  "sample_local = \<lparr>lo_path = ''/srv'', lo_file = [],
     lo_policy = \<lparr>fp_StateDir = [], fp_ReadOnly = False, fp_HideHidden = True, fp_Exclude = [''tmp''],
       fp_MaxEntries = 0, fp_AllowFile = False\<rparr>\<rparr>"


end
