(* ===== verification/Revision.thy ===== *)
theory Revision
  imports Prelude
begin

text \<open>
  Conditional requests of the file server (\<^verbatim>\<open>filesystem/preconditions.go\<close>): the entity-tag
  lists of \<^verbatim>\<open>If-Match\<close> and \<^verbatim>\<open>If-None-Match\<close>, and the decision
  \<^verbatim>\<open>checkRevisionConditions\<close> takes on them. The reference is a grammar of entity-tag
  lists and the strong and weak comparison of RFC 9110.
\<close>

section \<open>The code\<close>

abbreviation dquote :: char where
  "dquote \<equiv> CHR 0x22"

definition etag_byte :: "char \<Rightarrow> bool" where
  "etag_byte c \<longleftrightarrow> \<not> (nat_of_byte c < 0x21 \<or> nat_of_byte c = 0x7f)"

lemma cut_byte_length: "cut_byte c s = Some (a, b) \<Longrightarrow> length b < length s"
  by (auto simp: cut_byte_Some_iff)

lemma match_loop_shorter:
  assumes "cut_byte dquote (tl w) = Some (opaque, rest)" "length w \<le> length v"
  shows "length (trim_space (tl (trim_space rest))) < length v"
  using cut_byte_length [OF assms(1)] assms(2) trim_space_length [of "tl (trim_space rest)"] trim_space_length [of rest]
  by simp

text \<open>The loop of \<^verbatim>\<open>matchRevision\<close>: whether a tag matched, and whether the list is valid.\<close>

function match_loop :: "string \<Rightarrow> bool \<Rightarrow> bool \<Rightarrow> bool \<Rightarrow> string \<Rightarrow> bool \<times> bool" where
  "match_loop revision exists weakAllowed matched v =
    (if v = [] then (False, False)
     else
       let weak = has_prefix v ''W/'';
           v = (if weak then drop 2 v else v)
       in if length v < 2 \<or> hd v \<noteq> dquote then (False, False)
          else (case cut_byte dquote (tl v) of
            None \<Rightarrow> (False, False)
          | Some (opaque, rest) \<Rightarrow>
              if \<not> list_all etag_byte opaque then (False, False)
              else
                let matched = (matched \<or> exists \<and> (\<not> weak \<or> weakAllowed) \<and> dquote # opaque @ [dquote] = revision);
                    v = trim_space rest
                in if v = [] then (matched, True)
                   else if hd v \<noteq> CHR '','' then (False, False)
                   else
                     let v = trim_space (tl v) in
                     if v = [] then (False, False)
                     else match_loop revision exists weakAllowed matched v))"
  by pat_completeness auto

termination
  by (relation "measure (\<lambda>(revision, exists, weakAllowed, matched, v). length v)")
     (auto intro: match_loop_shorter)

declare match_loop.simps [simp del]

definition matchRevision :: "string \<Rightarrow> string \<Rightarrow> bool \<Rightarrow> bool \<Rightarrow> bool \<times> bool" where
  "matchRevision v revision exists weakAllowed =
    (let v = trim_space v in
     if v = ''*'' then (exists, True) else match_loop revision exists weakAllowed False v)"

definition conditions_invalid :: "bool \<Rightarrow> string list \<Rightarrow> bool" where
  "conditions_invalid exists conditions \<longleftrightarrow>
     (\<exists>condition\<in>set conditions. condition \<noteq> [] \<and> \<not> snd (matchRevision condition [] exists True))"

definition needs_revision :: "string list \<Rightarrow> bool" where
  "needs_revision conditions \<longleftrightarrow> (\<exists>condition\<in>set conditions. condition \<noteq> [] \<and> trim_space condition \<noteq> ''*'')"

text \<open>Both conditions are judged by \<^verbatim>\<open>checkRevisionConditions\<close>; zero lets the request pass.\<close>

definition checkRevisionConditions :: "bool \<Rightarrow> string \<Rightarrow> string \<Rightarrow> 'e + string \<Rightarrow> nat" where
  "checkRevisionConditions exists match none loadRevision =
    (if conditions_invalid exists [match, none] then 400
     else
       let revision = (if exists \<and> needs_revision [match, none] then loadRevision else Inr [])
       in case revision of
         Inl _ \<Rightarrow> 503
       | Inr revision \<Rightarrow>
           let (matched, ok) = matchRevision match revision exists False;
               (named, ok') = matchRevision none revision exists True
           in if match \<noteq> [] \<and> \<not> ok then 400
              else if match \<noteq> [] \<and> \<not> matched then 412
              else if none \<noteq> [] \<and> \<not> ok' then 400
              else if none \<noteq> [] \<and> named then 412
              else 0)"

definition digestRevision :: "string \<Rightarrow> string" where
  "digestRevision digest = dquote # ''sha256-'' @ digest @ [dquote]"


section \<open>The reference\<close>

text \<open>An entity tag is its weakness and its opaque text.\<close>

type_synonym etag = "bool \<times> string"

definition etag_ok :: "etag \<Rightarrow> bool" where
  "etag_ok t \<longleftrightarrow> list_all etag_byte (snd t) \<and> dquote \<notin> set (snd t)"

definition quoted :: "etag \<Rightarrow> string" where
  "quoted t = dquote # snd t @ [dquote]"

definition etag_text :: "etag \<Rightarrow> string" where
  "etag_text t = (if fst t then ''W/'' else []) @ quoted t"

inductive etag_list :: "string \<Rightarrow> etag list \<Rightarrow> bool" where
  last_tag: "\<lbrakk>etag_ok t; trim_space v = etag_text t @ rest; trim_space rest = []\<rbrakk> \<Longrightarrow> etag_list v [t]"
| more_tags: "\<lbrakk>etag_ok t; trim_space v = etag_text t @ rest; trim_space rest = CHR '','' # v'; etag_list v' ts\<rbrakk> \<Longrightarrow>
    etag_list v (t # ts)"

inductive_cases etag_listE: "etag_list v ts"

text \<open>The comparison: a weak tag counts only where weak comparison is allowed.\<close>

definition tag_matches :: "string \<Rightarrow> bool \<Rightarrow> etag list \<Rightarrow> bool" where
  "tag_matches revision weakAllowed ts \<longleftrightarrow> (\<exists>t\<in>set ts. (fst t \<longrightarrow> weakAllowed) \<and> quoted t = revision)"

definition condition_valid :: "string \<Rightarrow> bool" where
  "condition_valid c \<longleftrightarrow> trim_space c = ''*'' \<or> (\<exists>ts. etag_list c ts)"

definition condition_selects :: "string \<Rightarrow> bool \<Rightarrow> string \<Rightarrow> bool" where
  "condition_selects revision weakAllowed c \<longleftrightarrow>
     trim_space c = ''*'' \<or> (\<exists>ts. etag_list c ts \<and> tag_matches revision weakAllowed ts)"

text \<open>One round of the loop on a list that begins with a tag.\<close>

lemma etag_text_cut:
  assumes "etag_ok t"
  shows "has_prefix (etag_text t @ rest) ''W/'' = fst t"
    and "(if fst t then drop 2 (etag_text t @ rest) else etag_text t @ rest) = quoted t @ rest"
    and "cut_byte dquote (tl (quoted t @ rest)) = Some (snd t, rest)"
  using assms by (auto simp: etag_text_def quoted_def has_prefix_iff cut_byte_Some_iff etag_ok_def)

lemma match_loop_tag:
  assumes "etag_ok t"
  shows "match_loop revision exists weakAllowed matched (etag_text t @ rest) =
    (let matched = (matched \<or> exists \<and> (fst t \<longrightarrow> weakAllowed) \<and> quoted t = revision);
         v = trim_space rest
     in if v = [] then (matched, True)
        else if hd v \<noteq> CHR '','' then (False, False)
        else
          let v = trim_space (tl v) in
          if v = [] then (False, False) else match_loop revision exists weakAllowed matched v)"
proof -
  have ne: "etag_text t @ rest \<noteq> []" "\<not> (length (quoted t @ rest) < 2 \<or> hd (quoted t @ rest) \<noteq> dquote)"
    "list_all etag_byte (snd t)" "dquote # snd t @ [dquote] = quoted t"
    using assms by (auto simp: etag_text_def quoted_def etag_ok_def)
  have imp: "(\<not> fst t \<or> weakAllowed) = (fst t \<longrightarrow> weakAllowed)" by blast
  show ?thesis
    by (subst match_loop.simps)
       (simp only: ne etag_text_cut [OF assms] Let_def if_False if_True option.case prod.case simp_thms imp)
qed

lemma etag_list_trim: "etag_list (trim_space v) ts \<longleftrightarrow> etag_list v ts"
  by (subst (1 2) etag_list.simps) simp

lemma etag_list_nonempty:
  assumes "etag_list v ts"
  shows "trim_space v \<noteq> []" "trim_space v \<noteq> ''*''"
  using assms by (cases rule: etag_list.cases; simp add: etag_text_def quoted_def split: if_splits)+

lemma match_loop_first:
  assumes "match_loop revision exists weakAllowed matched v = (m, True)"
  obtains t rest where "etag_ok t" "v = etag_text t @ rest"
proof -
  let ?v = "if has_prefix v ''W/'' then drop 2 v else v"
  obtain opaque rest where cut: "cut_byte dquote (tl ?v) = Some (opaque, rest)" "list_all etag_byte opaque"
    and v: "v \<noteq> []" "\<not> (length ?v < 2 \<or> hd ?v \<noteq> dquote)"
    using assms by (subst (asm) match_loop.simps) (simp add: Let_def split: if_splits option.splits prod.splits)
  let ?t = "(has_prefix v ''W/'', opaque)"
  have "?v = dquote # opaque @ dquote # rest" using cut(1) v(2) by (cases ?v) (auto simp: cut_byte_Some_iff)
  then have "etag_ok ?t" "v = etag_text ?t @ rest"
    using cut by (auto simp: etag_ok_def etag_text_def quoted_def cut_byte_Some_iff has_prefix_iff split: if_splits)
  then show ?thesis by (rule that)
qed

lemma match_loop_valid:
  assumes "match_loop revision exists weakAllowed matched v = (m, True)" "trim_space v = v"
  shows "\<exists>ts. etag_list v ts \<and> (m \<longleftrightarrow> matched \<or> exists \<and> tag_matches revision weakAllowed ts)"
  using assms
proof (induction "length v" arbitrary: matched v rule: less_induct)
  case less
  obtain t rest where t: "etag_ok t" "v = etag_text t @ rest" using match_loop_first [OF less.prems(1)] .
  let ?matched = "matched \<or> exists \<and> (fst t \<longrightarrow> weakAllowed) \<and> quoted t = revision"
  let ?v = "trim_space rest"
  note loop = less.prems(1) [unfolded t(2) match_loop_tag [OF t(1)] Let_def]
  show ?case
  proof (cases "?v = []")
    case True
    then have "etag_list v [t]" using t less.prems(2) by (auto intro: last_tag)
    with True loop show ?thesis by (intro exI [of _ "[t]"]) (auto simp: tag_matches_def)
  next
    case False
    with loop have v': "?v = CHR '','' # tl ?v" "trim_space (tl ?v) \<noteq> []"
      "match_loop revision exists weakAllowed ?matched (trim_space (tl ?v)) = (m, True)"
      by (cases ?v; auto split: if_splits)+
    have "length (trim_space (tl ?v)) \<le> length rest"
      using trim_space_length [of "tl ?v"] trim_space_length [of rest] by simp
    then have "length (trim_space (tl ?v)) < length v" using t(2) by (simp add: etag_text_def quoted_def)
    from less.hyps [OF this v'(3)] obtain ts where ts: "etag_list (tl ?v) ts"
      "m \<longleftrightarrow> ?matched \<or> exists \<and> tag_matches revision weakAllowed ts" by (auto simp: etag_list_trim)
    have "etag_list v (t # ts)" using t ts(1) v'(1) less.prems(2) by (auto intro: more_tags)
    with ts(2) show ?thesis by (intro exI [of _ "t # ts"]) (auto simp: tag_matches_def)
  qed
qed

lemma match_loop_list:
  assumes "etag_list v ts"
  shows "match_loop revision exists weakAllowed matched (trim_space v)
    = (matched \<or> exists \<and> tag_matches revision weakAllowed ts, True)"
  using assms
proof (induction arbitrary: matched rule: etag_list.induct)
  case (last_tag t v rest)
  then show ?case by (simp add: match_loop_tag tag_matches_def)
next
  case (more_tags t v rest v' ts)
  have "trim_space v' \<noteq> []" by (rule etag_list_nonempty) fact
  with more_tags show ?case by (auto simp: match_loop_tag tag_matches_def)
qed

lemma selects_tags:
  assumes "etag_list v ts"
  shows "condition_selects revision weakAllowed v \<longleftrightarrow> tag_matches revision weakAllowed ts"
proof -
  have "tag_matches revision weakAllowed ts' \<longleftrightarrow> tag_matches revision weakAllowed ts" if "etag_list v ts'" for ts'
    using match_loop_list [OF assms, of revision True weakAllowed False]
      match_loop_list [OF that, of revision True weakAllowed False] by simp
  then show ?thesis unfolding condition_selects_def using assms etag_list_nonempty(2) [OF assms] by blast
qed

lemma matchRevision_iff:
  "matchRevision v revision exists weakAllowed = (m, True) \<longleftrightarrow>
     condition_valid v \<and> (m \<longleftrightarrow> exists \<and> condition_selects revision weakAllowed v)"
proof (cases "trim_space v = ''*''")
  case True
  then show ?thesis by (auto simp: matchRevision_def condition_valid_def condition_selects_def)
next
  case False
  then have eq: "matchRevision v revision exists weakAllowed = match_loop revision exists weakAllowed False (trim_space v)"
    by (simp add: matchRevision_def)
  show ?thesis
  proof
    assume "matchRevision v revision exists weakAllowed = (m, True)"
    then have "match_loop revision exists weakAllowed False (trim_space v) = (m, True)" by (simp only: eq)
    from match_loop_valid [OF this] obtain ts where ts: "etag_list v ts" "m \<longleftrightarrow> exists \<and> tag_matches revision weakAllowed ts"
      by (auto simp: etag_list_trim)
    then show "condition_valid v \<and> (m \<longleftrightarrow> exists \<and> condition_selects revision weakAllowed v)"
      using selects_tags [OF ts(1)] unfolding condition_valid_def by blast
  next
    assume *: "condition_valid v \<and> (m \<longleftrightarrow> exists \<and> condition_selects revision weakAllowed v)"
    with False obtain ts where ts: "etag_list v ts" by (auto simp: condition_valid_def)
    show "matchRevision v revision exists weakAllowed = (m, True)"
      using * by (simp add: eq match_loop_list [OF ts] selects_tags [OF ts])
  qed
qed

lemma matchRevision_valid: "snd (matchRevision v revision exists weakAllowed) = condition_valid v"
  using matchRevision_iff [of v revision exists weakAllowed "fst (matchRevision v revision exists weakAllowed)"]
    matchRevision_iff [of v revision exists weakAllowed "exists \<and> condition_selects revision weakAllowed v"]
  by (metis prod.collapse snd_conv)

lemma matchRevision_valid_fst:
  "condition_valid v \<Longrightarrow> fst (matchRevision v revision exists weakAllowed) = (exists \<and> condition_selects revision weakAllowed v)"
  using matchRevision_iff [of v revision exists weakAllowed "exists \<and> condition_selects revision weakAllowed v"] by simp

lemma conditions_invalid_iff:
  "conditions_invalid exists [match, none] \<longleftrightarrow>
    (match \<noteq> [] \<and> \<not> condition_valid match) \<or> (none \<noteq> [] \<and> \<not> condition_valid none)"
  by (auto simp: conditions_invalid_def matchRevision_valid)

text \<open>A condition fails for a file of the revision \<open>r\<close>.\<close>

definition conditions_fail :: "bool \<Rightarrow> string \<Rightarrow> string \<Rightarrow> string \<Rightarrow> bool" where
  "conditions_fail exists match none r \<longleftrightarrow>
     match \<noteq> [] \<and> \<not> (exists \<and> condition_selects r False match) \<or> none \<noteq> [] \<and> exists \<and> condition_selects r True none"

lemma conditions_decided:
  assumes "\<not> conditions_invalid exists [match, none]"
  shows "(let (matched, ok) = matchRevision match r exists False; (named, ok') = matchRevision none r exists True
      in if match \<noteq> [] \<and> \<not> ok then 400 else if match \<noteq> [] \<and> \<not> matched then 412
         else if none \<noteq> [] \<and> \<not> ok' then 400 else if none \<noteq> [] \<and> named then 412 else 0) =
     (if conditions_fail exists match none r then 412 else (0::nat))"
  using assms unfolding conditions_invalid_iff
  by (auto simp: conditions_fail_def Let_def split_beta matchRevision_valid matchRevision_valid_fst)

lemma checkRevisionConditions_valid:
  assumes "\<not> conditions_invalid exists [match, none]"
  shows "checkRevisionConditions exists match none load =
    (case (if exists \<and> needs_revision [match, none] then load else Inr []) of
       Inl _ \<Rightarrow> 503
     | Inr r \<Rightarrow> if conditions_fail exists match none r then 412 else 0)"
  using assms
  by (cases "if exists \<and> needs_revision [match, none] then load else Inr []")
     (simp_all only: checkRevisionConditions_def Let_def [of "Inl _"] Let_def [of "Inr _"] if_False sum.case conditions_decided [OF assms])

text \<open>A condition without entity tags does not depend on the revision.\<close>

lemma conditions_fail_any:
  assumes "\<not> (exists \<and> needs_revision [match, none])"
  shows "conditions_fail exists match none r = conditions_fail exists match none r'"
  using assms unfolding needs_revision_def condition_selects_def conditions_fail_def
  by (cases "match = []"; cases "none = []") auto

text \<open>
  C38. A conditional request is decided as the entity-tag grammar and the comparison rules say:
  400 exactly when a condition that is present is no entity-tag list and no \<^verbatim>\<open>*\<close>; 503 exactly
  when the revision is needed, by a tag on an existing file, and cannot be computed; 412 when
  \<^verbatim>\<open>If-Match\<close> does not select the file by strong comparison or \<^verbatim>\<open>If-None-Match\<close> selects
  it by weak comparison; and it passes otherwise.
\<close>

theorem conditional_requests_decided:
  "checkRevisionConditions exists match none load =
    (if (match \<noteq> [] \<and> \<not> condition_valid match) \<or> (none \<noteq> [] \<and> \<not> condition_valid none) then 400
     else if exists \<and> needs_revision [match, none] \<and> \<not> is_ok load then 503
     else
       let revision = (case load of Inr r \<Rightarrow> r | Inl _ \<Rightarrow> []) in
       if match \<noteq> [] \<and> \<not> (exists \<and> condition_selects revision False match)
         \<or> none \<noteq> [] \<and> exists \<and> condition_selects revision True none then 412
       else 0)"
proof -
  have "checkRevisionConditions exists match none load =
    (if conditions_invalid exists [match, none] then 400
     else if exists \<and> needs_revision [match, none] \<and> \<not> is_ok load then 503
     else if conditions_fail exists match none (case load of Inr r \<Rightarrow> r | Inl _ \<Rightarrow> []) then 412 else 0)"
  proof (cases "conditions_invalid exists [match, none]")
    case True
    then show ?thesis by (simp add: checkRevisionConditions_def)
  next
    case valid: False
    show ?thesis
    proof (cases "exists \<and> needs_revision [match, none]")
      case True
      with valid show ?thesis unfolding checkRevisionConditions_valid [OF valid] by (cases load) simp_all
    next
      case False
      with conditions_fail_any [OF False, of "[]"] valid show ?thesis
        unfolding checkRevisionConditions_valid [OF valid] by auto
    qed
  qed
  then show ?thesis by (simp only: conditions_fail_def conditions_invalid_iff Let_def)
qed

end
