(* ===== verification/Upload.thy ===== *)
theory Upload
  imports Paths Revision Hex "HOL-Library.AList"
begin

text \<open>
  Durable uploads of the file server (\<^verbatim>\<open>filesystem/receipts.go\<close>,
  \<^verbatim>\<open>atomic_upload.go\<close>, \<^verbatim>\<open>journal.go\<close>, \<^verbatim>\<open>preconditions.go\<close>): a PUT is staged
  in a temporary file, announced in a pending journal record, renamed over its target and then
  answered by a receipt, under the lock of the namespace.

  Every operation is a function of the disk and of a list of events, one for each system call: what
  other programs do to the exported files before the call, and whether the call goes through, fails,
  or is the last thing the process does. An operation that is cut short returns \<open>None\<close>. A call with
  no event left goes through.
\<close>

section \<open>The disk\<close>

record receiptRecord =
  rr_ID :: string
  rr_Path :: string
  rr_State :: string
  rr_Status :: nat
  rr_Size :: string
  rr_SHA256 :: string
  rr_Revision :: string
  rr_StartedAt :: string
  rr_CompletedAt :: string
  rr_Fingerprint :: string
  rr_Target :: string
  rr_Temporary :: string
  rr_FileIdentity :: "nat option"

record fs_file =
  fi_id :: nat
  fi_data :: bytes

text \<open>
  A rename of a staged upload over its target. The renames and the receipts ever written are kept
  beside the disk; no operation looks at them.
\<close>

record upload_rename =
  rn_id :: string
  rn_target :: string
  rn_file :: nat
  rn_data :: bytes

text \<open>
  What other programs do to the export. They keep away from the reserved names, as the service
  requires of them, and a file they create is a new file.
\<close>

datatype outside =
    OutCreate string bytes
  | OutModify string bytes
  | OutRemove string
  | OutMove string string

datatype call_outcome = Goes | Fails | Dies

record world =
  w_files :: "string \<rightharpoonup> fs_file"
  w_nextid :: nat
  w_journal :: "(string \<times> receiptRecord) list"
  w_synced :: "(string \<times> receiptRecord) list"
  w_receipts :: "receiptRecord list"
  w_renames :: "upload_rename list"
  w_unsynced :: "string list"
  w_events :: "(outside list \<times> call_outcome) list"

fun outside_step :: "outside \<Rightarrow> world \<Rightarrow> world" where
  "outside_step (OutCreate p d) w =
    (if privateUploadPath p then w
     else w\<lparr>w_files := (w_files w)(p \<mapsto> \<lparr>fi_id = w_nextid w, fi_data = d\<rparr>), w_nextid := w_nextid w + 1\<rparr>)"
| "outside_step (OutModify p d) w =
    (if privateUploadPath p then w
     else case w_files w p of
       None \<Rightarrow> w
     | Some f \<Rightarrow> w\<lparr>w_files := (w_files w)(p \<mapsto> f\<lparr>fi_data := d\<rparr>)\<rparr>)"
| "outside_step (OutRemove p) w =
    (if privateUploadPath p then w else w\<lparr>w_files := (w_files w)(p := None)\<rparr>)"
| "outside_step (OutMove p q) w =
    (if privateUploadPath p \<or> privateUploadPath q then w
     else case w_files w p of
       None \<Rightarrow> w
     | Some f \<Rightarrow> w\<lparr>w_files := (w_files w)(p := None, q \<mapsto> f)\<rparr>)"

type_synonym 'a io = "world \<Rightarrow> 'a option \<times> world"

definition io_return :: "'a \<Rightarrow> 'a io" where
  "io_return a w = (Some a, w)"

definition io_bind :: "'a io \<Rightarrow> ('a \<Rightarrow> 'b io) \<Rightarrow> 'b io" where
  "io_bind m f w = (case m w of (None, w') \<Rightarrow> (None, w') | (Some a, w') \<Rightarrow> f a w')"

text \<open>The common \<^verbatim>\<open>if err != nil { return err }\<close>.\<close>

definition io_try :: "('e + 'a) io \<Rightarrow> ('a \<Rightarrow> ('e + 'b) io) \<Rightarrow> ('e + 'b) io" where
  "io_try m f = io_bind m (\<lambda>r. case r of Inl e \<Rightarrow> io_return (Inl e) | Inr a \<Rightarrow> f a)"

definition syscall :: "(world \<Rightarrow> (fs_error + 'a) \<times> world) \<Rightarrow> (fs_error + 'a) io" where
  "syscall call w =
    (case w_events w of
       [] \<Rightarrow> (case call w of (r, w') \<Rightarrow> (Some r, w'))
     | (changes, outcome) # events \<Rightarrow>
         let w = fold outside_step changes (w\<lparr>w_events := events\<rparr>) in
         (case outcome of
            Goes \<Rightarrow> (case call w of (r, w') \<Rightarrow> (Some r, w'))
          | Fails \<Rightarrow> (Some (Inl ErrIO), w)
          | Dies \<Rightarrow> (None, w)))"

text \<open>Calls whose success is all that matters, and calls on the exported files.\<close>

definition sys_check :: "(fs_error + unit) io" where
  "sys_check = syscall (\<lambda>w. (Inr (), w))"

definition fs_stat :: "string \<Rightarrow> (fs_error + fs_file) io" where
  "fs_stat p = syscall (\<lambda>w. (case w_files w p of None \<Rightarrow> Inl ErrNotExist | Some f \<Rightarrow> Inr f, w))"

definition fs_create :: "string \<Rightarrow> (fs_error + nat) io" where
  "fs_create p =
    syscall (\<lambda>w. if w_files w p \<noteq> None then (Inl ErrExist, w)
       else (Inr (w_nextid w),
             w\<lparr>w_files := (w_files w)(p \<mapsto> \<lparr>fi_id = w_nextid w, fi_data = []\<rparr>), w_nextid := w_nextid w + 1\<rparr>))"

definition fs_append :: "string \<Rightarrow> bytes \<Rightarrow> (fs_error + unit) io" where
  "fs_append p d =
    syscall (\<lambda>w. case w_files w p of
       None \<Rightarrow> (Inl ErrIO, w)
     | Some f \<Rightarrow> (Inr (), w\<lparr>w_files := (w_files w)(p \<mapsto> f\<lparr>fi_data := fi_data f @ d\<rparr>)\<rparr>))"

definition fs_remove :: "string \<Rightarrow> (fs_error + unit) io" where
  "fs_remove p =
    syscall (\<lambda>w. if w_files w p = None then (Inl ErrNotExist, w)
       else (Inr (), w\<lparr>w_files := (w_files w)(p := None)\<rparr>))"

text \<open>The rename of an upload; an upload without a receipt has no identity to record.\<close>

definition fs_rename_upload :: "string option \<Rightarrow> string \<Rightarrow> string \<Rightarrow> (fs_error + unit) io" where
  "fs_rename_upload upload temporary target =
    syscall (\<lambda>w. case w_files w temporary of
       None \<Rightarrow> (Inl ErrNotExist, w)
     | Some f \<Rightarrow>
         (Inr (),
          w\<lparr>w_files := (w_files w)(temporary := None, target \<mapsto> f),
            w_renames := (case upload of None \<Rightarrow> w_renames w
               | Some i \<Rightarrow> \<lparr>rn_id = i, rn_target = target, rn_file = fi_id f, rn_data = fi_data f\<rparr> # w_renames w),
            w_unsynced := (case upload of None \<Rightarrow> w_unsynced w | Some i \<Rightarrow> i # w_unsynced w)\<rparr>))"

text \<open>\<^verbatim>\<open>syncDirectory\<close> of the directory of a renamed upload.\<close>

definition fs_sync_upload :: "string \<Rightarrow> (fs_error + unit) io" where
  "fs_sync_upload upload =
    syscall (\<lambda>w. (Inr (), w\<lparr>w_unsynced := filter (\<lambda>i. i \<noteq> upload) (w_unsynced w)\<rparr>))"


section \<open>The journal\<close>

definition receiptDirectory :: string where
  "receiptDirectory = uploadPrefix @ ''receipts''"

definition pendingReceipt :: string where
  "pendingReceipt = uploadPrefix @ ''pending''"

definition receiptLimit :: int where
  "receiptLimit = 4096"

text \<open>
  The export, the pattern matcher, the links, SHA-256, base64 and JSON: the digest of a byte string,
  the JSON text of the list that identifies a request, and the size of the JSON text of a record.
\<close>

record upload_env =
  ue_local :: Local
  ue_glob :: "string \<Rightarrow> string \<Rightarrow> bool"
  ue_links :: "(string \<rightharpoonup> fs_file) \<Rightarrow> string \<Rightarrow> fs_error + string"
  ue_sha256 :: "bytes \<Rightarrow> bytes"
  ue_base64 :: "string \<Rightarrow> bytes option"
  ue_identity :: "string list \<Rightarrow> bytes"
  ue_size :: "receiptRecord \<Rightarrow> int"
  ue_now :: string

definition receiptName :: "upload_env \<Rightarrow> string \<Rightarrow> string" where
  "receiptName env i = receiptDirectory @ ''/'' @ hex_encode (ue_sha256 env i) @ ''.json''"

definition is_receipt :: "string \<Rightarrow> bool" where
  "is_receipt name \<longleftrightarrow> has_prefix name (receiptDirectory @ ''/'')"

definition upload_id_char :: "char \<Rightarrow> bool" where
  "upload_id_char c \<longleftrightarrow>
     97 \<le> nat_of_byte c \<and> nat_of_byte c \<le> 122 \<or> 65 \<le> nat_of_byte c \<and> nat_of_byte c \<le> 90 \<or> is_digit c
     \<or> c = CHR ''-'' \<or> c = CHR ''_''"

definition validUploadID :: "string \<Rightarrow> bool" where
  "validUploadID i \<longleftrightarrow> \<not> (length i < 16 \<or> length i > 128) \<and> list_all upload_id_char i"

text \<open>
  A journal file is replaced by a rename: until the rename it is the old one, from then on it is the
  new one, also when the following synchronisation fails.
\<close>

definition journal_sync :: "bool \<Rightarrow> (fs_error + unit) io" where
  "journal_sync receipts =
    syscall (\<lambda>w. (Inr (), w\<lparr>w_synced :=
       filter (\<lambda>(n, _). is_receipt n = receipts) (w_journal w)
         @ filter (\<lambda>(n, _). is_receipt n \<noteq> receipts) (w_synced w)\<rparr>))"

definition journal_written :: "string \<Rightarrow> receiptRecord \<Rightarrow> world \<Rightarrow> world" where
  "journal_written name record w =
    w\<lparr>w_journal := AList.update name record (w_journal w),
      w_receipts := (if is_receipt name then record # w_receipts w else w_receipts w)\<rparr>"

definition journal_rename :: "string \<Rightarrow> receiptRecord \<Rightarrow> (fs_error + unit) io" where
  "journal_rename name record =
    syscall (\<lambda>w. (Inr (), journal_written name record w))"

definition journal_remove :: "string \<Rightarrow> (fs_error + unit) io" where
  "journal_remove name =
    syscall (\<lambda>w. if map_of (w_journal w) name = None then (Inl ErrNotExist, w)
       else (Inr (), w\<lparr>w_journal := AList.delete name (w_journal w)\<rparr>))"

text \<open>\<^verbatim>\<open>writeJournalFile\<close>: create the temporary file, write it, rename it, sync the directory.\<close>

definition writeReceiptFile :: "string \<Rightarrow> receiptRecord \<Rightarrow> (fs_error + unit) io" where
  "writeReceiptFile name record =
    io_try sys_check (\<lambda>_. io_try sys_check (\<lambda>_. io_try (journal_rename name record) (\<lambda>_. journal_sync (is_receipt name))))"

definition readReceiptFile :: "upload_env \<Rightarrow> string \<Rightarrow> (fs_error + receiptRecord) io" where
  "readReceiptFile env name =
    syscall (\<lambda>w.
      (case map_of (w_journal w) name of
         None \<Rightarrow> Inl ErrNotExist
       | Some record \<Rightarrow>
           if ue_size env record > 16 * 1024 then Inl ErrPermission
           else if \<not> validUploadID (rr_ID record) \<or> length (rr_Fingerprint record) \<noteq> 64 then Inl ErrJournal
           else Inr record, w))"

definition receipt_completed :: "upload_env \<Rightarrow> receiptRecord \<Rightarrow> string \<Rightarrow> nat \<Rightarrow> receiptRecord" where
  "receipt_completed env record state status =
    (let record = record\<lparr>rr_State := state, rr_Status := status, rr_CompletedAt := ue_now env\<rparr>
     in if state = ''committed'' then record\<lparr>rr_Revision := digestRevision (rr_SHA256 record)\<rparr> else record)"

definition completeReceipt :: "upload_env \<Rightarrow> receiptRecord \<Rightarrow> string \<Rightarrow> nat \<Rightarrow> (fs_error + receiptRecord) io" where
  "completeReceipt env record state status =
    (let record = receipt_completed env record state status in
     io_try (writeReceiptFile (receiptName env (rr_ID record)) record) (\<lambda>_.
     io_bind (journal_remove pendingReceipt) (\<lambda>removed.
     if removed \<noteq> Inr () \<and> removed \<noteq> Inl ErrNotExist then io_return (Inl ErrIO)
     else io_try (journal_sync False) (\<lambda>_. io_return (Inr record)))))"

text \<open>
  Recovery of the attempt in the pending record. \<open>recovered_target\<close> looks at the target of an
  upload whose staged file is gone.
\<close>

definition recovered_target :: "upload_env \<Rightarrow> receiptRecord \<Rightarrow> (fs_error + (string \<times> nat)) io" where
  "recovered_target env record =
    io_bind (fs_stat (rr_Target record)) (\<lambda>r. case r of
      Inl e \<Rightarrow> io_return (if e = ErrNotExist then Inr (''uncertain'', 503) else Inl e)
    | Inr f \<Rightarrow>
        if Some (fi_id f) = rr_FileIdentity record
           \<and> digestRevision (hex_encode (ue_sha256 env (fi_data f))) = digestRevision (rr_SHA256 record)
           \<and> itoa (int (length (fi_data f))) = rr_Size record
        then io_try (fs_sync_upload (rr_ID record)) (\<lambda>_. io_return (Inr (''committed'', 201)))
        else io_return (Inr (''uncertain'', 503)))"

definition recovered_outcome :: "upload_env \<Rightarrow> receiptRecord \<Rightarrow> (fs_error + (string \<times> nat)) io" where
  "recovered_outcome env record =
    (if rr_State record = ''prepared'' then
       if path_Base (rr_Temporary record) = ''.'' \<or> \<not> has_prefix (path_Base (rr_Temporary record)) uploadPrefix
       then io_return (Inl ErrJournal)
       else
         io_bind (fs_stat (rr_Temporary record)) (\<lambda>r. case r of
           Inr _ \<Rightarrow> io_try (fs_remove (rr_Temporary record)) (\<lambda>_. io_return (Inr (''interrupted'', 408)))
         | Inl e \<Rightarrow> if e = ErrNotExist then recovered_target env record else io_return (Inl e))
     else if rr_State record \<noteq> ''receiving'' then io_return (Inl ErrJournal)
     else io_return (Inr (''interrupted'', 408)))"

definition discard_receiving :: "receiptRecord \<Rightarrow> (fs_error + unit) io" where
  "discard_receiving record =
    (if rr_State record = ''receiving'' \<and> rr_Temporary record \<noteq> [] then
       io_bind (fs_remove (rr_Temporary record)) (\<lambda>r.
         io_return (case r of Inl e \<Rightarrow> if e = ErrNotExist then Inr () else Inl e | Inr _ \<Rightarrow> Inr ()))
     else io_return (Inr ()))"

definition recover_attempt :: "upload_env \<Rightarrow> receiptRecord \<Rightarrow> (fs_error + unit) io" where
  "recover_attempt env record =
    io_try (discard_receiving record) (\<lambda>_.
    io_try (recovered_outcome env record) (\<lambda>(state, status).
    io_try (completeReceipt env record state status) (\<lambda>_. io_return (Inr ()))))"

definition recover_pending :: "upload_env \<Rightarrow> receiptRecord \<Rightarrow> (fs_error + unit) io" where
  "recover_pending env record =
    io_bind (readReceiptFile env (receiptName env (rr_ID record))) (\<lambda>t. case t of
      Inr terminal \<Rightarrow>
        if rr_Fingerprint terminal \<noteq> rr_Fingerprint record then io_return (Inl ErrJournal)
        else io_try (journal_remove pendingReceipt) (\<lambda>_. journal_sync False)
    | Inl e \<Rightarrow>
        if e \<noteq> ErrNotExist then io_return (Inl e)
        else if rr_Temporary record \<noteq> [] \<and> \<not> has_prefix (path_Base (rr_Temporary record)) uploadPrefix
        then io_return (Inl ErrJournal)
        else recover_attempt env record)"

definition recoverReceipt :: "upload_env \<Rightarrow> (fs_error + unit) io" where
  "recoverReceipt env =
    io_bind (readReceiptFile env pendingReceipt) (\<lambda>r. case r of
      Inl e \<Rightarrow> io_return (if e = ErrNotExist then Inr () else Inl e)
    | Inr record \<Rightarrow> recover_pending env record)"


section \<open>Uploads\<close>

text \<open>
  A PUT request with its path below the prefix. The body arrives in chunks and ends with the end
  of the stream or with an error; \<open>rq_random\<close> is the text \<^verbatim>\<open>rand.Text\<close> returns.
\<close>

record upload_request =
  rq_path :: string
  rq_upload_id :: string
  rq_upload_length :: string
  rq_content_length :: int
  rq_content_digest :: string
  rq_if_match :: string
  rq_if_none_match :: string
  rq_chunks :: "bytes list"
  rq_body_error :: "nat option"
  rq_cancelled :: bool
  rq_random :: string

text \<open>\<^verbatim>\<open>ub_data\<close> is what has been read, whose digest the running hash is; an error has the status it leads to.\<close>

record uploadBody =
  ub_expectedHash :: "bytes option"
  ub_expectedSize :: int
  ub_data :: bytes
  ub_complete :: bool
  ub_error :: "nat option"
  ub_status :: nat
  ub_receipt :: "receiptRecord option"
  ub_effectCommitted :: bool

definition newUploadBody :: "upload_env \<Rightarrow> upload_request \<Rightarrow> fs_error + uploadBody" where
  "newUploadBody env rq =
    (let digest = rq_content_digest rq;
         body = \<lparr>ub_expectedHash = None, ub_expectedSize = rq_content_length rq, ub_data = [], ub_complete = False,
                 ub_error = None, ub_status = 0, ub_receipt = None, ub_effectCommitted = False\<rparr>
     in if digest = [] then Inr body
        else if \<not> has_prefix digest ''sha-256=:'' \<or> \<not> has_suffix digest '':'' then Inl ErrBadRequest
        else case ue_base64 env (take (length digest - 1 - 9) (drop 9 digest)) of
          None \<Rightarrow> Inl ErrBadRequest
        | Some decoded \<Rightarrow>
            if length decoded \<noteq> 32 then Inl ErrBadRequest else Inr (body\<lparr>ub_expectedHash := Some decoded\<rparr>))"

definition newReceipt :: "upload_env \<Rightarrow> upload_request \<Rightarrow> uploadBody \<Rightarrow> fs_error + (receiptRecord \<times> uploadBody)" where
  "newReceipt env rq body =
    (case ub_expectedHash body of
       None \<Rightarrow> Inl ErrBadRequest
     | Some expected \<Rightarrow>
       if \<not> validUploadID (rq_upload_id rq) then Inl ErrBadRequest
       else case atoi (rq_upload_length rq) of
         None \<Rightarrow> Inl ErrBadRequest
       | Some n \<Rightarrow>
         if n < 0 \<or> itoa n \<noteq> rq_upload_length rq \<or> rq_content_length rq \<ge> 0 \<and> n \<noteq> rq_content_length rq
         then Inl ErrBadRequest
         else rbind (lexical (ue_glob env) (ue_local env) (rq_path rq)) (\<lambda>relative.
           let identity = ue_identity env [''PUT'', relative, rq_upload_length rq, hex_encode expected,
                            rq_if_match rq, rq_if_none_match rq]
           in Inr (\<lparr>rr_ID = rq_upload_id rq, rr_Path = relative, rr_State = ''receiving'', rr_Status = 0,
                    rr_Size = rq_upload_length rq, rr_SHA256 = hex_encode expected, rr_Revision = [],
                    rr_StartedAt = ue_now env, rr_CompletedAt = [],
                    rr_Fingerprint = hex_encode (ue_sha256 env identity),
                    rr_Target = [], rr_Temporary = [], rr_FileIdentity = None\<rparr>,
                   body\<lparr>ub_expectedSize := n\<rparr>)))"

text \<open>\<^verbatim>\<open>resolve\<close> of a target that may not exist yet, with the links as they are.\<close>

definition resolve_target :: "upload_env \<Rightarrow> string \<Rightarrow> (fs_error + string) io" where
  "resolve_target env name =
    syscall (\<lambda>w.
      (case resolve (ue_glob env) (ue_links env (w_files w)) (ue_local env) name False of
         Inl e \<Rightarrow>
           if e = ErrNotExist then resolve (ue_glob env) (ue_links env (w_files w)) (ue_local env) name True
           else Inl e
       | Inr t \<Rightarrow> Inr t, w))"

text \<open>
  \<^verbatim>\<open>beginReceipt\<close>: the receipt directory is opened, counted and probed before the pending
  record is written.
\<close>

definition receipt_count :: "(fs_error + int) io" where
  "receipt_count = syscall (\<lambda>w. (Inr (int (length (filter (\<lambda>(n, _). is_receipt n) (w_journal w)))), w))"

definition beginReceipt :: "upload_env \<Rightarrow> receiptRecord \<Rightarrow> (fs_error + receiptRecord) io" where
  "beginReceipt env record =
    io_try (resolve_target env (rr_Path record)) (\<lambda>target.
    let record = record\<lparr>rr_Target := target\<rparr> in
    io_try sys_check (\<lambda>_.
    io_try receipt_count (\<lambda>entries.
    if entries \<ge> receiptLimit then io_return (Inl ErrCapacity)
    else
      io_try sys_check (\<lambda>_.
      io_try sys_check (\<lambda>_.
      io_try (writeReceiptFile pendingReceipt record) (\<lambda>_. io_return (Inr record)))))))"

definition journalError :: "fs_error \<Rightarrow> nat" where
  "journalError e = (if e = ErrCapacity then 507 else 503)"

definition validate_body :: "upload_env \<Rightarrow> bool \<Rightarrow> uploadBody \<Rightarrow> nat option" where
  "validate_body env cancelled body =
    (if cancelled then Some 408
     else case ub_error body of
       Some status \<Rightarrow> Some status
     | None \<Rightarrow>
       if \<not> ub_complete body \<or> ub_expectedSize body \<ge> 0 \<and> int (length (ub_data body)) \<noteq> ub_expectedSize body
       then Some 400
       else case ub_expectedHash body of
         Some expected \<Rightarrow> if expected \<noteq> ue_sha256 env (ub_data body) then Some 422 else None
       | None \<Rightarrow> None)"

text \<open>An open staged upload.\<close>

record atomicUpload =
  au_target :: string
  au_temporary :: string
  au_file :: nat
  au_writeErr :: bool

text \<open>The clean-up of a failed operation: its result is not looked at.\<close>

definition discard :: "string \<Rightarrow> 'a \<Rightarrow> 'a io" where
  "discard temporary result = io_bind (fs_remove temporary) (\<lambda>_. io_return result)"

text \<open>The part of \<^verbatim>\<open>OpenFile\<close> that creates the staged file and announces it.\<close>

definition announce_upload :: "uploadBody \<Rightarrow> atomicUpload \<Rightarrow> (uploadBody \<times> (fs_error + atomicUpload)) io" where
  "announce_upload body staged =
    (case ub_receipt body of
       None \<Rightarrow> io_return (body, Inr staged)
     | Some record \<Rightarrow>
         let record = record\<lparr>rr_Temporary := au_temporary staged\<rparr>;
             body = body\<lparr>ub_receipt := Some record\<rparr>
         in io_bind (writeReceiptFile pendingReceipt record) (\<lambda>written. case written of
              Inl e \<Rightarrow> discard (au_temporary staged) (body\<lparr>ub_status := 503\<rparr>, Inl e)
            | Inr _ \<Rightarrow> io_return (body, Inr staged)))"

definition stage_upload ::
  "upload_env \<Rightarrow> upload_request \<Rightarrow> uploadBody \<Rightarrow> string \<Rightarrow> bool \<Rightarrow> (uploadBody \<times> (fs_error + atomicUpload)) io" where
  "stage_upload env rq body target replaces =
    (let temporary = path_Join (path_Dir target) (uploadPrefix @ rq_random rq) in
     io_bind (fs_create temporary) (\<lambda>created. case created of
       Inl e \<Rightarrow> io_return (body, Inl e)
     | Inr file \<Rightarrow>
         io_bind (if replaces then sys_check else io_return (Inr ())) (\<lambda>chmod. case chmod of
           Inl e \<Rightarrow> discard temporary (body, Inl e)
         | Inr _ \<Rightarrow>
             announce_upload body \<lparr>au_target = target, au_temporary = temporary, au_file = file, au_writeErr = False\<rparr>)))"

definition open_resolved ::
  "upload_env \<Rightarrow> upload_request \<Rightarrow> uploadBody \<Rightarrow> string \<Rightarrow> (uploadBody \<times> (fs_error + atomicUpload)) io" where
  "open_resolved env rq body target =
    io_bind (fs_stat target) (\<lambda>info. case info of
      Inl e \<Rightarrow>
        if e \<noteq> ErrNotExist then io_return (body, Inl e) else stage_upload env rq body target False
    | Inr _ \<Rightarrow>
        io_bind sys_check (\<lambda>writable. case writable of
          Inl e \<Rightarrow> io_return (body, Inl e)
        | Inr _ \<Rightarrow> stage_upload env rq body target True))"

definition OpenFile_upload ::
  "upload_env \<Rightarrow> upload_request \<Rightarrow> uploadBody \<Rightarrow> (uploadBody \<times> (fs_error + atomicUpload)) io" where
  "OpenFile_upload env rq body =
    (if rq_cancelled rq then io_return (body, Inl ErrCancelled)
     else if fp_ReadOnly (lo_policy (ue_local env)) then io_return (body, Inl ErrPermission)
     else
       io_bind (resolve_target env (rq_path rq)) (\<lambda>t. case t of
         Inl e \<Rightarrow> io_return (body, Inl e)
       | Inr target \<Rightarrow> open_resolved env rq body target))"

text \<open>
  The copy of the body into the staged file: \<^verbatim>\<open>uploadBody.Read\<close> and
  \<^verbatim>\<open>atomicUpload.Write\<close> in turn, until the body ends or a write fails.
\<close>

primrec copy_body :: "string \<Rightarrow> nat option \<Rightarrow> bytes list \<Rightarrow> uploadBody \<Rightarrow> (uploadBody \<times> bool) io" where
  "copy_body temporary err [] body =
    io_return (case err of None \<Rightarrow> body\<lparr>ub_complete := True\<rparr> | Some status \<Rightarrow> body\<lparr>ub_error := Some status\<rparr>, False)"
| "copy_body temporary err (chunk # chunks) body =
    (let body = body\<lparr>ub_data := ub_data body @ chunk\<rparr> in
     io_bind (fs_append temporary chunk) (\<lambda>written. case written of
       Inl e \<Rightarrow> io_return (body, True)
     | Inr _ \<Rightarrow> copy_body temporary err chunks body))"

text \<open>\<^verbatim>\<open>atomicUpload.Close\<close>: a failure before the rename discards the staged file.\<close>

definition receipt_committed :: "upload_env \<Rightarrow> uploadBody \<Rightarrow> receiptRecord \<Rightarrow> (uploadBody \<times> fs_error option) io" where
  "receipt_committed env body record =
    io_bind (fs_sync_upload (rr_ID record)) (\<lambda>synced. case synced of
      Inl e \<Rightarrow> io_return (body\<lparr>ub_status := 503\<rparr>, Some e)
    | Inr _ \<Rightarrow>
        io_bind (completeReceipt env record ''committed'' 201) (\<lambda>completed. case completed of
          Inl e \<Rightarrow> io_return (body\<lparr>ub_status := 503\<rparr>, Some e)
        | Inr record \<Rightarrow> io_return (body\<lparr>ub_receipt := Some record\<rparr>, None)))"

definition commit_upload :: "upload_env \<Rightarrow> uploadBody \<Rightarrow> atomicUpload \<Rightarrow> (uploadBody \<times> fs_error option) io" where
  "commit_upload env body staged =
    io_bind (fs_rename_upload (map_option rr_ID (ub_receipt body)) (au_temporary staged) (au_target staged)) (\<lambda>renamed.
    case renamed of
      Inl e \<Rightarrow> discard (au_temporary staged) (body\<lparr>ub_status := 500\<rparr>, Some e)
    | Inr _ \<Rightarrow>
        let body = body\<lparr>ub_effectCommitted := True\<rparr> in
        (case ub_receipt body of
           None \<Rightarrow> io_return (body, None)
         | Some record \<Rightarrow> receipt_committed env body record))"

definition prepare_upload :: "upload_env \<Rightarrow> uploadBody \<Rightarrow> atomicUpload \<Rightarrow> (uploadBody \<times> fs_error option) io" where
  "prepare_upload env body staged =
    (case ub_receipt body of
       None \<Rightarrow> commit_upload env body staged
     | Some record \<Rightarrow>
         let record = record\<lparr>rr_State := ''prepared'', rr_Target := au_target staged, rr_Temporary := au_temporary staged\<rparr>;
             body = body\<lparr>ub_receipt := Some record\<rparr>
         in io_bind (writeReceiptFile pendingReceipt record) (\<lambda>written. case written of
              Inl e \<Rightarrow> discard (au_temporary staged) (body\<lparr>ub_status := 503\<rparr>, Some e)
            | Inr _ \<Rightarrow> commit_upload env body staged))"

definition finish_upload :: "upload_env \<Rightarrow> uploadBody \<Rightarrow> atomicUpload \<Rightarrow> (uploadBody \<times> fs_error option) io" where
  "finish_upload env body staged =
    (let fail = (\<lambda>body status. discard (au_temporary staged) (body\<lparr>ub_status := status\<rparr>, Some ErrIO)) in
     io_bind sys_check (\<lambda>synced. case synced of
       Inl e \<Rightarrow> fail body 500
     | Inr _ \<Rightarrow>
     io_bind (if ub_receipt body = None then io_return (Inr ()) else sys_check) (\<lambda>identity. case identity of
       Inl e \<Rightarrow> fail body 503
     | Inr _ \<Rightarrow>
     let body = body\<lparr>ub_receipt := map_option (\<lambda>r. r\<lparr>rr_FileIdentity := Some (au_file staged)\<rparr>) (ub_receipt body)\<rparr> in
     io_bind sys_check (\<lambda>closed. case closed of
       Inl e \<Rightarrow> fail body 500
     | Inr _ \<Rightarrow> prepare_upload env body staged))))"

definition Close_upload ::
  "upload_env \<Rightarrow> bool \<Rightarrow> uploadBody \<Rightarrow> atomicUpload \<Rightarrow> (uploadBody \<times> fs_error option) io" where
  "Close_upload env cancelled body staged =
    (let fail = (\<lambda>status. discard (au_temporary staged) (body\<lparr>ub_status := status\<rparr>, Some ErrIO)) in
     if au_writeErr staged then fail 500
     else (case validate_body env cancelled body of
       Some status \<Rightarrow> fail status
     | None \<Rightarrow> finish_upload env body staged))"

text \<open>
  The WebDAV handler of the library \<^verbatim>\<open>golang.org/x/net/webdav\<close>: it may refuse a PUT, and
  otherwise opens the file, copies the body into it, asks for its metadata and closes it; the
  status it answers with depends on how these went.
\<close>

record webdav =
  dv_refuses :: "nat option"
  dv_status :: "fs_error option \<Rightarrow> bool \<Rightarrow> nat"

definition put_staged :: "upload_env \<Rightarrow> webdav \<Rightarrow> upload_request \<Rightarrow> uploadBody \<Rightarrow> atomicUpload \<Rightarrow> (uploadBody \<times> nat) io" where
  "put_staged env dv rq body staged =
    io_bind (copy_body (au_temporary staged) (rq_body_error rq) (rq_chunks rq) body) (\<lambda>(body, writeErr).
    io_bind sys_check (\<lambda>_.
    io_bind (Close_upload env (rq_cancelled rq) body (staged\<lparr>au_writeErr := writeErr\<rparr>)) (\<lambda>(body, closed).
    io_return (body, dv_status dv closed True))))"

definition webdav_put :: "upload_env \<Rightarrow> webdav \<Rightarrow> upload_request \<Rightarrow> uploadBody \<Rightarrow> (uploadBody \<times> nat) io" where
  "webdav_put env dv rq body =
    (case dv_refuses dv of
       Some status \<Rightarrow> io_return (body, status)
     | None \<Rightarrow>
         io_bind (OpenFile_upload env rq body) (\<lambda>(body, opened). case opened of
           Inl e \<Rightarrow> io_return (body, dv_status dv (Some e) False)
         | Inr staged \<Rightarrow> put_staged env dv rq body staged))"

text \<open>The preconditions of the request, against the file as it is.\<close>

definition checkConditions :: "upload_env \<Rightarrow> upload_request \<Rightarrow> (nat option) io" where
  "checkConditions env rq =
    (let match = rq_if_match rq; none = rq_if_none_match rq in
     if match = [] \<and> none = [] then io_return None
     else
       io_bind (syscall (\<lambda>w.
           (case resolve (ue_glob env) (ue_links env (w_files w)) (ue_local env) (rq_path rq) False of
              Inl e \<Rightarrow> Inl e
            | Inr p \<Rightarrow> (case w_files w p of None \<Rightarrow> Inl ErrNotExist | Some f \<Rightarrow> Inr p), w))) (\<lambda>info.
       case info of
         Inl e \<Rightarrow>
           io_return (if e \<noteq> ErrNotExist then Some 403
             else case checkRevisionConditions False match none (Inl ErrIO) of 0 \<Rightarrow> None | n \<Rightarrow> Some n)
       | Inr p \<Rightarrow>
           io_bind (if needs_revision [match, none] \<and> \<not> conditions_invalid True [match, none] then fs_stat p else io_return (Inl ErrIO))
             (\<lambda>content.
           io_return (case checkRevisionConditions True match none
               (case content of Inl e \<Rightarrow> Inl e | Inr f \<Rightarrow> Inr (digestRevision (hex_encode (ue_sha256 env (fi_data f)))))
             of 0 \<Rightarrow> None | n \<Rightarrow> Some n))))"

datatype put_response =
    PutError nat
  | PutStatus nat
  | PutReceipt receiptRecord

text \<open>The rest of \<^verbatim>\<open>serveMutation\<close> once the attempt is admitted.\<close>

definition reject_upload :: "upload_env \<Rightarrow> receiptRecord \<Rightarrow> nat \<Rightarrow> put_response io" where
  "reject_upload env receipt status =
    io_bind (completeReceipt env receipt ''rejected'' status) (\<lambda>r. case r of
      Inl e \<Rightarrow> io_return (PutError 503)
    | Inr receipt \<Rightarrow> io_return (PutReceipt receipt))"

definition put_outcome :: "upload_env \<Rightarrow> uploadBody \<Rightarrow> nat \<Rightarrow> put_response io" where
  "put_outcome env body status =
    (let status = (if ub_status body \<noteq> 0 then ub_status body else status) in
     case ub_receipt body of
       None \<Rightarrow> io_return (PutStatus status)
     | Some receipt \<Rightarrow>
         if ub_effectCommitted body \<and> ub_status body \<noteq> 0 then io_return (PutError 503)
         else if \<not> ub_effectCommitted body then reject_upload env receipt (if status = 0 then 500 else status)
         else io_return (PutReceipt receipt))"

definition serve_admitted :: "upload_env \<Rightarrow> webdav \<Rightarrow> upload_request \<Rightarrow> uploadBody \<Rightarrow> put_response io" where
  "serve_admitted env dv rq body =
    io_bind (checkConditions env rq) (\<lambda>condition. case condition of
      Some status \<Rightarrow>
        (case ub_receipt body of
           None \<Rightarrow> io_return (PutError status)
         | Some receipt \<Rightarrow> reject_upload env receipt status)
    | None \<Rightarrow> io_bind (webdav_put env dv rq body) (\<lambda>(body, status). put_outcome env body status))"

text \<open>A durable upload: an identity that has a receipt never starts another write.\<close>

definition serve_durable :: "upload_env \<Rightarrow> webdav \<Rightarrow> upload_request \<Rightarrow> receiptRecord \<Rightarrow> uploadBody \<Rightarrow> put_response io" where
  "serve_durable env dv rq receipt body =
    io_bind (readReceiptFile env (receiptName env (rr_ID receipt))) (\<lambda>prior. case prior of
      Inl e \<Rightarrow>
        if e \<noteq> ErrNotExist then io_return (PutError 503)
        else
          io_bind (beginReceipt env receipt) (\<lambda>begun. case begun of
            Inl e \<Rightarrow> io_return (PutError (journalError e))
          | Inr receipt \<Rightarrow> serve_admitted env dv rq (body\<lparr>ub_receipt := Some receipt\<rparr>))
    | Inr prior \<Rightarrow>
        io_return
          (case lexical (ue_glob env) (ue_local env) (rr_Target prior) of
             Inl e \<Rightarrow> PutError 404
           | Inr _ \<Rightarrow>
               if rr_Fingerprint prior \<noteq> rr_Fingerprint receipt then PutError 409 else PutReceipt prior))"

text \<open>\<^verbatim>\<open>serveMutation\<close> for a PUT; the two locks are the first call.\<close>

definition serveMutation :: "upload_env \<Rightarrow> webdav \<Rightarrow> upload_request \<Rightarrow> put_response io" where
  "serveMutation env dv rq =
    (if fp_ReadOnly (lo_policy (ue_local env)) then io_return (PutError 403)
     else
       io_bind sys_check (\<lambda>lock. case lock of
         Inl e \<Rightarrow> io_return (PutError (if rq_cancelled rq then 408 else 503))
       | Inr _ \<Rightarrow>
       io_bind (recoverReceipt env) (\<lambda>recovered. case recovered of
         Inl e \<Rightarrow> io_return (PutError 503)
       | Inr _ \<Rightarrow>
       (case newUploadBody env rq of
          Inl e \<Rightarrow> io_return (PutError 400)
        | Inr body \<Rightarrow>
            if rq_upload_id rq = [] then serve_admitted env dv rq body
            else (case newReceipt env rq body of
              Inl e \<Rightarrow> io_return (PutError 400)
            | Inr (receipt, body) \<Rightarrow> serve_durable env dv rq receipt body)))))"

text \<open>
  \<^verbatim>\<open>serveReceipt\<close>: a lookup recovers an interrupted attempt when the lock is free and then
  reads the receipt, or the pending record, of the identity. \<open>free\<close> says whether the lock is free.
\<close>

definition receipt_of :: "upload_env \<Rightarrow> string \<Rightarrow> (fs_error + receiptRecord) io" where
  "receipt_of env i =
    io_bind (readReceiptFile env (receiptName env i)) (\<lambda>r.
    if r \<noteq> Inl ErrNotExist then io_return r
    else
      io_bind (readReceiptFile env pendingReceipt) (\<lambda>p.
      let p = (case p of Inr record \<Rightarrow> if rr_ID record \<noteq> i then Inl ErrNotExist else p | Inl e \<Rightarrow> p) in
      if p \<noteq> Inl ErrNotExist then io_return p else readReceiptFile env (receiptName env i)))"

definition serveReceipt :: "upload_env \<Rightarrow> bool \<Rightarrow> string \<Rightarrow> string \<Rightarrow> put_response io" where
  "serveReceipt env free name i =
    (if \<not> validUploadID i then io_return (PutError 400)
     else case lexical (ue_glob env) (ue_local env) name of
       Inl e \<Rightarrow> io_return (PutError 404)
     | Inr name \<Rightarrow>
         io_bind sys_check (\<lambda>lock. case lock of
           Inl e \<Rightarrow> io_return (PutError 503)
         | Inr _ \<Rightarrow>
             io_bind (if free then recoverReceipt env else io_return (Inr ())) (\<lambda>recovered. case recovered of
               Inl e \<Rightarrow> io_return (PutError 503)
             | Inr _ \<Rightarrow>
                 io_bind (receipt_of env i) (\<lambda>r. io_return (case r of
                   Inl e \<Rightarrow> PutError (if e = ErrNotExist then 404 else 503)
                 | Inr record \<Rightarrow>
                     if rr_Path record \<noteq> name \<or> \<not> is_ok (lexical (ue_glob env) (ue_local env) (rr_Path record))
                        \<or> \<not> is_ok (lexical (ue_glob env) (ue_local env) (rr_Target record))
                     then PutError 404
                     else PutReceipt record)))))"

end
