(* ===== verification/UploadProps.thy ===== *)
theory UploadProps
  imports Upload
begin

text \<open>
  What durable uploads promise across failures and crashes. The section on the logic is a small
  program logic for the operations of \<^verbatim>\<open>Upload\<close>: an assertion holds at each point of an
  operation and implies the invariant, so that the invariant holds wherever the process ends. The
  remaining sections give the invariant, one specification per operation, and the properties.
\<close>

section \<open>A logic of operations that may end anywhere\<close>

text \<open>
  The interference of other programs and of what no assertion speaks about: events and what is
  synchronised. Reserved names keep their files, and no file moves from a reserved name to another.
\<close>

definition drift :: "world \<Rightarrow> world \<Rightarrow> bool" where
  "drift w w' \<longleftrightarrow>
     w_journal w' = w_journal w \<and> w_receipts w' = w_receipts w
     \<and> w_renames w' = w_renames w \<and> w_unsynced w' = w_unsynced w
     \<and> w_nextid w \<le> w_nextid w'
     \<and> (\<forall>p. privateUploadPath p \<longrightarrow> w_files w' p = w_files w p)
     \<and> (\<forall>p f'. w_files w' p = Some f' \<longrightarrow>
          fi_id f' < w_nextid w' \<and> w_nextid w \<le> fi_id f' \<and> \<not> privateUploadPath p
          \<or> (\<exists>q f. w_files w q = Some f \<and> fi_id f = fi_id f' \<and> (q = p \<or> \<not> privateUploadPath q)))"

definition steady :: "(world \<Rightarrow> bool) \<Rightarrow> (world \<Rightarrow> bool) \<Rightarrow> bool" where
  "steady I P \<longleftrightarrow> (\<forall>w w'. drift w w' \<longrightarrow> P w \<longrightarrow> P w') \<and> (\<forall>w. P w \<longrightarrow> I w)"

definition spec :: "(world \<Rightarrow> bool) \<Rightarrow> (world \<Rightarrow> bool) \<Rightarrow> 'a io \<Rightarrow> ('a \<Rightarrow> world \<Rightarrow> bool) \<Rightarrow> bool" where
  "spec I P m Q \<longleftrightarrow> (\<forall>w. P w \<longrightarrow> (case m w of (None, w') \<Rightarrow> I w' | (Some a, w') \<Rightarrow> Q a w'))"

lemma drift_refl: "drift w w"
  by (auto simp: drift_def)

lemma drift_origin:
  assumes "drift w w'" "w_files w' p = Some f'"
  obtains (fresh) "fi_id f' < w_nextid w'" "w_nextid w \<le> fi_id f'" "\<not> privateUploadPath p"
  | (old) q f where "w_files w q = Some f" "fi_id f = fi_id f'" "q = p \<or> \<not> privateUploadPath q"
  using assms unfolding drift_def by blast

lemma driftD:
  assumes "drift w w'"
  shows "w_journal w' = w_journal w" "w_renames w' = w_renames w" "w_unsynced w' = w_unsynced w"
    "w_nextid w \<le> w_nextid w'" "privateUploadPath p \<Longrightarrow> w_files w' p = w_files w p"
    "w_receipts w' = w_receipts w"
  using assms by (simp_all add: drift_def)

lemma drift_trans:
  assumes uv: "drift u v" and vw: "drift v w"
  shows "drift u w"
proof -
  have "fi_id f' < w_nextid w \<and> w_nextid u \<le> fi_id f' \<and> \<not> privateUploadPath p
      \<or> (\<exists>q f. w_files u q = Some f \<and> fi_id f = fi_id f' \<and> (q = p \<or> \<not> privateUploadPath q))"
    if at: "w_files w p = Some f'" for p f'
  proof (cases "privateUploadPath p")
    case True
    then have "w_files u p = Some f'" using at driftD(5) [OF uv] driftD(5) [OF vw] by simp
    then show ?thesis by blast
  next
    case np: False
    from vw at show ?thesis
    proof (cases rule: drift_origin)
      case fresh
      with driftD(4) [OF uv] np show ?thesis by simp
    next
      case (old q f)
      from uv old(1) show ?thesis
      proof (cases rule: drift_origin)
        case fresh
        with driftD(4) [OF vw] np old(2) show ?thesis by simp
      next
        case (old q' f'')
        with \<open>fi_id f = fi_id f'\<close> \<open>q = p \<or> \<not> privateUploadPath q\<close> show ?thesis by metis
      qed
    qed
  qed
  moreover have "w_nextid u \<le> w_nextid w" using driftD(4) [OF uv] driftD(4) [OF vw] by simp
  ultimately show ?thesis
    unfolding drift_def using driftD(1,2,3,5,6) [OF uv] driftD(1,2,3,5,6) [OF vw] by auto
qed

lemma drift_outside: "drift w (outside_step c w)"
  by (cases c) (auto simp: drift_def split: option.splits)

lemma drift_fold: "drift w (fold outside_step cs w)"
proof (induction cs arbitrary: w)
  case (Cons c cs)
  then show ?case using drift_outside drift_trans by fastforce
qed (simp add: drift_refl)

lemma drift_synced: "drift w (w\<lparr>w_synced := x\<rparr>)"
  by (auto simp: drift_def)

lemma drift_events: "drift w (w\<lparr>w_events := es\<rparr>)"
  by (auto simp: drift_def)

text \<open>The interface of the logic is an invariant that interference keeps.\<close>

locale crash_logic =
  fixes I :: "world \<Rightarrow> bool"
  assumes invariant_drift: "drift w w' \<Longrightarrow> I w \<Longrightarrow> I w'"
begin

lemma steady_invariant: "steady I I"
  using invariant_drift by (auto simp: steady_def)

lemma spec_return: "(\<And>w. P w \<Longrightarrow> Q a w) \<Longrightarrow> spec I P (io_return a) Q"
  by (simp add: spec_def io_return_def)

lemma spec_bind:
  assumes "spec I P m R" "\<And>a. spec I (R a) (f a) Q"
  shows "spec I P (io_bind m f) Q"
  unfolding spec_def
proof (intro allI impI)
  fix w assume "P w"
  with assms(1) have "case m w of (None, w') \<Rightarrow> I w' | (Some a, w') \<Rightarrow> R a w'" by (simp add: spec_def)
  then consider w' where "m w = (None, w')" "I w'" | a w' where "m w = (Some a, w')" "R a w'"
    by (cases "m w") (auto split: option.splits)
  then show "case io_bind m f w of (None, w') \<Rightarrow> I w' | (Some a, w') \<Rightarrow> Q a w'"
  proof cases
    case 1
    then show ?thesis by (simp add: io_bind_def)
  next
    case 2
    with assms(2) [of a] show ?thesis by (simp add: io_bind_def spec_def)
  qed
qed

lemma spec_conseq:
  assumes "spec I P m Q" "\<And>w. P' w \<Longrightarrow> P w" "\<And>a w. Q a w \<Longrightarrow> Q' a w"
  shows "spec I P' m Q'"
  using assms unfolding spec_def by (fastforce split: prod.splits option.splits)

lemma spec_try:
  assumes "spec I P m R" "\<And>e w. R (Inl e) w \<Longrightarrow> Q (Inl e) w" "\<And>a. spec I (R (Inr a)) (f a) Q"
  shows "spec I P (io_try m f) Q"
  unfolding io_try_def using assms(1)
proof (rule spec_bind)
  fix r
  show "spec I (R r) (case r of Inl e \<Rightarrow> io_return (Inl e) | Inr a \<Rightarrow> f a) Q"
    using assms(2,3) by (cases r) (auto intro: spec_return)
qed

text \<open>The two branches after a call that may fail.\<close>

lemma spec_case:
  assumes "spec I P m R" "\<And>e. spec I (R (Inl e)) (f e) Q" "\<And>a. spec I (R (Inr a)) (g a) Q"
  shows "spec I P (io_bind m (\<lambda>x. case x of Inl e \<Rightarrow> f e | Inr a \<Rightarrow> g a)) Q"
  using assms(1)
proof (rule spec_bind)
  show "spec I (R x) (case x of Inl e \<Rightarrow> f e | Inr a \<Rightarrow> g a) Q" for x
    using assms(2,3) by (cases x) simp_all
qed

lemma spec_if: "(c \<Longrightarrow> spec I P a Q) \<Longrightarrow> (\<not> c \<Longrightarrow> spec I P b Q) \<Longrightarrow> spec I P (if c then a else b) Q"
  by simp

lemma spec_pre: "spec I P m Q \<Longrightarrow> (\<And>w. P' w \<Longrightarrow> P w) \<Longrightarrow> spec I P' m Q"
  by (rule spec_conseq)

lemma spec_assume:
  assumes "\<And>w. P w \<Longrightarrow> c" "c \<Longrightarrow> spec I P m Q"
  shows "spec I P m Q"
  using assms by (auto simp: spec_def)

lemma spec_syscall:
  assumes "steady I P" "\<And>w r w'. P w \<Longrightarrow> call w = (r, w') \<Longrightarrow> Q r w'" "\<And>w. P w \<Longrightarrow> Q (Inl ErrIO) w"
  shows "spec I P (syscall call) Q"
  unfolding spec_def
proof (intro allI impI)
  fix w assume P: "P w"
  have goes: "case (case call v of (r, w') \<Rightarrow> (Some r, w')) of (None, w') \<Rightarrow> I w' | (Some a, w') \<Rightarrow> Q a w'" if "P v" for v
    using assms(2) [OF that] by (cases "call v") simp
  show "case syscall call w of (None, w') \<Rightarrow> I w' | (Some a, w') \<Rightarrow> Q a w'"
  proof (cases "w_events w")
    case Nil
    with goes [OF P] show ?thesis by (simp add: syscall_def)
  next
    case (Cons ev es)
    obtain cs out where ev: "ev = (cs, out)" by (cases ev)
    let ?v = "fold outside_step cs (w\<lparr>w_events := es\<rparr>)"
    have v: "P ?v" using P assms(1) drift_trans [OF drift_events drift_fold] unfolding steady_def by blast
    then have "I ?v" using assms(1) by (simp add: steady_def)
    with Cons ev goes [OF v] assms(3) [OF v] show ?thesis by (cases out) (simp_all add: syscall_def Let_def)
  qed
qed

lemma spec_read:
  assumes "steady I P" "\<And>w r w'. call w = (r, w') \<Longrightarrow> w' = w \<and> phi r w" "\<And>w. phi (Inl ErrIO) w"
  shows "spec I P (syscall call) (\<lambda>r w. P w \<and> phi r w)"
  using assms(1)
proof (rule spec_syscall)
  fix w r w' assume "P w" "call w = (r, w')"
  with assms(2) [OF this(2)] show "P w' \<and> phi r w'" by simp
qed (use assms(3) in simp)

lemma spec_check: "steady I P \<Longrightarrow> spec I P sys_check (\<lambda>r w. P w)"
  unfolding sys_check_def by (rule spec_syscall) auto

lemma spec_sync: "steady I P \<Longrightarrow> spec I P (journal_sync b) (\<lambda>r w. P w)"
  unfolding journal_sync_def
proof (rule spec_syscall)
  fix w r w' assume "steady I P" "P w"
    "(Inr (), w\<lparr>w_synced := filter (\<lambda>(n, _). is_receipt n = b) (w_journal w) @ filter (\<lambda>(n, _). is_receipt n \<noteq> b) (w_synced w)\<rparr>) = (r, w')"
  then show "P w'" using drift_synced unfolding steady_def by blast
qed blast

lemma spec_write:
  assumes "steady I P" "steady I P'" "\<And>w. P w \<Longrightarrow> P' (journal_written n record w)"
  shows "spec I P (writeReceiptFile n record) (\<lambda>r w. if is_ok r then P' w else P w \<or> P' w)"
  unfolding writeReceiptFile_def
proof (rule spec_try [OF spec_check [OF assms(1)]], simp, rule spec_try [OF spec_check [OF assms(1)]], simp)
  show "spec I P (io_try (journal_rename n record) (\<lambda>_. journal_sync (is_receipt n))) (\<lambda>r w. if is_ok r then P' w else P w \<or> P' w)"
  proof (rule spec_try)
    show "spec I P (journal_rename n record) (\<lambda>r w. if is_ok r then P' w else P w)"
      unfolding journal_rename_def using assms(1) by (rule spec_syscall) (use assms(3) in auto)
    fix u
    have "spec I P' (journal_sync (is_receipt n)) (\<lambda>r w. P' w)" by (rule spec_sync [OF assms(2)])
    then show "spec I (\<lambda>w. if is_ok (Inr u) then P' w else P w) (journal_sync (is_receipt n)) (\<lambda>r w. if is_ok r then P' w else P w \<or> P' w)"
      by (rule spec_conseq) (auto split: if_splits)
  qed simp
qed

end


section \<open>The invariant\<close>

definition renamed_ids :: "world \<Rightarrow> string set" where
  "renamed_ids w = rn_id ` set (w_renames w)"

abbreviation journal :: "world \<Rightarrow> string \<rightharpoonup> receiptRecord" where
  "journal w \<equiv> map_of (w_journal w)"

text \<open>The target of the record was replaced by a file of the announced digest, for this upload.\<close>

definition renamed_as :: "upload_env \<Rightarrow> world \<Rightarrow> receiptRecord \<Rightarrow> bool" where
  "renamed_as env w r \<longleftrightarrow>
     (\<exists>rn\<in>set (w_renames w). rn_id rn = rr_ID r \<and> rn_target rn = rr_Target r
        \<and> hex_encode (ue_sha256 env (rn_data rn)) = rr_SHA256 r)"

text \<open>
  What a receipt says is so: a committed upload has replaced its target and the directory is
  synchronised, a rejected or interrupted one never has; an uncertain one says nothing.
\<close>

definition receipt_true :: "upload_env \<Rightarrow> world \<Rightarrow> receiptRecord \<Rightarrow> bool" where
  "receipt_true env w r \<longleftrightarrow>
     (rr_State r = ''committed'' \<and> renamed_as env w r \<and> rr_ID r \<notin> set (w_unsynced w)
      \<or> rr_State r \<in> {''rejected'', ''interrupted''} \<and> rr_ID r \<notin> renamed_ids w
      \<or> rr_State r = ''uncertain'')"

text \<open>The staged file of a prepared upload can only have left its reserved name by the rename.\<close>

definition staged_ok :: "upload_env \<Rightarrow> world \<Rightarrow> receiptRecord \<Rightarrow> bool" where
  "staged_ok env w r \<longleftrightarrow>
     privateUploadPath (rr_Temporary r)
     \<and> (\<exists>i. rr_FileIdentity r = Some i \<and> i < w_nextid w
          \<and> (\<forall>p f. w_files w p = Some f \<longrightarrow> fi_id f = i \<longrightarrow> p = rr_Temporary r \<or> rr_ID r \<in> renamed_ids w))
     \<and> (w_files w (rr_Temporary r) \<noteq> None \<longrightarrow> rr_ID r \<notin> renamed_ids w)
     \<and> (rr_ID r \<in> renamed_ids w \<longrightarrow> renamed_as env w r)"

text \<open>A record that can be read back and recovered.\<close>

definition record_ok :: "upload_env \<Rightarrow> receiptRecord \<Rightarrow> bool" where
  "record_ok env r \<longleftrightarrow>
     validUploadID (rr_ID r) \<and> (\<exists>b. rr_Fingerprint r = hex_encode (ue_sha256 env b))
     \<and> (rr_Temporary r \<noteq> [] \<longrightarrow> has_prefix (path_Base (rr_Temporary r)) uploadPrefix)"

definition pending_ok :: "upload_env \<Rightarrow> world \<Rightarrow> receiptRecord \<Rightarrow> bool" where
  "pending_ok env w r \<longleftrightarrow>
     (rr_State r = ''receiving'' \<and> rr_ID r \<notin> renamed_ids w
      \<or> rr_State r = ''prepared'' \<and> rr_Temporary r \<noteq> [] \<and> staged_ok env w r)
     \<and> record_ok env r
     \<and> (\<forall>t. journal w (receiptName env (rr_ID r)) = Some t \<longrightarrow> rr_Fingerprint t = rr_Fingerprint r)"

definition stored_at :: "upload_env \<Rightarrow> string \<Rightarrow> receiptRecord \<Rightarrow> bool" where
  "stored_at env n r \<longleftrightarrow> n = receiptName env (rr_ID r)"

text \<open>The receipts ever written are the receipts in the journal: none is replaced or removed.\<close>

definition logged :: "upload_env \<Rightarrow> world \<Rightarrow> bool" where
  "logged env w \<longleftrightarrow>
     distinct (map rr_ID (w_receipts w))
     \<and> (\<forall>r\<in>set (w_receipts w). journal w (receiptName env (rr_ID r)) = Some r)
     \<and> (\<forall>n r. journal w n = Some r \<longrightarrow> n \<noteq> pendingReceipt \<longrightarrow> r \<in> set (w_receipts w))"

definition upload_inv :: "upload_env \<Rightarrow> world \<Rightarrow> bool" where
  "upload_inv env w \<longleftrightarrow>
     distinct (map rn_id (w_renames w))
     \<and> (\<forall>i\<in>renamed_ids w. journal w (receiptName env i) \<noteq> None
          \<or> (\<exists>r. journal w pendingReceipt = Some r \<and> rr_ID r = i \<and> rr_State r = ''prepared''))
     \<and> (\<forall>n r. journal w n = Some r \<longrightarrow> n \<noteq> pendingReceipt \<longrightarrow>
          stored_at env n r \<and> receipt_true env w r \<and> record_ok env r)
     \<and> (\<forall>r. journal w pendingReceipt = Some r \<longrightarrow> pending_ok env w r)
     \<and> (\<forall>p f. w_files w p = Some f \<longrightarrow> fi_id f < w_nextid w)
     \<and> logged env w"

lemma upload_invD:
  assumes "upload_inv env w"
  shows "distinct (map rn_id (w_renames w))"
    and "i \<in> renamed_ids w \<Longrightarrow> journal w (receiptName env i) \<noteq> None
          \<or> (\<exists>r. journal w pendingReceipt = Some r \<and> rr_ID r = i \<and> rr_State r = ''prepared'')"
    and "journal w n = Some r \<Longrightarrow> n \<noteq> pendingReceipt \<Longrightarrow> stored_at env n r \<and> receipt_true env w r \<and> record_ok env r"
    and "journal w pendingReceipt = Some r \<Longrightarrow> pending_ok env w r"
    and "w_files w p = Some f \<Longrightarrow> fi_id f < w_nextid w"
    and "logged env w"
  using assms unfolding upload_inv_def by blast+

lemma upload_invI:
  assumes "distinct (map rn_id (w_renames w))"
    and "\<And>i. i \<in> renamed_ids w \<Longrightarrow> journal w (receiptName env i) \<noteq> None
          \<or> (\<exists>r. journal w pendingReceipt = Some r \<and> rr_ID r = i \<and> rr_State r = ''prepared'')"
    and "\<And>n r. journal w n = Some r \<Longrightarrow> n \<noteq> pendingReceipt \<Longrightarrow> stored_at env n r \<and> receipt_true env w r \<and> record_ok env r"
    and "\<And>r. journal w pendingReceipt = Some r \<Longrightarrow> pending_ok env w r"
    and "\<And>p f. w_files w p = Some f \<Longrightarrow> fi_id f < w_nextid w"
    and "logged env w"
  shows "upload_inv env w"
  using assms unfolding upload_inv_def by blast

lemma receiptName_pending [simp]: "receiptName env i \<noteq> pendingReceipt" "pendingReceipt \<noteq> receiptName env i"
  by (simp_all add: receiptName_def pendingReceipt_def receiptDirectory_def uploadPrefix_def)

lemma receipt_true_cong:
  "w_renames w' = w_renames w \<Longrightarrow> w_unsynced w' = w_unsynced w \<Longrightarrow> receipt_true env w' r = receipt_true env w r"
  "w_renames w' = w_renames w \<Longrightarrow> renamed_as env w' r = renamed_as env w r"
  "w_renames w' = w_renames w \<Longrightarrow> renamed_ids w' = renamed_ids w"
  by (simp_all add: receipt_true_def renamed_as_def renamed_ids_def)

lemma history_frame [simp]:
  "renamed_ids (w\<lparr>w_files := F\<rparr>) = renamed_ids w" "renamed_ids (w\<lparr>w_nextid := N\<rparr>) = renamed_ids w"
  "renamed_ids (w\<lparr>w_journal := j\<rparr>) = renamed_ids w" "renamed_ids (w\<lparr>w_unsynced := u\<rparr>) = renamed_ids w"
  "renamed_as env (w\<lparr>w_files := F\<rparr>) r = renamed_as env w r" "renamed_as env (w\<lparr>w_nextid := N\<rparr>) r = renamed_as env w r"
  "renamed_as env (w\<lparr>w_journal := j\<rparr>) r = renamed_as env w r" "renamed_as env (w\<lparr>w_unsynced := u\<rparr>) r = renamed_as env w r"
  "receipt_true env (w\<lparr>w_files := F\<rparr>) r = receipt_true env w r" "receipt_true env (w\<lparr>w_nextid := N\<rparr>) r = receipt_true env w r"
  "receipt_true env (w\<lparr>w_journal := j\<rparr>) r = receipt_true env w r"
  by (simp_all add: receipt_true_def renamed_as_def renamed_ids_def)

lemma staged_ok_journal [simp]: "staged_ok env (w\<lparr>w_journal := j\<rparr>) r = staged_ok env w r"
  by (simp add: staged_ok_def)

lemma logged_frame [simp]:
  "logged env (w\<lparr>w_files := F\<rparr>) = logged env w" "logged env (w\<lparr>w_nextid := N\<rparr>) = logged env w"
  "logged env (w\<lparr>w_renames := R\<rparr>) = logged env w" "logged env (w\<lparr>w_unsynced := U\<rparr>) = logged env w"
  by (simp_all add: logged_def)

lemma logged_drift: "drift w w' \<Longrightarrow> logged env w \<Longrightarrow> logged env w'"
  by (simp add: logged_def drift_def)

lemma is_receipt_simps [simp]: "is_receipt (receiptName env i)" "\<not> is_receipt pendingReceipt"
  by (simp add: is_receipt_def receiptName_def has_prefix_iff) code_simp

lemma journal_written_simps [simp]:
  "journal (journal_written n r w) = (journal w)(n \<mapsto> r)"
  "w_files (journal_written n r w) = w_files w" "w_nextid (journal_written n r w) = w_nextid w"
  "w_renames (journal_written n r w) = w_renames w" "w_unsynced (journal_written n r w) = w_unsynced w"
  "w_receipts (journal_written (receiptName env i) r w) = r # w_receipts w"
  "w_receipts (journal_written pendingReceipt r w) = w_receipts w"
  by (simp_all add: journal_written_def update_conv')

lemma written_frame [simp]:
  "renamed_ids (journal_written n r w) = renamed_ids w" "renamed_as env (journal_written n r w) t = renamed_as env w t"
  "receipt_true env (journal_written n r w) t = receipt_true env w t" "staged_ok env (journal_written n r w) t = staged_ok env w t"
  by (simp_all add: renamed_ids_def renamed_as_def receipt_true_def staged_ok_def)

lemma logged_pending: "logged env w \<Longrightarrow> logged env (journal_written pendingReceipt r w)"
  by (auto simp: logged_def)

lemma logged_receipt:
  assumes "logged env w" "journal w (receiptName env (rr_ID r)) = None"
  shows "logged env (journal_written (receiptName env (rr_ID r)) r w)"
  using assms unfolding logged_def by (auto split: if_splits)

lemma logged_removed: "logged env w \<Longrightarrow> logged env (w\<lparr>w_journal := AList.delete pendingReceipt (w_journal w)\<rparr>)"
  by (auto simp: logged_def delete_conv' split: if_splits)

lemma staged_ok_drift:
  assumes "drift w w'" "staged_ok env w r"
  shows "staged_ok env w' r"
proof -
  note same = driftD [OF assms(1)] receipt_true_cong(2,3) [OF driftD(2) [OF assms(1)]]
  obtain i where i: "rr_FileIdentity r = Some i" "i < w_nextid w"
    "\<And>p f. w_files w p = Some f \<Longrightarrow> fi_id f = i \<Longrightarrow> p = rr_Temporary r \<or> rr_ID r \<in> renamed_ids w"
    and pr: "privateUploadPath (rr_Temporary r)"
    using assms(2) by (auto simp: staged_ok_def)
  have "p = rr_Temporary r \<or> rr_ID r \<in> renamed_ids w" if "w_files w' p = Some f'" "fi_id f' = i" for p f'
    using assms(1) that(1)
  proof (cases rule: drift_origin)
    case fresh
    with that(2) i(2) show ?thesis by simp
  next
    case (old q f)
    with i(3) [of q f] that(2) pr show ?thesis by auto
  qed
  with assms(2) i pr same show ?thesis by (auto simp: staged_ok_def)
qed

lemma upload_inv_drift:
  assumes "drift w w'" "upload_inv env w"
  shows "upload_inv env w'"
proof -
  note same = driftD(1-3) [OF assms(1)] receipt_true_cong [OF driftD(2) [OF assms(1)]]
  have files: "fi_id f' < w_nextid w'" if "w_files w' p = Some f'" for p f'
    using assms(1) that
  proof (cases rule: drift_origin)
    case (old q f)
    have "fi_id f < w_nextid w" using assms(2) old(1) unfolding upload_inv_def by blast
    with driftD(4) [OF assms(1)] old(2) show ?thesis by simp
  qed
  have pend: "pending_ok env w' r" if "pending_ok env w r" for r
    using that staged_ok_drift [OF assms(1)] same by (auto simp: pending_ok_def)
  show ?thesis
    using assms(2) files pend same driftD(3) [OF assms(1)] logged_drift [OF assms(1), of env] unfolding upload_inv_def by simp
qed

interpretation up: crash_logic "upload_inv env" for env
  by unfold_locales (rule upload_inv_drift)

lemma steadyI:
  assumes "\<And>w w'. drift w w' \<Longrightarrow> upload_inv env w \<Longrightarrow> P w \<Longrightarrow> P w'"
  shows "steady (upload_inv env) (\<lambda>w. upload_inv env w \<and> P w)"
  using assms upload_inv_drift by (auto simp: steady_def)


section \<open>System calls\<close>

lemma spec_readReceipt:
  assumes "steady (upload_inv env) P"
  shows "spec (upload_inv env) P (readReceiptFile env n)
    (\<lambda>r w. P w \<and> (\<forall>record. r = Inr record \<longrightarrow> journal w n = Some record) \<and> (r = Inl ErrNotExist \<longrightarrow> journal w n = None))"
  unfolding readReceiptFile_def by (rule up.spec_read [OF assms]) (auto split: option.splits if_splits)

lemma spec_stat:
  assumes "steady (upload_inv env) P"
  shows "spec (upload_inv env) P (fs_stat p)
    (\<lambda>r w. P w \<and> (\<forall>f. r = Inr f \<longrightarrow> w_files w p = Some f) \<and> (r = Inl ErrNotExist \<longrightarrow> w_files w p = None))"
  unfolding fs_stat_def by (rule up.spec_read [OF assms]) (auto split: option.splits)

lemma spec_remove:
  assumes "steady (upload_inv env) P" "\<And>w. P w \<Longrightarrow> P (w\<lparr>w_files := (w_files w)(p := None)\<rparr>)"
  shows "spec (upload_inv env) P (fs_remove p) (\<lambda>r w. P w)"
  unfolding fs_remove_def using assms(1) by (rule up.spec_syscall) (use assms(2) in \<open>auto split: if_splits\<close>)

lemma spec_discard:
  assumes "steady (upload_inv env) P" "\<And>w. P w \<Longrightarrow> P (w\<lparr>w_files := (w_files w)(p := None)\<rparr>)" "\<And>w. P w \<Longrightarrow> Q a w"
  shows "spec (upload_inv env) P (discard p a) Q"
  unfolding discard_def
  by (rule up.spec_bind [OF spec_remove [OF assms(1,2)]]) (auto intro: up.spec_return assms(3))

lemma inv_files:
  assumes "upload_inv env w" "w_nextid w \<le> N" "\<And>p f. F p = Some f \<Longrightarrow> fi_id f < N"
    and "\<And>r. journal w pendingReceipt = Some r \<Longrightarrow> rr_State r = ''prepared'' \<Longrightarrow> staged_ok env w r \<Longrightarrow>
      staged_ok env (w\<lparr>w_files := F, w_nextid := N\<rparr>) r"
  shows "upload_inv env (w\<lparr>w_files := F, w_nextid := N\<rparr>)"
proof -
  let ?w = "w\<lparr>w_files := F, w_nextid := N\<rparr>"
  have "pending_ok env ?w r" if "journal w pendingReceipt = Some r" "pending_ok env w r" for r
    using that assms(4) by (auto simp: pending_ok_def)
  with assms(1,3) show ?thesis unfolding upload_inv_def by simp
qed

lemma inv_remove: "upload_inv env w \<Longrightarrow> upload_inv env (w\<lparr>w_files := (w_files w)(p := None)\<rparr>)"
proof -
  assume inv: "upload_inv env w"
  let ?w = "w\<lparr>w_files := (w_files w)(p := None), w_nextid := w_nextid w\<rparr>"
  have "upload_inv env ?w"
    using inv
  proof (rule inv_files)
    fix r assume "staged_ok env w r"
    then show "staged_ok env ?w r"
      unfolding staged_ok_def by (auto split: if_splits)
  qed (use inv in \<open>auto simp: upload_inv_def split: if_splits\<close>)
  then show ?thesis by simp
qed

lemma inv_append:
  assumes "upload_inv env w" "w_files w p = Some f"
  shows "upload_inv env (w\<lparr>w_files := (w_files w)(p \<mapsto> f\<lparr>fi_data := d\<rparr>)\<rparr>)"
proof -
  let ?w = "w\<lparr>w_files := (w_files w)(p \<mapsto> f\<lparr>fi_data := d\<rparr>), w_nextid := w_nextid w\<rparr>"
  have "upload_inv env ?w"
    using assms(1)
  proof (rule inv_files)
    fix r assume "staged_ok env w r"
    with assms(2) show "staged_ok env ?w r"
      unfolding staged_ok_def by (auto split: if_splits)
  qed (use assms in \<open>auto simp: upload_inv_def split: if_splits\<close>)
  then show ?thesis by simp
qed


section \<open>Receipts\<close>

text \<open>The attempt in the pending record, if any, is that of the record at hand.\<close>

definition own_pending :: "receiptRecord \<Rightarrow> world \<Rightarrow> bool" where
  "own_pending r w \<longleftrightarrow>
     (\<forall>p. journal w pendingReceipt = Some p \<longrightarrow> rr_ID p = rr_ID r \<and> rr_Fingerprint p = rr_Fingerprint r)"

lemma inv_write_receipt:
  assumes "upload_inv env w" "own_pending r w" "receipt_true env w r" "record_ok env r"
    and "journal w (receiptName env (rr_ID r)) = None"
  shows "upload_inv env (journal_written (receiptName env (rr_ID r)) r w)"
proof -
  let ?n = "receiptName env (rr_ID r)"
  let ?w = "journal_written ?n r w"
  have j: "journal ?w = (journal w)(?n \<mapsto> r)" by simp
  have pend: "pending_ok env ?w p" if "journal w pendingReceipt = Some p" for p
  proof -
    have "pending_ok env w p" "rr_Fingerprint p = rr_Fingerprint r"
      using that assms(1,2) by (auto simp: upload_inv_def own_pending_def)
    then show ?thesis by (auto simp: pending_ok_def split: if_splits)
  qed
  show ?thesis
    using assms(1,3,4) pend logged_receipt [OF upload_invD(6) [OF assms(1)] assms(5)]
    unfolding upload_inv_def j by (auto simp: stored_at_def)
qed

lemma inv_remove_pending:
  assumes "upload_inv env w" "own_pending r w" "journal w (receiptName env (rr_ID r)) \<noteq> None \<or> rr_ID r \<notin> renamed_ids w"
  shows "upload_inv env (w\<lparr>w_journal := AList.delete pendingReceipt (w_journal w)\<rparr>)"
proof -
  let ?w = "w\<lparr>w_journal := AList.delete pendingReceipt (w_journal w)\<rparr>"
  have j: "journal ?w = (journal w)(pendingReceipt := None)" by (simp add: delete_conv')
  have "journal w (receiptName env i) \<noteq> None" if "i \<in> renamed_ids w" for i
    using that assms unfolding upload_inv_def own_pending_def by metis
  with assms(1) logged_removed [OF upload_invD(6) [OF assms(1)]] show ?thesis unfolding upload_inv_def j by auto
qed

text \<open>What interference keeps.\<close>

lemma drift_eqs:
  assumes "drift w w'"
  shows "w_journal w' = w_journal w \<and> renamed_ids w' = renamed_ids w \<and> w_unsynced w' = w_unsynced w
    \<and> (\<forall>env r. renamed_as env w' r = renamed_as env w r) \<and> (\<forall>env r. receipt_true env w' r = receipt_true env w r)
    \<and> (\<forall>r. own_pending r w' = own_pending r w) \<and> (\<forall>p. privateUploadPath p \<longrightarrow> w_files w' p = w_files w p)"
  using driftD [OF assms] receipt_true_cong [OF driftD(2) [OF assms]] by (simp add: own_pending_def)

lemma steady_inv: "steady (upload_inv env) (upload_inv env)"
  by (rule up.steady_invariant)

lemma steady_with:
  assumes "steady I P" "\<And>w w'. drift w w' \<Longrightarrow> Q w \<Longrightarrow> Q w'"
  shows "steady I (\<lambda>w. P w \<and> Q w)"
  using assms by (auto simp: steady_def)

lemma steady_const: "steady I P \<Longrightarrow> steady I (\<lambda>w. P w \<and> c)"
  by (auto simp: steady_def)

lemma record_ok_completed [simp]: "record_ok env (receipt_completed env r state status) = record_ok env r"
  by (simp add: record_ok_def receipt_completed_def Let_def)

lemma completed_fields [simp]:
  "rr_ID (receipt_completed env r state status) = rr_ID r"
  "rr_State (receipt_completed env r state status) = state"
  "rr_Fingerprint (receipt_completed env r state status) = rr_Fingerprint r"
  "rr_Target (receipt_completed env r state status) = rr_Target r"
  "rr_SHA256 (receipt_completed env r state status) = rr_SHA256 r"
  by (simp_all add: receipt_completed_def Let_def)

lemma own_pending_completed [simp]: "own_pending (receipt_completed env r state status) w = own_pending r w"
  by (simp add: own_pending_def)

lemma own_pending_receipt [simp]:
  "own_pending r (journal_written (receiptName env i) x w) = own_pending r w"
  by (simp add: own_pending_def)

lemma own_pending_removed [simp]: "own_pending r (w\<lparr>w_journal := AList.delete pendingReceipt (w_journal w)\<rparr>)"
  by (simp add: own_pending_def delete_conv')

text \<open>A true receipt about to be written for an attempt that has none, and once it is written.\<close>

definition completing :: "upload_env \<Rightarrow> receiptRecord \<Rightarrow> world \<Rightarrow> bool" where
  "completing env r w \<longleftrightarrow>
     upload_inv env w \<and> own_pending r w \<and> receipt_true env w r \<and> record_ok env r
     \<and> journal w (receiptName env (rr_ID r)) = None"

definition completed :: "upload_env \<Rightarrow> receiptRecord \<Rightarrow> world \<Rightarrow> bool" where
  "completed env r w \<longleftrightarrow>
     upload_inv env w \<and> own_pending r w \<and> receipt_true env w r \<and> journal w (receiptName env (rr_ID r)) = Some r"

lemma steady_completing: "steady (upload_inv env) (completing env r)"
  unfolding completing_def by (intro steady_with [OF steady_inv]) (auto dest!: drift_eqs)

lemma steady_completed: "steady (upload_inv env) (completed env r)"
  unfolding completed_def by (intro steady_with [OF steady_inv]) (auto dest!: drift_eqs)

lemma completing_written:
  "completing env r w \<Longrightarrow> completed env r (journal_written (receiptName env (rr_ID r)) r w)"
  unfolding completing_def completed_def using inv_write_receipt [of env w r] by simp

lemma completed_removed:
  "completed env r w \<Longrightarrow> completed env r (w\<lparr>w_journal := AList.delete pendingReceipt (w_journal w)\<rparr>)"
  unfolding completed_def using inv_remove_pending [of env w r] by (simp add: delete_conv')

text \<open>The removal of the pending record, whose absence is no failure.\<close>

lemma spec_unpend:
  "spec (upload_inv env) (completed env r) (journal_remove pendingReceipt)
    (\<lambda>x w. completed env r w \<and> (x = Inr () \<or> x = Inl ErrNotExist \<longrightarrow> journal w pendingReceipt = None))"
  unfolding journal_remove_def using steady_completed
  by (rule up.spec_syscall) (auto simp: completed_removed delete_conv' split: if_splits)

lemma spec_complete:
  fixes r state status env
  defines "r' \<equiv> receipt_completed env r state status"
  shows "spec (upload_inv env) (completing env r') (completeReceipt env r state status)
    (\<lambda>x w. upload_inv env w \<and> (is_ok x \<longrightarrow> x = Inr r' \<and> journal w pendingReceipt = None \<and> completed env r' w))"
    (is "spec _ _ _ ?post")
proof -
  let ?gone = "\<lambda>w. completed env r' w \<and> journal w pendingReceipt = None"
  have gone: "steady (upload_inv env) ?gone" by (rule steady_with [OF steady_completed]) (auto dest!: drift_eqs)
  have "spec (upload_inv env) ?gone (io_try (journal_sync False) (\<lambda>_. io_return (Inr r'))) ?post"
    by (rule up.spec_try [OF up.spec_sync [OF gone]]) (auto intro!: up.spec_return simp: completed_def)
  then have unpend: "spec (upload_inv env) (\<lambda>w. completed env r' w \<and> (x = Inr () \<or> x = Inl ErrNotExist \<longrightarrow> journal w pendingReceipt = None))
      (if x \<noteq> Inr () \<and> x \<noteq> Inl ErrNotExist then io_return (Inl ErrIO) else io_try (journal_sync False) (\<lambda>_. io_return (Inr r'))) ?post"
    for x :: "fs_error + unit"
    by (cases "x = Inr () \<or> x = Inl ErrNotExist") (auto intro!: up.spec_return simp: completed_def)
  show ?thesis
    unfolding completeReceipt_def Let_def r'_def [symmetric]
  proof (rule up.spec_try [OF up.spec_write [OF steady_completing steady_completed completing_written]])
    show "spec (upload_inv env) (\<lambda>w. if is_ok (Inr u) then completed env r' w else completing env r' w \<or> completed env r' w)
        (io_bind (journal_remove pendingReceipt) (\<lambda>removed. if removed \<noteq> Inr () \<and> removed \<noteq> Inl ErrNotExist
           then io_return (Inl ErrIO) else io_try (journal_sync False) (\<lambda>_. io_return (Inr r')))) ?post" for u :: unit
      using up.spec_bind [OF spec_unpend unpend] by simp
  qed (auto simp: completing_def completed_def)
qed


section \<open>Recovery\<close>

lemma spec_remove_pending:
  assumes "steady (upload_inv env) P" "\<And>w. P w \<Longrightarrow> Q (w\<lparr>w_journal := AList.delete pendingReceipt (w_journal w)\<rparr>)"
  shows "spec (upload_inv env) P (journal_remove pendingReceipt)
    (\<lambda>x w. if x = Inr () then Q w else P w \<and> (x = Inl ErrNotExist \<longrightarrow> journal w pendingReceipt = None))"
  unfolding journal_remove_def using assms(1)
  by (rule up.spec_syscall) (use assms(2) in \<open>auto split: if_splits\<close>)

lemma inv_unsynced:
  assumes "upload_inv env w" "set u \<subseteq> set (w_unsynced w)"
  shows "upload_inv env (w\<lparr>w_unsynced := u\<rparr>)"
proof -
  have "receipt_true env (w\<lparr>w_unsynced := u\<rparr>) r" if "receipt_true env w r" for r
    using that assms(2) unfolding receipt_true_def by auto
  moreover have "staged_ok env (w\<lparr>w_unsynced := u\<rparr>) r = staged_ok env w r" for r by (simp add: staged_ok_def)
  then have "pending_ok env (w\<lparr>w_unsynced := u\<rparr>) r = pending_ok env w r" for r by (simp add: pending_ok_def)
  ultimately show ?thesis
    using upload_invD [OF assms(1)] by (intro upload_invI) simp_all
qed

text \<open>The record at hand is the pending one.\<close>

definition recovering :: "upload_env \<Rightarrow> receiptRecord \<Rightarrow> world \<Rightarrow> bool" where
  "recovering env r w \<longleftrightarrow> upload_inv env w \<and> journal w pendingReceipt = Some r"

lemma steady_recovering: "steady (upload_inv env) (recovering env r)"
  unfolding recovering_def by (rule steady_with [OF steady_inv]) (auto dest!: drift_eqs)

lemma recovering_remove: "recovering env r w \<Longrightarrow> recovering env r (w\<lparr>w_files := (w_files w)(p := None)\<rparr>)"
  by (simp add: recovering_def inv_remove)

lemma recovering_pending: "recovering env r w \<Longrightarrow> pending_ok env w r \<and> own_pending r w \<and> record_ok env r"
  unfolding recovering_def own_pending_def using upload_invD(4) [of env w r] by (auto simp: pending_ok_def)

text \<open>It has no receipt yet.\<close>

definition resuming :: "upload_env \<Rightarrow> receiptRecord \<Rightarrow> world \<Rightarrow> bool" where
  "resuming env r w \<longleftrightarrow> recovering env r w \<and> journal w (receiptName env (rr_ID r)) = None"

lemma steady_resuming: "steady (upload_inv env) (resuming env r)"
  unfolding resuming_def by (rule steady_with [OF steady_recovering]) (auto dest!: drift_eqs)

lemma resuming_remove: "resuming env r w \<Longrightarrow> resuming env r (w\<lparr>w_files := (w_files w)(p := None)\<rparr>)"
  by (simp add: resuming_def recovering_remove)

lemma resuming_pending: "resuming env r w \<Longrightarrow> pending_ok env w r \<and> own_pending r w \<and> record_ok env r"
  unfolding resuming_def using recovering_pending by blast

lemma resuming_inv: "resuming env r w \<Longrightarrow> upload_inv env w"
  by (simp add: resuming_def recovering_def)

lemma resuming_completing:
  assumes "resuming env r w"
    and "state = ''committed'' \<and> renamed_as env w r \<and> rr_ID r \<notin> set (w_unsynced w)
      \<or> state \<in> {''rejected'', ''interrupted''} \<and> rr_ID r \<notin> renamed_ids w \<or> state = ''uncertain''"
  shows "completing env (receipt_completed env r state status) w"
  using assms resuming_pending [OF assms(1)]
  by (auto simp: completing_def resuming_def recovering_def receipt_true_def renamed_as_def)

lemma spec_discard_receiving:
  "spec (upload_inv env) (resuming env r) (discard_receiving r) (\<lambda>x w. resuming env r w)"
proof (cases "rr_State r = ''receiving'' \<and> rr_Temporary r \<noteq> []")
  case True
  have "spec (upload_inv env) (resuming env r)
      (io_bind (fs_remove (rr_Temporary r)) (\<lambda>x. io_return (case x of Inl e \<Rightarrow> if e = ErrNotExist then Inr () else Inl e | Inr _ \<Rightarrow> Inr ())))
      (\<lambda>x w. resuming env r w)"
    by (rule up.spec_bind [OF spec_remove [OF steady_resuming resuming_remove]]) (auto intro: up.spec_return)
  with True show ?thesis unfolding discard_receiving_def by simp
next
  case False
  then show ?thesis unfolding discard_receiving_def by (simp only: if_False) (rule up.spec_return)
qed

lemma spec_sync_upload:
  assumes "steady (upload_inv env) P" "\<And>w u. P w \<Longrightarrow> P (w\<lparr>w_unsynced := filter (\<lambda>j. j \<noteq> i) (w_unsynced w)\<rparr>)"
  shows "spec (upload_inv env) P (fs_sync_upload i) (\<lambda>x w. P w \<and> (is_ok x \<longrightarrow> i \<notin> set (w_unsynced w)))"
  unfolding fs_sync_upload_def using assms(1) by (rule up.spec_syscall) (use assms(2) in auto)

lemma resuming_sync:
  "resuming env r w \<Longrightarrow> resuming env r (w\<lparr>w_unsynced := filter P (w_unsynced w)\<rparr>)"
  by (simp add: resuming_def recovering_def inv_unsynced)

lemma staged_at_target:
  assumes "staged_ok env w r" "w_files w (rr_Temporary r) = None" "w_files w p = Some f" "Some (fi_id f) = rr_FileIdentity r"
  shows "renamed_as env w r"
  using assms unfolding staged_ok_def by (metis option.distinct(1) option.inject)

lemma spec_recovered_target:
  assumes "rr_State r = ''prepared''"
  shows "spec (upload_inv env) (\<lambda>w. resuming env r w \<and> w_files w (rr_Temporary r) = None \<and> privateUploadPath (rr_Temporary r))
    (recovered_target env r)
    (\<lambda>x w. resuming env r w \<and> (\<forall>state status. x = Inr (state, status) \<longrightarrow> completing env (receipt_completed env r state status) w))"
proof -
  let ?P = "\<lambda>w. resuming env r w \<and> w_files w (rr_Temporary r) = None \<and> privateUploadPath (rr_Temporary r)"
  let ?R = "\<lambda>w. resuming env r w \<and> renamed_as env w r"
  let ?post = "\<lambda>x w. resuming env r w \<and> (\<forall>state status. x = Inr (state, status) \<longrightarrow> completing env (receipt_completed env r state status) w)"
  have P: "steady (upload_inv env) ?P"
    by (rule steady_with [OF steady_resuming]) (auto dest!: drift_eqs)
  have R: "steady (upload_inv env) ?R" by (rule steady_with [OF steady_resuming]) (auto dest!: drift_eqs)
  have uncertain: "spec (upload_inv env) Q (io_return (Inr (''uncertain'', 503))) ?post" if "\<And>w. Q w \<Longrightarrow> resuming env r w" for Q
    by (rule up.spec_return) (auto intro: resuming_completing dest: that)
  have synced: "spec (upload_inv env) ?R (io_try (fs_sync_upload (rr_ID r)) (\<lambda>_. io_return (Inr (''committed'', 201)))) ?post"
  proof (rule up.spec_try [OF spec_sync_upload [OF R]])
    show "spec (upload_inv env) (\<lambda>w. ?R w \<and> (is_ok (Inr u) \<longrightarrow> rr_ID r \<notin> set (w_unsynced w))) (io_return (Inr (''committed'', 201))) ?post" for u :: unit
      by (rule up.spec_return) (auto intro: resuming_completing)
  qed (auto simp: resuming_sync)
  show ?thesis
    unfolding recovered_target_def
  proof (rule up.spec_bind [OF spec_stat [OF P]])
    fix x
    show "spec (upload_inv env) (\<lambda>w. ?P w \<and> (\<forall>f. x = Inr f \<longrightarrow> w_files w (rr_Target r) = Some f) \<and> (x = Inl ErrNotExist \<longrightarrow> w_files w (rr_Target r) = None))
      (case x of Inl e \<Rightarrow> io_return (if e = ErrNotExist then Inr (''uncertain'', 503) else Inl e)
       | Inr f \<Rightarrow> if Some (fi_id f) = rr_FileIdentity r
             \<and> digestRevision (hex_encode (ue_sha256 env (fi_data f))) = digestRevision (rr_SHA256 r)
             \<and> itoa (int (length (fi_data f))) = rr_Size r
           then io_try (fs_sync_upload (rr_ID r)) (\<lambda>_. io_return (Inr (''committed'', 201)))
           else io_return (Inr (''uncertain'', 503))) ?post"
    proof (cases x)
      case (Inl e)
      then show ?thesis by (auto intro: uncertain up.spec_return)
    next
      case (Inr f)
      have "?R w" if "?P w" "w_files w (rr_Target r) = Some f" "Some (fi_id f) = rr_FileIdentity r" for w
        using that staged_at_target [of env w r] resuming_pending [of env r w] assms by (auto simp: pending_ok_def)
      then have "spec (upload_inv env) (\<lambda>w. ?P w \<and> w_files w (rr_Target r) = Some f)
          (if Some (fi_id f) = rr_FileIdentity r
             \<and> digestRevision (hex_encode (ue_sha256 env (fi_data f))) = digestRevision (rr_SHA256 r)
             \<and> itoa (int (length (fi_data f))) = rr_Size r
           then io_try (fs_sync_upload (rr_ID r)) (\<lambda>_. io_return (Inr (''committed'', 201)))
           else io_return (Inr (''uncertain'', 503))) ?post"
        by (auto intro: up.spec_conseq [OF synced] uncertain)
      with Inr show ?thesis by (simp cong: conj_cong)
    qed
  qed
qed

lemma spec_recovered_outcome:
  "spec (upload_inv env) (resuming env r) (recovered_outcome env r)
    (\<lambda>x w. resuming env r w \<and> (\<forall>state status. x = Inr (state, status) \<longrightarrow> completing env (receipt_completed env r state status) w))"
    (is "spec _ _ _ ?post")
proof (cases "rr_State r = ''prepared''")
  case prepared: True
  let ?t = "rr_Temporary r"
  let ?gone = "\<lambda>w. resuming env r w \<and> w_files w ?t = None \<and> privateUploadPath ?t"
  let ?here = "\<lambda>w. resuming env r w \<and> rr_ID r \<notin> renamed_ids w"
  have staged: "staged_ok env w r" if "resuming env r w" for w
    using resuming_pending [OF that] prepared by (simp add: pending_ok_def)
  have here: "steady (upload_inv env) ?here"
    by (rule steady_with [OF steady_resuming]) (auto dest!: drift_eqs)
  have removes: "spec (upload_inv env) ?here (io_try (fs_remove ?t) (\<lambda>_. io_return (Inr (''interrupted'', 408)))) ?post"
  proof (rule up.spec_try [OF spec_remove [OF here]])
    show "spec (upload_inv env) ?here (io_return (Inr (''interrupted'', 408))) ?post" for u :: unit
      by (rule up.spec_return) (auto intro: resuming_completing)
  qed (auto simp: resuming_remove)
  have "spec (upload_inv env) (resuming env r)
      (io_bind (fs_stat ?t) (\<lambda>x. case x of
         Inr _ \<Rightarrow> io_try (fs_remove ?t) (\<lambda>_. io_return (Inr (''interrupted'', 408)))
       | Inl e \<Rightarrow> if e = ErrNotExist then recovered_target env r else io_return (Inl e))) ?post"
  proof (rule up.spec_bind [OF spec_stat [OF steady_resuming]])
    fix x
    show "spec (upload_inv env) (\<lambda>w. resuming env r w \<and> (\<forall>f. x = Inr f \<longrightarrow> w_files w ?t = Some f) \<and> (x = Inl ErrNotExist \<longrightarrow> w_files w ?t = None))
        (case x of Inr _ \<Rightarrow> io_try (fs_remove ?t) (\<lambda>_. io_return (Inr (''interrupted'', 408)))
         | Inl e \<Rightarrow> if e = ErrNotExist then recovered_target env r else io_return (Inl e)) ?post"
    proof (cases x)
      case (Inl e)
      have "spec (upload_inv env) (\<lambda>w. resuming env r w \<and> w_files w ?t = None) (recovered_target env r) ?post"
        by (rule up.spec_conseq [OF spec_recovered_target [OF prepared]]) (use staged in \<open>auto simp: staged_ok_def\<close>)
      with Inl show ?thesis by (auto intro: up.spec_return)
    next
      case (Inr f)
      have "spec (upload_inv env) (\<lambda>w. resuming env r w \<and> w_files w ?t = Some f)
          (io_try (fs_remove ?t) (\<lambda>_. io_return (Inr (''interrupted'', 408)))) ?post"
        by (rule up.spec_conseq [OF removes]) (use staged in \<open>auto simp: staged_ok_def\<close>)
      with Inr show ?thesis by simp
    qed
  qed
  then show ?thesis using prepared unfolding recovered_outcome_def by (auto intro: up.spec_return)
next
  case False
  have "completing env (receipt_completed env r ''interrupted'' 408) w" if "rr_State r = ''receiving''" "resuming env r w" for w
    using that resuming_pending [OF that(2)] by (auto simp: pending_ok_def intro: resuming_completing)
  with False show ?thesis unfolding recovered_outcome_def by (auto intro!: up.spec_return)
qed

definition recovered :: "upload_env \<Rightarrow> world \<Rightarrow> bool" where
  "recovered env w \<longleftrightarrow> upload_inv env w \<and> journal w pendingReceipt = None"

lemma steady_recovered: "steady (upload_inv env) (recovered env)"
  unfolding recovered_def by (rule steady_with [OF steady_inv]) (auto dest!: drift_eqs)

abbreviation recovery_post :: "upload_env \<Rightarrow> fs_error + 'a \<Rightarrow> world \<Rightarrow> bool" where
  "recovery_post env x w \<equiv> upload_inv env w \<and> (is_ok x \<longrightarrow> recovered env w)"

text \<open>The attempt has a receipt and is no longer pending.\<close>

abbreviation settled_post :: "upload_env \<Rightarrow> receiptRecord \<Rightarrow> fs_error + 'a \<Rightarrow> world \<Rightarrow> bool" where
  "settled_post env r x w \<equiv>
     upload_inv env w \<and> (is_ok x \<longrightarrow> recovered env w \<and> journal w (receiptName env (rr_ID r)) \<noteq> None)"

lemma spec_recover_attempt:
  "spec (upload_inv env) (resuming env r) (recover_attempt env r) (settled_post env r)"
  unfolding recover_attempt_def
proof (rule up.spec_try [OF spec_discard_receiving], simp add: resuming_inv, rule up.spec_try [OF spec_recovered_outcome])
  have complete: "spec (upload_inv env) (completing env (receipt_completed env r state status))
      (io_try (completeReceipt env r state status) (\<lambda>_. io_return (Inr ()))) (settled_post env r)" for state status
    by (rule up.spec_try [OF spec_complete]) (auto intro!: up.spec_return simp: recovered_def completed_def)
  fix p :: "string \<times> nat"
  obtain state status where p: "p = (state, status)" by (cases p)
  show "spec (upload_inv env) (\<lambda>w. resuming env r w \<and> (\<forall>state status. Inr p = Inr (state, status) \<longrightarrow> completing env (receipt_completed env r state status) w))
      (case p of (state, status) \<Rightarrow> io_try (completeReceipt env r state status) (\<lambda>_. io_return (Inr ()))) (settled_post env r)"
    unfolding p prod.case by (rule up.spec_conseq [OF complete]) auto
qed (simp add: resuming_inv)

lemma spec_recover_known:
  "spec (upload_inv env) (\<lambda>w. recovering env r w \<and> journal w (receiptName env (rr_ID r)) \<noteq> None)
    (io_try (journal_remove pendingReceipt) (\<lambda>_. journal_sync False)) (settled_post env r)"
proof -
  let ?known = "\<lambda>w. recovering env r w \<and> journal w (receiptName env (rr_ID r)) \<noteq> None"
  have known: "steady (upload_inv env) ?known" by (rule steady_with [OF steady_recovering]) (auto dest!: drift_eqs)
  let ?gone = "\<lambda>w. recovered env w \<and> journal w (receiptName env (rr_ID r)) \<noteq> None"
  have steady: "steady (upload_inv env) ?gone" by (rule steady_with [OF steady_recovered]) (auto dest!: drift_eqs)
  have gone: "?gone (w\<lparr>w_journal := AList.delete pendingReceipt (w_journal w)\<rparr>)" if "?known w" for w
    using that recovering_pending [of env r w] inv_remove_pending [of env w r]
    by (simp add: recovering_def recovered_def delete_conv')
  show ?thesis
  proof (rule up.spec_try [OF spec_remove_pending [where Q = ?gone, OF known gone]])
    fix u :: unit
    have "spec (upload_inv env) ?gone (journal_sync False) (settled_post env r)"
      by (rule up.spec_conseq [OF up.spec_sync [OF steady]]) (auto simp: recovered_def)
    then show "spec (upload_inv env)
        (\<lambda>w. if Inr u = Inr () then ?gone w else ?known w \<and> (Inr u = Inl ErrNotExist \<longrightarrow> journal w pendingReceipt = None))
        (journal_sync False) (settled_post env r)" by simp
  qed (auto simp: recovering_def)
qed

lemma spec_recover_pending:
  "spec (upload_inv env) (recovering env r) (recover_pending env r) (settled_post env r)"
  unfolding recover_pending_def
proof (rule up.spec_bind [OF spec_readReceipt [OF steady_recovering]])
  fix t :: "fs_error + receiptRecord"
  have fail: "spec (upload_inv env) (\<lambda>w. recovering env r w \<and> Q w) (io_return (Inl e)) (settled_post env r)" for Q e
    by (rule up.spec_return) (simp add: recovering_def)
  have attempt: "spec (upload_inv env) (\<lambda>w. recovering env r w \<and> journal w (receiptName env (rr_ID r)) = None) (recover_attempt env r) (settled_post env r)"
    by (rule up.spec_pre [OF spec_recover_attempt]) (simp add: resuming_def)
  have known: "spec (upload_inv env)
      (\<lambda>w. recovering env r w \<and> (\<forall>record. Inr t' = Inr record \<longrightarrow> journal w (receiptName env (rr_ID r)) = Some record) \<and> Q w)
      (io_try (journal_remove pendingReceipt) (\<lambda>_. journal_sync False)) (settled_post env r)" for t' Q
    by (rule up.spec_conseq [OF spec_recover_known [of env r]]) auto
  show "spec (upload_inv env)
      (\<lambda>w. recovering env r w \<and> (\<forall>record. t = Inr record \<longrightarrow> journal w (receiptName env (rr_ID r)) = Some record)
        \<and> (t = Inl ErrNotExist \<longrightarrow> journal w (receiptName env (rr_ID r)) = None))
      (case t of
         Inr terminal \<Rightarrow>
           if rr_Fingerprint terminal \<noteq> rr_Fingerprint r then io_return (Inl ErrJournal)
           else io_try (journal_remove pendingReceipt) (\<lambda>_. journal_sync False)
       | Inl e \<Rightarrow>
           if e \<noteq> ErrNotExist then io_return (Inl e)
           else if rr_Temporary r \<noteq> [] \<and> \<not> has_prefix (path_Base (rr_Temporary r)) uploadPrefix
           then io_return (Inl ErrJournal)
           else recover_attempt env r) (settled_post env r)"
    by (cases t) (simp_all only: sum.case fail known split: if_split, simp_all add: attempt del: not_None_eq)
qed

lemma spec_recover: "spec (upload_inv env) (upload_inv env) (recoverReceipt env) (recovery_post env)"
  unfolding recoverReceipt_def
proof (rule up.spec_bind [OF spec_readReceipt [OF steady_inv]])
  fix x :: "fs_error + receiptRecord"
  show "spec (upload_inv env)
      (\<lambda>w. upload_inv env w \<and> (\<forall>record. x = Inr record \<longrightarrow> journal w pendingReceipt = Some record)
        \<and> (x = Inl ErrNotExist \<longrightarrow> journal w pendingReceipt = None))
     (case x of Inl e \<Rightarrow> io_return (if e = ErrNotExist then Inr () else Inl e) | Inr record \<Rightarrow> recover_pending env record)
     (recovery_post env)"
  proof (cases x)
    case (Inl e)
    then show ?thesis by (auto intro!: up.spec_return simp: recovered_def)
  next
    case (Inr r)
    have "spec (upload_inv env) (\<lambda>w. upload_inv env w \<and> journal w pendingReceipt = Some r) (recover_pending env r) (recovery_post env)"
      by (rule up.spec_conseq [OF spec_recover_pending]) (auto simp: recovering_def)
    with Inr show ?thesis by simp
  qed
qed

end
