(* ===== verification/UploadServe.thy ===== *)
theory UploadServe
  imports UploadProps
begin

text \<open>
  The specifications of the operations of an upload, from the admission of its identifier to the
  answer, over the logic and the invariant of \<^verbatim>\<open>UploadProps\<close>, and the properties of durable
  uploads: at most one effect per identifier whatever fails, receipts that tell the truth, and a
  recovery that completes.
\<close>

section \<open>Assertions\<close>

text \<open>The export is an absolute path in its cleaned form.\<close>

definition env_ok :: "upload_env \<Rightarrow> bool" where
  "env_ok env \<longleftrightarrow> (\<exists>bs. list_all normal bs \<and> lo_path (ue_local env) = abs_path bs)"

text \<open>The record is that of an attempt without an effect and without a receipt.\<close>

definition attempt :: "upload_env \<Rightarrow> receiptRecord \<Rightarrow> world \<Rightarrow> bool" where
  "attempt env r w \<longleftrightarrow>
     upload_inv env w \<and> own_pending r w \<and> rr_ID r \<notin> renamed_ids w \<and> record_ok env r
     \<and> journal w (receiptName env (rr_ID r)) = None"

definition unprepared :: "world \<Rightarrow> bool" where
  "unprepared w \<longleftrightarrow> (\<forall>p. journal w pendingReceipt = Some p \<longrightarrow> rr_State p \<noteq> ''prepared'')"

text \<open>A request, with or without an identifier, that has changed nothing yet.\<close>

definition admitted :: "upload_env \<Rightarrow> receiptRecord option \<Rightarrow> world \<Rightarrow> bool" where
  "admitted env ro w \<longleftrightarrow>
     upload_inv env w \<and> unprepared w \<and> (\<forall>r. ro = Some r \<longrightarrow> attempt env r w \<and> rr_State r = ''receiving'')"

text \<open>The file at the path is the only one of its identity.\<close>

definition only_file :: "string \<Rightarrow> nat \<Rightarrow> bytes \<Rightarrow> world \<Rightarrow> bool" where
  "only_file p i d w \<longleftrightarrow>
     w_files w p = Some \<lparr>fi_id = i, fi_data = d\<rparr> \<and> (\<forall>q f. w_files w q = Some f \<longrightarrow> fi_id f = i \<longrightarrow> q = p)"

definition staged_names :: "atomicUpload \<Rightarrow> bool" where
  "staged_names st \<longleftrightarrow>
     privateUploadPath (au_temporary st) \<and> has_prefix (path_Base (au_temporary st)) uploadPrefix
     \<and> au_temporary st \<noteq> [] \<and> \<not> privateUploadPath (au_target st)"

definition staged :: "upload_env \<Rightarrow> receiptRecord option \<Rightarrow> atomicUpload \<Rightarrow> bytes \<Rightarrow> world \<Rightarrow> bool" where
  "staged env ro st d w \<longleftrightarrow> admitted env ro w \<and> staged_names st \<and> only_file (au_temporary st) (au_file st) d w"

text \<open>The pending record announces the rename.\<close>

definition ready :: "upload_env \<Rightarrow> receiptRecord \<Rightarrow> atomicUpload \<Rightarrow> bytes \<Rightarrow> world \<Rightarrow> bool" where
  "ready env r st d w \<longleftrightarrow>
     attempt env r w \<and> staged_names st \<and> only_file (au_temporary st) (au_file st) d w
     \<and> journal w pendingReceipt = Some r \<and> rr_State r = ''prepared'' \<and> rr_Target r = au_target st
     \<and> rr_Temporary r = au_temporary st \<and> rr_FileIdentity r = Some (au_file st)
     \<and> hex_encode (ue_sha256 env d) = rr_SHA256 r"

text \<open>The digest of the record is the one the body is checked against.\<close>

definition body_ok :: "uploadBody \<Rightarrow> bool" where
  "body_ok body \<longleftrightarrow>
     \<not> ub_effectCommitted body
     \<and> (\<forall>r. ub_receipt body = Some r \<longrightarrow> (\<exists>e. ub_expectedHash body = Some e \<and> rr_SHA256 r = hex_encode e))"

text \<open>What \<^verbatim>\<open>serveMutation\<close> finds in the body after the handler.\<close>

definition ended :: "upload_env \<Rightarrow> uploadBody \<Rightarrow> world \<Rightarrow> bool" where
  "ended env body w \<longleftrightarrow>
     upload_inv env w
     \<and> (\<forall>r. ub_receipt body = Some r \<longrightarrow>
          (if ub_effectCommitted body then ub_status body = 0 \<longrightarrow> receipt_true env w r \<and> r \<in> set (w_receipts w)
           else attempt env r w))"

lemma attempt_inv: "attempt env r w \<Longrightarrow> upload_inv env w"
  by (simp add: attempt_def)

lemma admitted_inv: "admitted env ro w \<Longrightarrow> upload_inv env w"
  by (simp add: admitted_def)

lemma admitted_attempt: "admitted env (Some r) w \<Longrightarrow> attempt env r w"
  by (simp add: admitted_def)

lemma staged_admitted: "staged env ro st d w \<Longrightarrow> admitted env ro w"
  by (simp add: staged_def)

lemma ready_attempt: "ready env r st d w \<Longrightarrow> attempt env r w"
  by (simp add: ready_def)

lemma attempt_ended: "(\<And>r. ub_receipt body = Some r \<Longrightarrow> attempt env r w) \<Longrightarrow> upload_inv env w \<Longrightarrow> \<not> ub_effectCommitted body \<Longrightarrow> ended env body w"
  by (simp add: ended_def)

lemma admitted_ended: "admitted env (ub_receipt body) w \<Longrightarrow> \<not> ub_effectCommitted body \<Longrightarrow> ended env body w"
  by (simp add: ended_def admitted_def)

lemma completed_logged:
  assumes "completed env r w"
  shows "receipt_true env w r \<and> r \<in> set (w_receipts w)"
  using assms upload_invD(6) [of env w] receiptName_pending(1) [of env "rr_ID r"]
  unfolding completed_def logged_def by blast

lemma attempt_completing:
  "attempt env r w \<Longrightarrow> completing env (receipt_completed env r ''rejected'' status) w"
  by (simp add: attempt_def completing_def receipt_true_def)


lemma own_pending_same:
  "rr_ID r' = rr_ID r \<Longrightarrow> rr_Fingerprint r' = rr_Fingerprint r \<Longrightarrow> own_pending r w \<Longrightarrow> own_pending r' w"
  unfolding own_pending_def by (simp only:)

lemma own_pending_frame [simp]:
  "own_pending r (w\<lparr>w_files := F\<rparr>) = own_pending r w" "own_pending r (w\<lparr>w_nextid := N\<rparr>) = own_pending r w"
  "own_pending r (w\<lparr>w_renames := R\<rparr>) = own_pending r w" "own_pending r (w\<lparr>w_unsynced := U\<rparr>) = own_pending r w"
  by (simp_all add: own_pending_def)

lemma own_pending_written [simp]: "own_pending r (journal_written pendingReceipt r w)"
  by (simp add: own_pending_def)


section \<open>Interference and removal\<close>

lemma steady_attempt: "steady (upload_inv env) (attempt env r)"
  unfolding attempt_def by (rule steady_with [OF steady_inv]) (auto dest!: drift_eqs)

lemma steady_admitted: "steady (upload_inv env) (admitted env ro)"
  using steady_attempt upload_inv_drift unfolding admitted_def unprepared_def steady_def
  by (auto dest: drift_eqs)

lemma only_file_drift:
  assumes "drift w w'" "upload_inv env w" "privateUploadPath p" "only_file p i d w"
  shows "only_file p i d w'"
proof -
  have p: "w_files w p = Some \<lparr>fi_id = i, fi_data = d\<rparr>" and only: "\<And>q f. w_files w q = Some f \<Longrightarrow> fi_id f = i \<Longrightarrow> q = p"
    using assms(4) unfolding only_file_def by blast+
  have "i < w_nextid w" using upload_invD(5) [OF assms(2) p] by simp
  have "q = p" if "w_files w' q = Some f'" "fi_id f' = i" for q f'
    using assms(1) that(1)
  proof (cases rule: drift_origin)
    case fresh
    with \<open>i < w_nextid w\<close> that(2) show ?thesis by simp
  next
    case (old q' f)
    have "q' = p" using only old that(2) by metis
    with old(3) assms(3) show ?thesis by blast
  qed
  moreover have "w_files w' p = Some \<lparr>fi_id = i, fi_data = d\<rparr>" using p driftD(5) [OF assms(1,3)] by simp
  ultimately show ?thesis unfolding only_file_def by blast
qed

lemma steady_staged: "steady (upload_inv env) (staged env ro st d)"
  using steady_admitted [of env ro] only_file_drift unfolding staged_def staged_names_def steady_def by blast

lemma steady_ready: "steady (upload_inv env) (ready env r st d)"
proof -
  have "ready env r st d w'" if "drift w w'" "ready env r st d w" for w w'
  proof -
    have "attempt env r w'" using that steady_attempt [of env r] unfolding ready_def steady_def by blast
    moreover have "only_file (au_temporary st) (au_file st) d w'"
      using that only_file_drift [OF that(1)] attempt_inv unfolding ready_def staged_names_def by blast
    ultimately show ?thesis using that(2) driftD(1) [OF that(1)] by (simp add: ready_def)
  qed
  then show ?thesis unfolding steady_def using ready_attempt attempt_inv by blast
qed

lemma attempt_remove: "attempt env r w \<Longrightarrow> attempt env r (w\<lparr>w_files := (w_files w)(p := None)\<rparr>)"
  by (simp add: attempt_def inv_remove)

lemma admitted_remove: "admitted env ro w \<Longrightarrow> admitted env ro (w\<lparr>w_files := (w_files w)(p := None)\<rparr>)"
  by (simp add: admitted_def attempt_remove inv_remove unprepared_def)

lemmas spec_discard_attempt = spec_discard [OF steady_attempt attempt_remove]
  and spec_discard_admitted = spec_discard [OF steady_admitted admitted_remove]


section \<open>The pending record\<close>

lemma inv_write_pending:
  assumes "upload_inv env w" "own_pending r w" "rr_ID r \<notin> renamed_ids w" "pending_ok env w r"
  shows "upload_inv env (journal_written pendingReceipt r w)"
proof -
  let ?w = "journal_written pendingReceipt r w"
  have "pending_ok env ?w r" using assms(4) unfolding pending_ok_def by simp
  moreover have "journal w (receiptName env i) \<noteq> None" if "i \<in> renamed_ids w" for i
    using upload_invD(2) [OF assms(1) that] assms(2,3) that by (auto simp: own_pending_def)
  ultimately show ?thesis
    using upload_invD [OF assms(1)] by (intro upload_invI) (auto simp: logged_pending split: if_splits)
qed

lemma attempt_same:
  assumes "attempt env r w" "rr_ID r' = rr_ID r" "rr_Fingerprint r' = rr_Fingerprint r" "record_ok env r'"
  shows "attempt env r' w"
  using assms(1,4) own_pending_same [OF assms(2,3), of w] unfolding attempt_def by (simp add: assms(2))

lemma attempt_write_pending:
  assumes "attempt env r w" "rr_ID r' = rr_ID r" "rr_Fingerprint r' = rr_Fingerprint r" "record_ok env r'"
    and "rr_State r' = ''receiving'' \<or> rr_State r' = ''prepared'' \<and> rr_Temporary r' \<noteq> [] \<and> staged_ok env w r'"
  shows "attempt env r' (journal_written pendingReceipt r' w)"
proof -
  have same: "attempt env r' w" using assms(1-4) by (rule attempt_same)
  then have "pending_ok env w r'" using assms(5) by (auto simp: attempt_def pending_ok_def)
  with same have "upload_inv env (journal_written pendingReceipt r' w)"
    by (intro inv_write_pending) (simp_all add: attempt_def)
  with same show ?thesis by (simp add: attempt_def)
qed

lemma admitted_same:
  assumes "admitted env (Some r) w" "rr_ID r' = rr_ID r" "rr_Fingerprint r' = rr_Fingerprint r" "record_ok env r'"
    and "rr_State r' = ''receiving''"
  shows "admitted env (Some r') w"
  using assms attempt_same [OF _ assms(2-4)] by (simp add: admitted_def)

lemma admitted_written:
  assumes "admitted env (Some r) w" "rr_ID r' = rr_ID r" "rr_Fingerprint r' = rr_Fingerprint r" "record_ok env r'"
    and "rr_State r' = ''receiving''"
  shows "admitted env (Some r') (journal_written pendingReceipt r' w)"
  using assms(5) attempt_write_pending [OF admitted_attempt [OF assms(1)] assms(2-4)]
  by (simp add: admitted_def attempt_def unprepared_def)

lemma only_file_journal [simp]: "only_file p i d (journal_written n r w) = only_file p i d w"
  by (simp add: only_file_def)

lemma spec_write_admitted:
  assumes "rr_ID r' = rr_ID r" "rr_Fingerprint r' = rr_Fingerprint r" "record_ok env r'" "rr_State r' = ''receiving''"
  shows "spec (upload_inv env) (admitted env (Some r)) (writeReceiptFile pendingReceipt r') (\<lambda>x w. admitted env (Some r') w)"
  using up.spec_write [OF steady_admitted steady_admitted admitted_written [OF _ assms]]
  by (rule up.spec_conseq) (auto intro: admitted_same [OF _ assms] split: if_splits)

lemma spec_write_staged:
  assumes "rr_ID r' = rr_ID r" "rr_Fingerprint r' = rr_Fingerprint r" "record_ok env r'" "rr_State r' = ''receiving''"
  shows "spec (upload_inv env) (staged env (Some r) st d) (writeReceiptFile pendingReceipt r') (\<lambda>x w. staged env (Some r') st d w)"
proof -
  have "staged env (Some r') st d (journal_written pendingReceipt r' w)" if "staged env (Some r) st d w" for w
    using that admitted_written [OF _ assms] by (simp add: staged_def)
  from up.spec_write [OF steady_staged steady_staged this] show ?thesis
    by (rule up.spec_conseq) (auto simp: staged_def intro: admitted_same [OF _ assms] split: if_splits)
qed

lemma ready_written:
  assumes "staged env (Some r) st d w" "rr_ID r' = rr_ID r" "rr_Fingerprint r' = rr_Fingerprint r" "rr_State r' = ''prepared''"
    and "rr_Target r' = au_target st" "rr_Temporary r' = au_temporary st" "rr_FileIdentity r' = Some (au_file st)"
    and "hex_encode (ue_sha256 env d) = rr_SHA256 r'"
  shows "record_ok env r' \<and> ready env r' st d (journal_written pendingReceipt r' w)"
proof -
  have a: "attempt env r w" and n: "staged_names st" and f: "only_file (au_temporary st) (au_file st) d w"
    using assms(1) by (auto simp: staged_def admitted_def)
  have ok: "record_ok env r'" using a n assms(2,3,6) by (simp add: attempt_def record_ok_def staged_names_def)
  have at: "w_files w (au_temporary st) = Some \<lparr>fi_id = au_file st, fi_data = d\<rparr>"
    and only: "\<And>q g. w_files w q = Some g \<Longrightarrow> fi_id g = au_file st \<Longrightarrow> q = au_temporary st"
    using f unfolding only_file_def by blast+
  have "au_file st < w_nextid w" using upload_invD(5) [OF attempt_inv [OF a] at] by simp
  then have "staged_ok env w r'"
    using n a only assms(2) unfolding staged_ok_def staged_names_def attempt_def assms(6,7) by auto
  then have "attempt env r' (journal_written pendingReceipt r' w)"
    using n assms(4,6) by (intro attempt_write_pending [OF a assms(2,3) ok]) (auto simp: staged_names_def)
  with n f assms(4-8) ok show ?thesis by (simp add: ready_def)
qed


section \<open>Admission and staging\<close>

definition target_ok :: "string \<Rightarrow> bool" where
  "target_ok t \<longleftrightarrow> (\<exists>ts. list_all normal ts \<and> t = rel_path ts) \<and> \<not> privateUploadPath t"

lemma resolve_target_ok:
  assumes "env_ok env" "resolve (ue_glob env) links (ue_local env) name parent = Inr t"
  shows "target_ok t"
proof -
  obtain bs where "list_all normal bs" "lo_path (ue_local env) = abs_path bs" using assms(1) by (auto simp: env_ok_def)
  from resolve_visible [OF this(2,1) assms(2)] obtain ts where ts: "visible (ue_local env) ts" "t = rel_path ts" by blast
  then show ?thesis using visible_not_private [OF ts(1)] visible_normal [OF ts(1)] by (auto simp: target_ok_def)
qed

lemma spec_resolve:
  assumes "env_ok env" "steady (upload_inv env) P"
  shows "spec (upload_inv env) P (resolve_target env name) (\<lambda>x w. P w \<and> (\<forall>t. x = Inr t \<longrightarrow> target_ok t))"
  unfolding resolve_target_def
  by (rule up.spec_read [OF assms(2)])
     (auto split: sum.splits if_splits intro: resolve_target_ok [OF assms(1)])

lemma spec_begin:
  assumes "env_ok env"
  shows "spec (upload_inv env) (admitted env (Some r)) (beginReceipt env r)
    (\<lambda>x w. upload_inv env w \<and> (\<forall>r'. x = Inr r' \<longrightarrow> admitted env (Some r') w \<and> rr_SHA256 r' = rr_SHA256 r))"
    (is "spec _ _ _ ?post")
  unfolding beginReceipt_def Let_def
proof (rule up.spec_try [OF spec_resolve [OF assms steady_admitted]])
  fix t
  let ?A = "admitted env (Some r)" and ?r = "r\<lparr>rr_Target := t\<rparr>"
  have check: "spec (upload_inv env) ?A (io_try sys_check k) ?post"
    if "\<And>u. spec (upload_inv env) ?A (k u) ?post" for k :: "unit \<Rightarrow> (fs_error + receiptRecord) io"
    by (rule up.spec_try [OF up.spec_check [OF steady_admitted]]) (auto simp: admitted_inv that)
  have full: "spec (upload_inv env) ?A (io_return (Inl ErrCapacity)) ?post"
    by (rule up.spec_return) (simp add: admitted_inv)
  have written: "spec (upload_inv env) ?A (io_try (writeReceiptFile pendingReceipt ?r) (\<lambda>_. io_return (Inr ?r))) ?post"
  proof (cases "record_ok env r \<and> rr_State r = ''receiving''")
    case True
    then have "spec (upload_inv env) ?A (writeReceiptFile pendingReceipt ?r) (\<lambda>x w. admitted env (Some ?r) w)"
      by (intro spec_write_admitted) (simp_all add: record_ok_def)
    then show ?thesis by (rule up.spec_try) (auto simp: admitted_inv intro: up.spec_return)
  next
    case False
    then have "\<not> ?A w" for w by (auto simp: admitted_def attempt_def)
    then show ?thesis by (simp add: spec_def)
  qed
  have counted: "spec (upload_inv env) ?A receipt_count (\<lambda>x w. ?A w)"
    unfolding receipt_count_def using steady_admitted by (rule up.spec_syscall) auto
  show "spec (upload_inv env) (\<lambda>w. ?A w \<and> (\<forall>t'. Inr t = Inr t' \<longrightarrow> target_ok t'))
    (io_try sys_check (\<lambda>_. io_try receipt_count (\<lambda>entries. if receiptLimit \<le> entries then io_return (Inl ErrCapacity)
       else io_try sys_check (\<lambda>_. io_try sys_check (\<lambda>_. io_try (writeReceiptFile pendingReceipt ?r) (\<lambda>_. io_return (Inr ?r))))))) ?post"
    by (rule up.spec_conseq [OF check [OF up.spec_try [OF counted]]])
       (auto simp: admitted_inv full intro!: check written)
qed (simp add: admitted_inv)

lemma created:
  assumes "admitted env ro w" "w_files w p = None" "privateUploadPath p" "has_prefix (path_Base p) uploadPrefix" "p \<noteq> []"
    and "\<not> privateUploadPath t"
  shows "staged env ro \<lparr>au_target = t, au_temporary = p, au_file = w_nextid w, au_writeErr = False\<rparr> []
    (w\<lparr>w_files := (w_files w)(p \<mapsto> \<lparr>fi_id = w_nextid w, fi_data = []\<rparr>), w_nextid := w_nextid w + 1\<rparr>)"
proof -
  let ?w = "w\<lparr>w_files := (w_files w)(p \<mapsto> \<lparr>fi_id = w_nextid w, fi_data = []\<rparr>), w_nextid := w_nextid w + 1\<rparr>"
  note inv = admitted_inv [OF assms(1)]
  have old: "fi_id f < w_nextid w" if "w_files w q = Some f" for q f using upload_invD(5) [OF inv that] .
  have "upload_inv env ?w"
    using inv
  proof (rule inv_files)
    show "fi_id f < w_nextid w + 1" if "((w_files w)(p \<mapsto> \<lparr>fi_id = w_nextid w, fi_data = []\<rparr>)) q = Some f" for q f
      using that old [of q f] by (auto split: if_splits)
  qed (use assms(1) in \<open>auto simp: admitted_def unprepared_def\<close>)
  then have "admitted env ro ?w" using assms(1) by (auto simp: admitted_def attempt_def unprepared_def)
  moreover have "only_file p (w_nextid w) [] ?w" using old by (auto simp: only_file_def dest: old)
  ultimately show ?thesis using assms(3-6) by (simp add: staged_def staged_names_def)
qed

text \<open>What \<^verbatim>\<open>OpenFile\<close> leaves: the body with its record, and an empty staged file when it succeeds.\<close>

definition opened :: "upload_env \<Rightarrow> uploadBody \<Rightarrow> uploadBody \<times> (fs_error + atomicUpload) \<Rightarrow> world \<Rightarrow> bool" where
  "opened env body y w \<longleftrightarrow>
     admitted env (ub_receipt (fst y)) w \<and> body_ok (fst y) \<and> ub_data (fst y) = ub_data body
     \<and> (\<forall>st. snd y = Inr st \<longrightarrow> \<not> au_writeErr st \<and> staged env (ub_receipt (fst y)) st [] w)"

lemma spec_create:
  assumes "privateUploadPath p" "has_prefix (path_Base p) uploadPrefix" "p \<noteq> []" "\<not> privateUploadPath t"
  shows "spec (upload_inv env) (admitted env ro) (fs_create p)
    (\<lambda>x. case x of Inl e \<Rightarrow> admitted env ro
       | Inr i \<Rightarrow> staged env ro \<lparr>au_target = t, au_temporary = p, au_file = i, au_writeErr = False\<rparr> [])"
  unfolding fs_create_def using steady_admitted
  by (rule up.spec_syscall) (auto split: if_splits intro: created [OF _ _ assms, simplified])

lemma opened_failed: "admitted env (ub_receipt body) w \<Longrightarrow> body_ok body \<Longrightarrow> opened env body (body, Inl e) w"
  by (simp add: opened_def)

lemma spec_discard_staged:
  assumes "\<And>w. admitted env ro w \<Longrightarrow> Q a w"
  shows "spec (upload_inv env) (staged env ro st d) (discard p a) Q"
  by (rule up.spec_pre [OF spec_discard_admitted [where ro = ro]]) (use assms in \<open>auto simp: staged_def\<close>)

lemma spec_announce:
  assumes "body_ok body" "\<not> au_writeErr st"
  shows "spec (upload_inv env) (staged env (ub_receipt body) st []) (announce_upload body st) (opened env body)"
proof (cases "ub_receipt body")
  case None
  then show ?thesis using assms by (auto intro!: up.spec_return simp: announce_upload_def opened_def staged_admitted)
next
  case (Some r)
  let ?r = "r\<lparr>rr_Temporary := au_temporary st\<rparr>"
  let ?body = "body\<lparr>ub_receipt := Some ?r\<rparr>"
  have body: "body_ok ?body" "body_ok (?body\<lparr>ub_status := 503\<rparr>)" using assms(1) Some by (auto simp: body_ok_def)
  have written: "spec (upload_inv env) (staged env (Some r) st []) (writeReceiptFile pendingReceipt ?r) (\<lambda>_. staged env (Some ?r) st [])"
  proof (rule up.spec_assume)
    show "record_ok env r \<and> rr_State r = ''receiving'' \<and> staged_names st" if "staged env (Some r) st [] w" for w
      using that by (auto simp: staged_def admitted_def attempt_def)
  qed (auto simp: record_ok_def staged_names_def intro!: spec_write_staged)
  have "spec (upload_inv env) (staged env (Some ?r) st []) (discard (au_temporary st) (?body\<lparr>ub_status := 503\<rparr>, Inl e)) (opened env body)" for e
    by (rule spec_discard_staged) (use body in \<open>simp add: opened_def\<close>)
  moreover have "spec (upload_inv env) (staged env (Some ?r) st []) (io_return (?body, Inr st)) (opened env body)"
    by (rule up.spec_return) (use body assms(2) in \<open>simp add: opened_def staged_admitted\<close>)
  ultimately show ?thesis
    unfolding announce_upload_def Some option.case Let_def by (intro up.spec_case [OF written])
qed

lemma spec_stage:
  assumes "target_ok target" "CHR ''/'' \<notin> set (rq_random rq)" "body_ok body"
  shows "spec (upload_inv env) (admitted env (ub_receipt body)) (stage_upload env rq body target replaces) (opened env body)"
proof -
  obtain ts where ts: "list_all normal ts" "target = rel_path ts" "\<not> privateUploadPath target"
    using assms(1) by (auto simp: target_ok_def)
  note t = staged_path [OF ts(1) assms(2), folded ts(2)]
  have chmod: "spec (upload_inv env) (staged env ro st []) (if replaces then sys_check else io_return (Inr ())) (\<lambda>_. staged env ro st [])" for ro st
    by (auto intro: up.spec_check [OF steady_staged] up.spec_return)
  have fails: "spec (upload_inv env) (admitted env (ub_receipt body)) (io_return (body, Inl e)) (opened env body)" for e
    by (rule up.spec_return) (rule opened_failed [OF _ assms(3)])
  have discards: "spec (upload_inv env) (staged env (ub_receipt body) st []) (discard p (body, Inl e)) (opened env body)" for st p e
    by (rule spec_discard_staged) (rule opened_failed [OF _ assms(3)])
  show ?thesis
    unfolding stage_upload_def Let_def
    by (rule up.spec_case [OF spec_create [OF t ts(3)]], unfold sum.case, rule fails,
        rule up.spec_case [OF chmod discards spec_announce [OF assms(3)]]) simp
qed

lemma spec_open_resolved:
  assumes "target_ok t" "CHR ''/'' \<notin> set (rq_random rq)" "body_ok body"
  shows "spec (upload_inv env) (admitted env (ub_receipt body)) (open_resolved env rq body t) (opened env body)"
proof -
  let ?A = "admitted env (ub_receipt body)"
  have fails: "spec (upload_inv env) ?A (io_return (body, Inl e)) (opened env body)" for e
    by (rule up.spec_return) (rule opened_failed [OF _ assms(3)])
  have stat: "spec (upload_inv env) ?A (fs_stat t) (\<lambda>_. ?A)"
    by (rule up.spec_conseq [OF spec_stat [OF steady_admitted]]) auto
  show ?thesis
    unfolding open_resolved_def
    by (intro up.spec_case [OF stat] up.spec_case [OF up.spec_check [OF steady_admitted]])
       (simp_all add: fails spec_stage [OF assms])
qed

lemma spec_OpenFile:
  assumes "env_ok env" "CHR ''/'' \<notin> set (rq_random rq)" "body_ok body"
  shows "spec (upload_inv env) (admitted env (ub_receipt body)) (OpenFile_upload env rq body) (opened env body)"
proof -
  let ?A = "admitted env (ub_receipt body)"
  have fails: "spec (upload_inv env) (\<lambda>w. ?A w \<and> P w) (io_return (body, Inl e)) (opened env body)" for P e
    by (rule up.spec_return) (auto intro: opened_failed [OF _ assms(3)])
  have "spec (upload_inv env) (\<lambda>w. ?A w \<and> (\<forall>t'. Inr t = Inr t' \<longrightarrow> target_ok t')) (open_resolved env rq body t) (opened env body)" for t
    by (rule up.spec_assume [where c = "target_ok t"]) (auto intro: up.spec_pre [OF spec_open_resolved [OF _ assms(2,3)]])
  with fails show ?thesis
    unfolding OpenFile_upload_def using fails [where P = "\<lambda>w. True"]
    by (auto intro!: up.spec_case [OF spec_resolve [OF assms(1) steady_admitted]])
qed


section \<open>The body\<close>

lemma staged_append:
  assumes "staged env ro st d w"
  shows "staged env ro st (d @ c) (w\<lparr>w_files := (w_files w)(au_temporary st \<mapsto> \<lparr>fi_id = au_file st, fi_data = d @ c\<rparr>)\<rparr>)"
proof -
  have at: "w_files w (au_temporary st) = Some \<lparr>fi_id = au_file st, fi_data = d\<rparr>"
    using assms by (simp add: staged_def only_file_def)
  have "upload_inv env (w\<lparr>w_files := (w_files w)(au_temporary st \<mapsto> \<lparr>fi_id = au_file st, fi_data = d @ c\<rparr>)\<rparr>)"
    using inv_append [OF admitted_inv [OF staged_admitted [OF assms]] at, of "d @ c"] by simp
  with assms show ?thesis by (auto simp: staged_def admitted_def attempt_def unprepared_def only_file_def)
qed

lemma spec_append:
  "spec (upload_inv env) (staged env ro st d) (fs_append (au_temporary st) c)
    (\<lambda>x. case x of Inl e \<Rightarrow> staged env ro st d | Inr _ \<Rightarrow> staged env ro st (d @ c))"
  unfolding fs_append_def using steady_staged
proof (rule up.spec_syscall)
  fix w x w'
  assume st: "staged env ro st d w"
    and "(case w_files w (au_temporary st) of None \<Rightarrow> (Inl ErrIO, w)
      | Some f \<Rightarrow> (Inr (), w\<lparr>w_files := (w_files w)(au_temporary st \<mapsto> f\<lparr>fi_data := fi_data f @ c\<rparr>)\<rparr>)) = (x, w')"
  moreover have "w_files w (au_temporary st) = Some \<lparr>fi_id = au_file st, fi_data = d\<rparr>"
    using st by (simp add: staged_def only_file_def)
  ultimately have "x = Inr ()" "w' = w\<lparr>w_files := (w_files w)(au_temporary st \<mapsto> \<lparr>fi_id = au_file st, fi_data = d @ c\<rparr>)\<rparr>"
    by auto
  with staged_append [OF st] show "(case x of Inl e \<Rightarrow> staged env ro st d | Inr _ \<Rightarrow> staged env ro st (d @ c)) w'" by simp
qed simp

definition copied :: "upload_env \<Rightarrow> atomicUpload \<Rightarrow> uploadBody \<Rightarrow> bool \<Rightarrow> world \<Rightarrow> bool" where
  "copied env st body writeErr w \<longleftrightarrow>
     admitted env (ub_receipt body) w \<and> (\<not> writeErr \<longrightarrow> staged env (ub_receipt body) st (ub_data body) w)"

lemma steady_copied: "steady (upload_inv env) (copied env st body writeErr)"
  using steady_admitted [of env "ub_receipt body"] steady_staged [of env "ub_receipt body" st "ub_data body"]
  unfolding copied_def steady_def by blast

lemma spec_copy:
  assumes "body_ok body"
  shows "spec (upload_inv env) (staged env (ub_receipt body) st (ub_data body)) (copy_body (au_temporary st) err chunks body)
    (\<lambda>y w. body_ok (fst y) \<and> copied env st (fst y) (snd y) w)"
  using assms
proof (induction chunks arbitrary: body)
  case Nil
  then show ?case
    by (auto intro!: up.spec_return simp: copied_def staged_admitted body_ok_def split: option.split)
next
  case (Cons c chunks)
  let ?body = "body\<lparr>ub_data := ub_data body @ c\<rparr>"
  have body: "body_ok ?body" using Cons.prems by (simp add: body_ok_def)
  have "spec (upload_inv env) (staged env (ub_receipt body) st (ub_data body)) (io_return (?body, True))
      (\<lambda>y w. body_ok (fst y) \<and> copied env st (fst y) (snd y) w)"
    by (rule up.spec_return) (use body in \<open>simp add: copied_def staged_admitted\<close>)
  with Cons.IH [OF body] show ?case
    unfolding copy_body.simps Let_def by (intro up.spec_case [OF spec_append]) simp_all
qed


section \<open>The commit\<close>

lemma renamed_as_new:
  "renamed_as env (w\<lparr>w_files := F, w_renames := rn # w_renames w\<rparr>) r \<longleftrightarrow>
    rn_id rn = rr_ID r \<and> rn_target rn = rr_Target r \<and> hex_encode (ue_sha256 env (rn_data rn)) = rr_SHA256 r \<or> renamed_as env w r"
  by (auto simp: renamed_as_def)

lemma renamed_ids_new:
  "renamed_ids (w\<lparr>w_files := F, w_renames := rn # w_renames w\<rparr>) = insert (rn_id rn) (renamed_ids w)"
  by (simp add: renamed_ids_def)

text \<open>The rename of a prepared upload: its record now speaks of a replaced target.\<close>

lemma receipt_true_new:
  assumes "receipt_true env w t" "rr_ID t \<noteq> rn_id rn"
  shows "receipt_true env (w\<lparr>w_files := F, w_renames := rn # w_renames w, w_unsynced := rn_id rn # w_unsynced w\<rparr>) t"
  using assms by (auto simp: receipt_true_def renamed_as_new renamed_ids_new)

lemma renamed_resuming:
  fixes st :: atomicUpload
  assumes "ready env r st d w"
  defines "w' \<equiv> w\<lparr>w_files := (w_files w)(au_temporary st := None, au_target st \<mapsto> \<lparr>fi_id = au_file st, fi_data = d\<rparr>),
    w_renames := \<lparr>rn_id = rr_ID r, rn_target = au_target st, rn_file = au_file st, rn_data = d\<rparr> # w_renames w,
    w_unsynced := rr_ID r # w_unsynced w\<rparr>"
  shows "resuming env r w' \<and> renamed_as env w' r"
proof -
  have a: "attempt env r w" and n: "staged_names st" and f: "only_file (au_temporary st) (au_file st) d w"
    and j: "journal w pendingReceipt = Some r" and r: "rr_State r = ''prepared''" "rr_Target r = au_target st"
    "rr_Temporary r = au_temporary st" "rr_FileIdentity r = Some (au_file st)" "hex_encode (ue_sha256 env d) = rr_SHA256 r"
    using assms(1) by (auto simp: ready_def)
  note inv = attempt_inv [OF a]
  have at: "w_files w (au_temporary st) = Some \<lparr>fi_id = au_file st, fi_data = d\<rparr>" using f by (simp add: only_file_def)
  have as: "renamed_as env w' r" using r by (simp add: w'_def renamed_as_new)
  have ids: "renamed_ids w' = insert (rr_ID r) (renamed_ids w)" by (simp add: w'_def renamed_ids_new)
  have j': "w_journal w' = w_journal w" "w_nextid w' = w_nextid w" by (simp_all add: w'_def)
  have new: "rr_ID r \<notin> renamed_ids w" using a by (simp add: attempt_def)
  have bound: "fi_id g < w_nextid w" if "w_files w' p = Some g" for p g
    using that upload_invD(5) [OF inv, of p g] upload_invD(5) [OF inv at] by (auto simp: w'_def split: if_splits)
  have "au_temporary st \<noteq> au_target st" using n by (auto simp: staged_names_def)
  then have "staged_ok env w' r"
    using n upload_invD(5) [OF inv at] as ids r(3,4) unfolding staged_ok_def staged_names_def by (simp add: w'_def)
  moreover have "pending_ok env w r" using upload_invD(4) [OF inv j] .
  ultimately have pend: "pending_ok env w' r" using r(1) unfolding pending_ok_def j' by auto
  have stored: "stored_at env m t \<and> receipt_true env w' t \<and> record_ok env t"
    if "journal w m = Some t" "m \<noteq> pendingReceipt" for m t
  proof -
    have "rr_ID t \<noteq> rr_ID r"
      using upload_invD(3) [OF inv that] a that(1) unfolding stored_at_def attempt_def by auto
    then show ?thesis
      using upload_invD(3) [OF inv that] receipt_true_new [of env w t "\<lparr>rn_id = rr_ID r, rn_target = au_target st, rn_file = au_file st, rn_data = d\<rparr>"]
      by (simp add: w'_def)
  qed
  have "upload_inv env w'"
  proof (rule upload_invI)
    show "distinct (map rn_id (w_renames w'))"
      using upload_invD(1) [OF inv] new by (auto simp: w'_def renamed_ids_def)
    show "journal w' (receiptName env i) \<noteq> None \<or> (\<exists>r. journal w' pendingReceipt = Some r \<and> rr_ID r = i \<and> rr_State r = ''prepared'')"
      if "i \<in> renamed_ids w'" for i
      using that upload_invD(2) [OF inv, of i] j r(1) unfolding ids j' by auto
  qed (use stored pend j bound upload_invD(6) [OF inv] in \<open>auto simp: j' w'_def\<close>)
  with j as a show ?thesis by (simp add: resuming_def recovering_def attempt_def j')
qed

lemma spec_rename_ready:
  "spec (upload_inv env) (ready env r st d) (fs_rename_upload (Some (rr_ID r)) (au_temporary st) (au_target st))
    (\<lambda>x w. case x of Inl e \<Rightarrow> attempt env r w | Inr _ \<Rightarrow> resuming env r w \<and> renamed_as env w r)"
  unfolding fs_rename_upload_def using steady_ready
proof (rule up.spec_syscall)
  fix w x w'
  assume rd: "ready env r st d w"
    and call: "(case w_files w (au_temporary st) of None \<Rightarrow> (Inl ErrNotExist, w)
      | Some f \<Rightarrow> (Inr (), w\<lparr>w_files := (w_files w)(au_temporary st := None, au_target st \<mapsto> f),
          w_renames := (case Some (rr_ID r) of None \<Rightarrow> w_renames w
             | Some i \<Rightarrow> \<lparr>rn_id = i, rn_target = au_target st, rn_file = fi_id f, rn_data = fi_data f\<rparr> # w_renames w),
          w_unsynced := (case Some (rr_ID r) of None \<Rightarrow> w_unsynced w | Some i \<Rightarrow> i # w_unsynced w)\<rparr>)) = (x, w')"
  have "w_files w (au_temporary st) = Some \<lparr>fi_id = au_file st, fi_data = d\<rparr>"
    using rd by (simp add: ready_def only_file_def)
  with call renamed_resuming [OF rd] show "case x of Inl e \<Rightarrow> attempt env r w' | Inr _ \<Rightarrow> resuming env r w' \<and> renamed_as env w' r"
    by auto
qed (simp add: ready_attempt)

lemma spec_rename_plain:
  "spec (upload_inv env) (staged env None st d) (fs_rename_upload None (au_temporary st) (au_target st)) (\<lambda>_. admitted env None)"
  unfolding fs_rename_upload_def using steady_staged
proof (rule up.spec_syscall)
  fix w x w'
  assume st: "staged env None st d w"
    and call: "(case w_files w (au_temporary st) of None \<Rightarrow> (Inl ErrNotExist, w)
      | Some f \<Rightarrow> (Inr (), w\<lparr>w_files := (w_files w)(au_temporary st := None, au_target st \<mapsto> f),
          w_renames := (case None of None \<Rightarrow> w_renames w
             | Some i \<Rightarrow> \<lparr>rn_id = i, rn_target = au_target st, rn_file = fi_id f, rn_data = fi_data f\<rparr> # w_renames w),
          w_unsynced := (case None of None \<Rightarrow> w_unsynced w | Some i \<Rightarrow> i # w_unsynced w)\<rparr>)) = (x, w')"
  note a = staged_admitted [OF st]
  note inv = admitted_inv [OF a]
  show "admitted env None w'"
  proof (cases "w_files w (au_temporary st)")
    case None
    with call a show ?thesis by simp
  next
    case (Some f)
    let ?F = "(w_files w)(au_temporary st := None, au_target st \<mapsto> f)"
    have "upload_inv env (w\<lparr>w_files := ?F, w_nextid := w_nextid w\<rparr>)"
      using inv
    proof (rule inv_files)
      show "fi_id g < w_nextid w" if "?F p = Some g" for p g
        using that upload_invD(5) [OF inv Some] upload_invD(5) [OF inv, of p g] by (auto split: if_splits)
    qed (use a in \<open>auto simp: admitted_def unprepared_def\<close>)
    moreover have "w' = w\<lparr>w_files := ?F, w_nextid := w_nextid w\<rparr>" using call Some by auto
    ultimately show ?thesis using a by (simp add: admitted_def unprepared_def)
  qed
qed (simp add: staged_admitted)

lemma spec_receipt_committed:
  assumes "ub_effectCommitted body"
  shows "spec (upload_inv env) (\<lambda>w. resuming env r w \<and> renamed_as env w r) (receipt_committed env body r)
    (\<lambda>y. ended env (fst y))"
proof -
  let ?R = "\<lambda>w. resuming env r w \<and> renamed_as env w r"
  have R: "steady (upload_inv env) ?R" by (rule steady_with [OF steady_resuming]) (auto dest!: drift_eqs)
  have uncertain: "ended env (body\<lparr>ub_status := 503\<rparr>) w" if "upload_inv env w" for w
    using that assms by (simp add: ended_def)
  have sync: "spec (upload_inv env) ?R (fs_sync_upload (rr_ID r)) (\<lambda>x w. ?R w \<and> (is_ok x \<longrightarrow> rr_ID r \<notin> set (w_unsynced w)))"
    by (rule spec_sync_upload [OF R]) (auto simp: resuming_sync)
  show ?thesis
    unfolding receipt_committed_def
  proof (rule up.spec_case [OF sync])
    show "spec (upload_inv env) (\<lambda>w. ?R w \<and> (is_ok (Inl e) \<longrightarrow> rr_ID r \<notin> set (w_unsynced w)))
        (io_return (body\<lparr>ub_status := 503\<rparr>, Some e)) (\<lambda>y. ended env (fst y))" for e
      by (rule up.spec_return) (auto intro: uncertain resuming_inv)
    show "spec (upload_inv env) (\<lambda>w. ?R w \<and> (is_ok (Inr u) \<longrightarrow> rr_ID r \<notin> set (w_unsynced w)))
        (io_bind (completeReceipt env r ''committed'' 201) (\<lambda>completed. case completed of
          Inl e \<Rightarrow> io_return (body\<lparr>ub_status := 503\<rparr>, Some e)
        | Inr record \<Rightarrow> io_return (body\<lparr>ub_receipt := Some record\<rparr>, None))) (\<lambda>y. ended env (fst y))" for u :: unit
      by (rule up.spec_pre [OF up.spec_case [OF spec_complete]])
         (auto intro!: up.spec_return uncertain resuming_completing dest: completed_logged simp: ended_def assms)
  qed
qed

lemma spec_commit_receipt:
  assumes "ub_receipt body = Some r" "\<not> ub_effectCommitted body"
  shows "spec (upload_inv env) (ready env r st d) (commit_upload env body st) (\<lambda>y. ended env (fst y))"
proof -
  have "spec (upload_inv env) (attempt env r) (discard (au_temporary st) (body\<lparr>ub_status := 500\<rparr>, Some e)) (\<lambda>y. ended env (fst y))" for e
    by (rule spec_discard_attempt) (use assms in \<open>auto simp: ended_def attempt_def\<close>)
  with assms show ?thesis
    unfolding commit_upload_def Let_def assms(1) option.map
    by (intro up.spec_case [OF spec_rename_ready [where d = d]]) (auto simp: assms(1) intro: spec_receipt_committed)
qed

lemma spec_commit_plain:
  assumes "ub_receipt body = None" "\<not> ub_effectCommitted body"
  shows "spec (upload_inv env) (staged env None st d) (commit_upload env body st) (\<lambda>y. ended env (fst y))"
  unfolding commit_upload_def Let_def using assms
  by (auto intro!: up.spec_case [OF spec_rename_plain] spec_discard_admitted up.spec_return simp: ended_def admitted_inv)

lemma spec_prepare:
  assumes "body_ok body" "\<And>e. ub_expectedHash body = Some e \<Longrightarrow> e = ue_sha256 env d"
    and "\<And>r. ub_receipt body = Some r \<Longrightarrow> rr_FileIdentity r = Some (au_file st)"
  shows "spec (upload_inv env) (staged env (ub_receipt body) st d) (prepare_upload env body st) (\<lambda>y. ended env (fst y))"
proof (cases "ub_receipt body")
  case None
  with assms(1) show ?thesis by (simp add: prepare_upload_def spec_commit_plain body_ok_def)
next
  case (Some r)
  let ?r = "r\<lparr>rr_State := ''prepared'', rr_Target := au_target st, rr_Temporary := au_temporary st\<rparr>"
  let ?body = "body\<lparr>ub_receipt := Some ?r\<rparr>"
  have digest: "hex_encode (ue_sha256 env d) = rr_SHA256 ?r" using assms(1,2) Some by (auto simp: body_ok_def)
  have uncommitted: "\<not> ub_effectCommitted body" using assms(1) by (simp add: body_ok_def)
  have wr: "record_ok env ?r \<and> ready env ?r st d (journal_written pendingReceipt ?r w)" if "staged env (Some r) st d w" for w
    by (rule ready_written [OF that]) (use digest assms(3) [OF Some] in simp_all)
  have same: "attempt env ?r w" if "staged env (Some r) st d w" for w
    using attempt_same [OF admitted_attempt [OF staged_admitted [OF that]], of ?r] wr [OF that] by simp
  have written: "spec (upload_inv env) (staged env (Some r) st d) (writeReceiptFile pendingReceipt ?r)
      (\<lambda>x. case x of Inl e \<Rightarrow> attempt env ?r | Inr _ \<Rightarrow> ready env ?r st d)"
    by (rule up.spec_conseq [OF up.spec_write [OF steady_staged steady_ready wr [THEN conjunct2]]])
       (auto split: sum.splits intro: same ready_attempt)
  have "spec (upload_inv env) (attempt env ?r) (discard (au_temporary st) (?body\<lparr>ub_status := 503\<rparr>, Some e)) (\<lambda>y. ended env (fst y))" for e
    by (rule spec_discard_attempt) (use uncommitted in \<open>auto simp: ended_def attempt_def\<close>)
  moreover have "spec (upload_inv env) (ready env ?r st d) (commit_upload env ?body st) (\<lambda>y. ended env (fst y))"
    by (rule spec_commit_receipt) (use uncommitted in simp_all)
  ultimately show ?thesis
    unfolding prepare_upload_def Some option.case Let_def by (intro up.spec_case [OF written]) simp_all
qed

lemma ended_discard:
  assumes "body_ok body"
  shows "spec (upload_inv env) (admitted env (ub_receipt body)) (discard p (body\<lparr>ub_status := status\<rparr>, x)) (\<lambda>y. ended env (fst y))"
  by (rule spec_discard_admitted) (use assms in \<open>auto simp: ended_def admitted_def body_ok_def\<close>)

lemma staged_identity:
  assumes "staged env ro st d w"
  shows "staged env (map_option (\<lambda>r. r\<lparr>rr_FileIdentity := i\<rparr>) ro) st d w"
proof (cases ro)
  case (Some r)
  then have "admitted env (Some r) w" using assms by (simp add: staged_def)
  then have "admitted env (Some (r\<lparr>rr_FileIdentity := i\<rparr>)) w"
    by (rule admitted_same) (use \<open>admitted env (Some r) w\<close> in \<open>auto simp: admitted_def attempt_def record_ok_def\<close>)
  with assms Some show ?thesis by (simp add: staged_def)
qed (use assms in simp)

lemma spec_finish:
  assumes "body_ok body" "\<And>e. ub_expectedHash body = Some e \<Longrightarrow> e = ue_sha256 env d"
  shows "spec (upload_inv env) (staged env (ub_receipt body) st d) (finish_upload env body st) (\<lambda>y. ended env (fst y))"
proof -
  let ?S = "staged env (ub_receipt body) st d"
  let ?body = "body\<lparr>ub_receipt := map_option (\<lambda>r. r\<lparr>rr_FileIdentity := Some (au_file st)\<rparr>) (ub_receipt body)\<rparr>"
  have body: "body_ok ?body" using assms(1) by (auto simp: body_ok_def)
  have check: "spec (upload_inv env) ?S sys_check (\<lambda>_. ?S)" by (rule up.spec_check [OF steady_staged])
  have check': "spec (upload_inv env) ?S (if ub_receipt body = None then io_return (Inr ()) else sys_check) (\<lambda>_. ?S)"
    using check by (auto intro: up.spec_return)
  have fail: "spec (upload_inv env) ?S (discard p (body\<lparr>ub_status := status\<rparr>, x)) (\<lambda>y. ended env (fst y))" for p status and x :: "fs_error option"
    by (rule up.spec_pre [OF ended_discard [OF assms(1)]]) (simp add: staged_admitted)
  have fail': "spec (upload_inv env) ?S (discard p (?body\<lparr>ub_status := status\<rparr>, x)) (\<lambda>y. ended env (fst y))" for p status and x :: "fs_error option"
    by (rule up.spec_pre [OF ended_discard [OF body]]) (use staged_admitted [OF staged_identity] in simp)
  have "spec (upload_inv env) ?S (prepare_upload env ?body st) (\<lambda>y. ended env (fst y))"
    by (rule up.spec_pre [OF spec_prepare [OF body]]) (use assms(2) staged_identity in auto)
  then show ?thesis
    unfolding finish_upload_def Let_def
    by (intro up.spec_case [OF check fail] up.spec_case [OF check' fail] up.spec_case [OF check fail'])
qed

lemma spec_Close:
  assumes "body_ok body"
  shows "spec (upload_inv env) (copied env st body (au_writeErr st)) (Close_upload env cancelled body st) (\<lambda>y. ended env (fst y))"
proof -
  have fail: "spec (upload_inv env) (copied env st body (au_writeErr st)) (discard p (body\<lparr>ub_status := status\<rparr>, x)) (\<lambda>y. ended env (fst y))" for p status and x :: "fs_error option"
    by (rule up.spec_pre [OF ended_discard [OF assms]]) (simp add: copied_def)
  have "spec (upload_inv env) (copied env st body (au_writeErr st)) (finish_upload env body st) (\<lambda>y. ended env (fst y))"
    if "\<not> au_writeErr st" "validate_body env cancelled body = None"
    by (rule up.spec_pre [OF spec_finish [OF assms]])
       (use that in \<open>auto simp: copied_def validate_body_def split: if_splits option.splits\<close>)
  with fail show ?thesis
    unfolding Close_upload_def Let_def by (auto split: option.split)
qed


section \<open>Requests\<close>

text \<open>An answer that carries a receipt tells the truth.\<close>

definition answered :: "upload_env \<Rightarrow> put_response \<Rightarrow> world \<Rightarrow> bool" where
  "answered env a w \<longleftrightarrow>
     upload_inv env w \<and> (\<forall>r. a = PutReceipt r \<longrightarrow> receipt_true env w r \<and> r \<in> set (w_receipts w))"

lemma spec_put_staged:
  assumes "body_ok body" "ub_data body = []"
  shows "spec (upload_inv env) (staged env (ub_receipt body) st []) (put_staged env dv rq body st) (\<lambda>y. ended env (fst y))"
  unfolding put_staged_def
proof (rule up.spec_bind)
  show "spec (upload_inv env) (staged env (ub_receipt body) st [])
      (copy_body (au_temporary st) (rq_body_error rq) (rq_chunks rq) body) (\<lambda>y w. body_ok (fst y) \<and> copied env st (fst y) (snd y) w)"
    using spec_copy [OF assms(1), of env st] assms(2) by simp
  fix y :: "uploadBody \<times> bool"
  obtain b e where y: "y = (b, e)" by (cases y)
  have "copied env (st\<lparr>au_writeErr := e\<rparr>) b e = copied env st b e"
    by (simp add: copied_def staged_def staged_names_def fun_eq_iff)
  then have "spec (upload_inv env) (copied env st b e) (Close_upload env (rq_cancelled rq) b (st\<lparr>au_writeErr := e\<rparr>)) (\<lambda>y. ended env (fst y))"
    if "body_ok b"
    using spec_Close [OF that, of env "st\<lparr>au_writeErr := e\<rparr>"] by simp
  then have close: "spec (upload_inv env) (copied env st b e)
      (io_bind sys_check (\<lambda>_. io_bind (Close_upload env (rq_cancelled rq) b (st\<lparr>au_writeErr := e\<rparr>)) (\<lambda>(body, closed). io_return (body, dv_status dv closed True))))
      (\<lambda>y. ended env (fst y))" if "body_ok b"
    using that by (intro up.spec_bind [OF up.spec_check [OF steady_copied]] up.spec_bind) (auto intro!: up.spec_return)
  show "spec (upload_inv env) (\<lambda>w. body_ok (fst y) \<and> copied env st (fst y) (snd y) w)
      (case y of (body, writeErr) \<Rightarrow> io_bind sys_check (\<lambda>_.
         io_bind (Close_upload env (rq_cancelled rq) body (st\<lparr>au_writeErr := writeErr\<rparr>)) (\<lambda>(body, closed).
         io_return (body, dv_status dv closed True)))) (\<lambda>y. ended env (fst y))"
    unfolding y prod.case fst_conv snd_conv
    by (rule up.spec_assume [where c = "body_ok b"], blast, rule up.spec_pre [OF close]) blast+
qed

lemma spec_webdav:
  assumes "env_ok env" "CHR ''/'' \<notin> set (rq_random rq)" "body_ok body" "ub_data body = []"
  shows "spec (upload_inv env) (admitted env (ub_receipt body)) (webdav_put env dv rq body) (\<lambda>y. ended env (fst y))"
proof (cases "dv_refuses dv")
  case None
  have "spec (upload_inv env) (opened env body (b, Inr st)) (put_staged env dv rq b st) (\<lambda>y. ended env (fst y))" for b st
    by (rule up.spec_assume [where c = "body_ok b \<and> ub_data b = []"])
       (use assms(4) in \<open>auto simp: opened_def intro: up.spec_pre [OF spec_put_staged]\<close>)
  moreover have "spec (upload_inv env) (opened env body (b, Inl e)) (io_return (b, status)) (\<lambda>y. ended env (fst y))" for b e status
    by (rule up.spec_return) (auto intro!: admitted_ended simp: opened_def body_ok_def)
  ultimately show ?thesis
    unfolding webdav_put_def None option.case
    by (intro up.spec_bind [OF spec_OpenFile [OF assms(1-3)]]) (auto split: prod.split sum.split)
next
  case (Some status)
  with assms(3) show ?thesis
    by (auto intro!: up.spec_return admitted_ended simp: webdav_put_def body_ok_def)
qed

lemma spec_conditions:
  assumes "steady (upload_inv env) P"
  shows "spec (upload_inv env) P (checkConditions env rq) (\<lambda>_. P)"
proof -
  have ret: "spec (upload_inv env) P (io_return x) (\<lambda>_. P)" for x :: "nat option" by (rule up.spec_return)
  have "spec (upload_inv env) P (fs_stat p) (\<lambda>_. P)" for p
    by (rule up.spec_conseq [OF spec_stat [OF assms]]) auto
  then have stat: "spec (upload_inv env) P (if c then fs_stat p else io_return (Inl ErrIO)) (\<lambda>_. P)" for c p
    by (auto intro: up.spec_return)
  have read: "spec (upload_inv env) P (syscall (\<lambda>w. (call w, w))) (\<lambda>_. P)" for call :: "world \<Rightarrow> fs_error + string"
    using assms by (rule up.spec_syscall) auto
  show ?thesis
    unfolding checkConditions_def Let_def
    by (cases "rq_if_match rq = [] \<and> rq_if_none_match rq = []")
       (simp_all only: ret if_True if_False simp_thms up.spec_case [OF read ret up.spec_bind [OF stat ret]])
qed

lemma spec_reject:
  "spec (upload_inv env) (attempt env r) (reject_upload env r status) (answered env)"
  unfolding reject_upload_def
  by (rule up.spec_pre [OF up.spec_case [OF spec_complete [where state = "''rejected''"]]])
     (auto intro!: up.spec_return attempt_completing dest: completed_logged simp: answered_def)

lemma spec_outcome: "spec (upload_inv env) (ended env body) (put_outcome env body status) (answered env)"
proof (cases "ub_receipt body")
  case None
  then show ?thesis by (auto intro!: up.spec_return simp: put_outcome_def Let_def ended_def answered_def)
next
  case (Some r)
  have "spec (upload_inv env) (ended env body) (reject_upload env r n) (answered env)" if "\<not> ub_effectCommitted body" for n
    by (rule up.spec_pre [OF spec_reject]) (use that Some in \<open>auto simp: ended_def\<close>)
  moreover have "spec (upload_inv env) (ended env body) (io_return a) (answered env)" if "a = PutError 503 \<or> ub_effectCommitted body \<and> ub_status body = 0 \<and> a = PutReceipt r" for a
    by (rule up.spec_return) (use that Some in \<open>auto simp: ended_def answered_def\<close>)
  ultimately show ?thesis unfolding put_outcome_def Let_def Some option.case by (simp split: if_split)
qed

lemma spec_admitted:
  assumes "env_ok env" "CHR ''/'' \<notin> set (rq_random rq)" "body_ok body" "ub_data body = []"
  shows "spec (upload_inv env) (admitted env (ub_receipt body)) (serve_admitted env dv rq body) (answered env)"
  unfolding serve_admitted_def
proof (rule up.spec_bind [OF spec_conditions [OF steady_admitted]])
  fix c :: "nat option"
  have "spec (upload_inv env) (admitted env (Some r)) (reject_upload env r n) (answered env)" for r n
    by (rule up.spec_pre [OF spec_reject]) (rule admitted_attempt)
  moreover have "spec (upload_inv env) (admitted env None) (io_return (PutError n)) (answered env)" for n
    by (rule up.spec_return) (simp add: answered_def admitted_inv)
  moreover have "spec (upload_inv env) (admitted env (ub_receipt body))
      (io_bind (webdav_put env dv rq body) (\<lambda>(body, status). put_outcome env body status)) (answered env)"
    by (rule up.spec_bind [OF spec_webdav [OF assms]]) (auto intro: spec_outcome split: prod.split)
  ultimately show "spec (upload_inv env) (admitted env (ub_receipt body))
      (case c of None \<Rightarrow> io_bind (webdav_put env dv rq body) (\<lambda>(body, status). put_outcome env body status)
       | Some status \<Rightarrow> (case ub_receipt body of None \<Rightarrow> io_return (PutError status) | Some receipt \<Rightarrow> reject_upload env receipt status))
      (answered env)"
    by (auto split: option.split)
qed

text \<open>What \<^verbatim>\<open>newReceipt\<close> makes of a request.\<close>

lemma newUploadBody_ok:
  assumes "newUploadBody env rq = Inr body"
  shows "body_ok body \<and> ub_data body = [] \<and> ub_receipt body = None"
  using assms by (auto simp: newUploadBody_def Let_def body_ok_def split: if_splits option.splits)

lemma newReceipt_ok:
  assumes "newReceipt env rq body = Inr (r, body')" "body_ok body" "ub_data body = []"
  shows "record_ok env r \<and> rr_State r = ''receiving'' \<and> ub_data body' = []
    \<and> \<not> ub_effectCommitted body' \<and> (\<exists>e. ub_expectedHash body' = Some e \<and> rr_SHA256 r = hex_encode e)"
  using assms
  by (auto simp: newReceipt_def Let_def record_ok_def body_ok_def rbind_eq_Inr_iff split: if_splits option.splits)

lemma recovered_admitted:
  assumes "recovered env w"
  shows "admitted env None w"
    and "record_ok env r \<Longrightarrow> rr_State r = ''receiving'' \<Longrightarrow> journal w (receiptName env (rr_ID r)) = None \<Longrightarrow> admitted env (Some r) w"
  using assms upload_invD(2) [of env w "rr_ID r"]
  by (auto simp: admitted_def recovered_def unprepared_def attempt_def own_pending_def)

lemma spec_durable:
  assumes "env_ok env" "CHR ''/'' \<notin> set (rq_random rq)" "newReceipt env rq body = Inr (r, body')" "newUploadBody env rq = Inr body"
  shows "spec (upload_inv env) (recovered env) (serve_durable env dv rq r body') (answered env)"
proof -
  have body: "body_ok body" "ub_data body = []" using newUploadBody_ok [OF assms(4)] by simp_all
  note r = newReceipt_ok [OF assms(3) body]
  have prior: "spec (upload_inv env) (recovered env) (readReceiptFile env (receiptName env (rr_ID r)))
      (\<lambda>x w. case x of Inl e \<Rightarrow> upload_inv env w \<and> (e = ErrNotExist \<longrightarrow> admitted env (Some r) w)
         | Inr t \<Rightarrow> answered env (PutReceipt t) w)"
  proof (rule up.spec_conseq [OF spec_readReceipt [OF steady_recovered]])
    fix x w
    assume "recovered env w \<and> (\<forall>t. x = Inr t \<longrightarrow> journal w (receiptName env (rr_ID r)) = Some t) \<and> (x = Inl ErrNotExist \<longrightarrow> journal w (receiptName env (rr_ID r)) = None)"
    then show "case x of Inl e \<Rightarrow> upload_inv env w \<and> (e = ErrNotExist \<longrightarrow> admitted env (Some r) w)
         | Inr t \<Rightarrow> answered env (PutReceipt t) w"
      using recovered_admitted(2) [of env w r] r upload_invD(3) [of env w "receiptName env (rr_ID r)"] upload_invD(6) [of env w]
      by (auto simp: recovered_def answered_def logged_def split: sum.split)
  qed
  have begun: "spec (upload_inv env) (\<lambda>w. upload_inv env w \<and> (\<forall>r'. Inr t = Inr r' \<longrightarrow> admitted env (Some r') w \<and> rr_SHA256 r' = rr_SHA256 r))
      (serve_admitted env dv rq (body'\<lparr>ub_receipt := Some t\<rparr>)) (answered env)" for t
  proof (rule up.spec_assume [where c = "rr_SHA256 t = rr_SHA256 r"])
    assume "rr_SHA256 t = rr_SHA256 r"
    with r have "body_ok (body'\<lparr>ub_receipt := Some t\<rparr>)" by (simp add: body_ok_def)
    from spec_admitted [OF assms(1,2) this] r show ?thesis by (auto intro: up.spec_pre)
  qed simp
  have fails: "spec (upload_inv env) (\<lambda>w. upload_inv env w \<and> P w) (io_return (PutError n)) (answered env)" for P n
    by (rule up.spec_return) (simp add: answered_def)
  have "spec (upload_inv env) (\<lambda>w. upload_inv env w \<and> admitted env (Some r) w) (io_bind (beginReceipt env r) (\<lambda>begun. case begun of
      Inl e \<Rightarrow> io_return (PutError (journalError e))
    | Inr receipt \<Rightarrow> serve_admitted env dv rq (body'\<lparr>ub_receipt := Some receipt\<rparr>))) (answered env)"
    by (rule up.spec_pre [OF up.spec_case [OF spec_begin [OF assms(1)] fails begun]]) simp
  then show ?thesis
    unfolding serve_durable_def
    by (intro up.spec_case [OF prior])
       (auto intro!: up.spec_return fails simp: answered_def split: sum.split)
qed

lemma spec_mutation:
  assumes "env_ok env" "CHR ''/'' \<notin> set (rq_random rq)"
  shows "spec (upload_inv env) (upload_inv env) (serveMutation env dv rq) (answered env)"
proof -
  have fails: "spec (upload_inv env) (\<lambda>w. upload_inv env w \<and> P w) (io_return (PutError n)) (answered env)" for P n
    by (rule up.spec_return) (simp add: answered_def)
  note fails' = fails [where P = "\<lambda>_. True", simplified]
  have bad: "spec (upload_inv env) (recovered env) (io_return (PutError n)) (answered env)" for n
    by (rule up.spec_return) (simp add: answered_def recovered_def)
  have plain: "spec (upload_inv env) (recovered env) (serve_admitted env dv rq body) (answered env)" if "newUploadBody env rq = Inr body" for body
  proof -
    have "body_ok body" "ub_data body = []" "ub_receipt body = None" using newUploadBody_ok [OF that] by simp_all
    from up.spec_pre [OF spec_admitted [OF assms this(1,2)]] this(3) recovered_admitted(1) show ?thesis by simp
  qed
  have "spec (upload_inv env) (recovered env)
      (case newUploadBody env rq of
          Inl e \<Rightarrow> io_return (PutError 400)
        | Inr body \<Rightarrow>
            if rq_upload_id rq = [] then serve_admitted env dv rq body
            else (case newReceipt env rq body of
              Inl e \<Rightarrow> io_return (PutError 400)
            | Inr (receipt, body) \<Rightarrow> serve_durable env dv rq receipt body)) (answered env)"
    using bad plain spec_durable [OF assms] by (auto split: sum.split)
  then have served: "spec (upload_inv env) (\<lambda>w. upload_inv env w \<and> (is_ok (Inr u) \<longrightarrow> recovered env w))
      (case newUploadBody env rq of
          Inl e \<Rightarrow> io_return (PutError 400)
        | Inr body \<Rightarrow>
            if rq_upload_id rq = [] then serve_admitted env dv rq body
            else (case newReceipt env rq body of
              Inl e \<Rightarrow> io_return (PutError 400)
            | Inr (receipt, body) \<Rightarrow> serve_durable env dv rq receipt body)) (answered env)" for u :: unit
    by (rule up.spec_pre) simp
  have "spec (upload_inv env) (upload_inv env) (io_bind sys_check (\<lambda>lock. case lock of
         Inl e \<Rightarrow> io_return (PutError (if rq_cancelled rq then 408 else 503))
       | Inr _ \<Rightarrow>
       io_bind (recoverReceipt env) (\<lambda>recovered. case recovered of
         Inl e \<Rightarrow> io_return (PutError 503)
       | Inr _ \<Rightarrow>
       (case newUploadBody env rq of
          Inl e \<Rightarrow> io_return (PutError 400)
        | Inr body \<Rightarrow>
            if rq_upload_id rq = [] then serve_admitted env dv rq body
            else (case newReceipt env rq body of
              Inl e \<Rightarrow> io_return (PutError 400)
            | Inr (receipt, body) \<Rightarrow> serve_durable env dv rq receipt body))))) (answered env)"
    by (rule up.spec_case [OF up.spec_check [OF steady_inv] fails' up.spec_case [OF spec_recover fails served]])
  with fails' show ?thesis unfolding serveMutation_def by simp
qed

text \<open>A lookup may also find the record of an attempt that is under way.\<close>

definition looked_up :: "upload_env \<Rightarrow> put_response \<Rightarrow> world \<Rightarrow> bool" where
  "looked_up env a w \<longleftrightarrow>
     upload_inv env w
     \<and> (\<forall>r. a = PutReceipt r \<longrightarrow> rr_State r \<in> {''receiving'', ''prepared''} \<or> receipt_true env w r \<and> r \<in> set (w_receipts w))"

lemma spec_receipt_of:
  "spec (upload_inv env) (upload_inv env) (receipt_of env i) (\<lambda>x w. upload_inv env w \<and> (\<forall>r. x = Inr r \<longrightarrow> looked_up env (PutReceipt r) w))"
    (is "spec _ _ _ ?post")
proof -
  have receipt: "spec (upload_inv env) (upload_inv env) (readReceiptFile env (receiptName env i)) ?post"
  proof (rule up.spec_conseq [OF spec_readReceipt [OF steady_inv]])
    fix x w
    assume "upload_inv env w \<and> (\<forall>t. x = Inr t \<longrightarrow> journal w (receiptName env i) = Some t) \<and> (x = Inl ErrNotExist \<longrightarrow> journal w (receiptName env i) = None)"
    then show "?post x w"
      using upload_invD(3) [of env w "receiptName env i"] upload_invD(6) [of env w] by (auto simp: looked_up_def logged_def)
  qed simp
  have pending: "spec (upload_inv env) (upload_inv env) (readReceiptFile env pendingReceipt) ?post"
    by (rule up.spec_conseq [OF spec_readReceipt [OF steady_inv]])
       (auto simp: looked_up_def dest: upload_invD(4) simp: pending_ok_def)
  have again: "spec (upload_inv env) (?post x)
      (let p = (case x of Inr record \<Rightarrow> if rr_ID record \<noteq> i then Inl ErrNotExist else x | Inl e \<Rightarrow> x) in
       if p \<noteq> Inl ErrNotExist then io_return p else readReceiptFile env (receiptName env i)) ?post" for x
    using up.spec_pre [OF receipt, of "?post x"] by (cases x) (auto intro!: up.spec_return simp: Let_def)
  show ?thesis
    unfolding receipt_of_def
  proof (rule up.spec_bind [OF receipt])
    fix x :: "fs_error + receiptRecord"
    have "spec (upload_inv env) (?post x) (io_bind (readReceiptFile env pendingReceipt) (\<lambda>p.
        let p = (case p of Inr record \<Rightarrow> if rr_ID record \<noteq> i then Inl ErrNotExist else p | Inl e \<Rightarrow> p) in
        if p \<noteq> Inl ErrNotExist then io_return p else readReceiptFile env (receiptName env i))) ?post"
      by (rule up.spec_pre [OF up.spec_bind [OF pending again]]) simp
    then show "spec (upload_inv env) (?post x)
      (if x \<noteq> Inl ErrNotExist then io_return x
       else io_bind (readReceiptFile env pendingReceipt) (\<lambda>p.
        let p = (case p of Inr record \<Rightarrow> if rr_ID record \<noteq> i then Inl ErrNotExist else p | Inl e \<Rightarrow> p) in
        if p \<noteq> Inl ErrNotExist then io_return p else readReceiptFile env (receiptName env i))) ?post"
      by (intro up.spec_if up.spec_return) assumption
  qed
qed

lemma spec_lookup: "spec (upload_inv env) (upload_inv env) (serveReceipt env free name i) (looked_up env)"
proof -
  have fails: "spec (upload_inv env) (\<lambda>w. upload_inv env w \<and> P w) (io_return (PutError n)) (looked_up env)" for P n
    by (rule up.spec_return) (simp add: looked_up_def)
  note fails' = fails [where P = "\<lambda>_. True", simplified]
  have recover: "spec (upload_inv env) (upload_inv env) (if free then recoverReceipt env else io_return (Inr ())) (\<lambda>_. upload_inv env)"
    using up.spec_conseq [OF spec_recover, of "upload_inv env" env "\<lambda>_. upload_inv env"] by (auto intro: up.spec_return)
  have "spec (upload_inv env) (upload_inv env) (io_bind (receipt_of env i) (\<lambda>r. io_return (case r of
         Inl e \<Rightarrow> PutError (if e = ErrNotExist then 404 else 503)
       | Inr record \<Rightarrow>
           if rr_Path record \<noteq> m \<or> \<not> is_ok (lexical (ue_glob env) (ue_local env) (rr_Path record))
              \<or> \<not> is_ok (lexical (ue_glob env) (ue_local env) (rr_Target record))
           then PutError 404 else PutReceipt record))) (looked_up env)" for m
    by (rule up.spec_bind [OF spec_receipt_of]) (auto intro!: up.spec_return simp: looked_up_def split: sum.split)
  then have found: "spec (upload_inv env) (upload_inv env) (io_bind sys_check (\<lambda>lock. case lock of
      Inl e \<Rightarrow> io_return (PutError 503)
    | Inr _ \<Rightarrow>
        io_bind (if free then recoverReceipt env else io_return (Inr ())) (\<lambda>recovered. case recovered of
          Inl e \<Rightarrow> io_return (PutError 503)
        | Inr _ \<Rightarrow>
            io_bind (receipt_of env i) (\<lambda>r. io_return (case r of
              Inl e \<Rightarrow> PutError (if e = ErrNotExist then 404 else 503)
            | Inr record \<Rightarrow>
                if rr_Path record \<noteq> m \<or> \<not> is_ok (lexical (ue_glob env) (ue_local env) (rr_Path record))
                   \<or> \<not> is_ok (lexical (ue_glob env) (ue_local env) (rr_Target record))
                then PutError 404 else PutReceipt record))))) (looked_up env)" for m
    by (rule up.spec_case [OF up.spec_check [OF steady_inv] fails' up.spec_case [OF recover fails']])
  show ?thesis
    unfolding serveReceipt_def
    by (cases "lexical (ue_glob env) (ue_local env) name")
       (simp_all only: sum.case up.spec_if [OF fails' fails'] up.spec_if [OF fails' found])
qed


section \<open>Receipts are never withdrawn\<close>

named_theorems keeps_rules \<open>operations that keep every receipt\<close>

definition keeps :: "'a io \<Rightarrow> bool" where
  "keeps m \<longleftrightarrow> (\<forall>w. set (w_receipts w) \<subseteq> set (w_receipts (snd (m w))))"

lemma keeps_return [keeps_rules]: "keeps (io_return a)"
  by (simp add: keeps_def io_return_def)

lemma keeps_bind [keeps_rules]: "keeps m \<Longrightarrow> (\<And>a. keeps (f a)) \<Longrightarrow> keeps (io_bind m f)"
  unfolding keeps_def io_bind_def by (fastforce split: prod.splits option.splits)

lemma keeps_try [keeps_rules]: "keeps m \<Longrightarrow> (\<And>a. keeps (f a)) \<Longrightarrow> keeps (io_try m f)"
  unfolding io_try_def by (auto intro!: keeps_bind keeps_return split: sum.split)

lemma keeps_syscall:
  assumes "\<And>w. set (w_receipts w) \<subseteq> set (w_receipts (snd (call w)))"
  shows "keeps (syscall call)"
  unfolding keeps_def
proof
  fix w
  have goes: "set (w_receipts v) \<subseteq> set (w_receipts (snd (case call v of (r, w') \<Rightarrow> (Some r, w'))))" for v
    using assms [of v] by (cases "call v") simp
  show "set (w_receipts w) \<subseteq> set (w_receipts (snd (syscall call w)))"
  proof (cases "w_events w")
    case Nil
    then show ?thesis using goes by (simp add: syscall_def)
  next
    case (Cons ev es)
    obtain cs out where ev: "ev = (cs, out)" by (cases ev)
    have "w_receipts (fold outside_step cs (w\<lparr>w_events := es\<rparr>)) = w_receipts w"
      using driftD(6) [OF drift_fold] by simp
    with goes [of "fold outside_step cs (w\<lparr>w_events := es\<rparr>)"] Cons ev show ?thesis
      by (cases out) (simp_all add: syscall_def Let_def)
  qed
qed

lemma keeps_calls [keeps_rules]:
  "keeps sys_check" "keeps (fs_stat p)" "keeps (fs_create p)" "keeps (fs_append p d)" "keeps (fs_remove p)"
  "keeps (fs_rename_upload u p q)" "keeps (fs_sync_upload i)" "keeps (journal_sync b)" "keeps (journal_rename n r)"
  "keeps (journal_remove n)" "keeps (readReceiptFile env n)" "keeps (resolve_target env n)" "keeps receipt_count"
  unfolding sys_check_def fs_stat_def fs_create_def fs_append_def fs_remove_def fs_rename_upload_def fs_sync_upload_def
    journal_sync_def journal_rename_def journal_remove_def readReceiptFile_def resolve_target_def receipt_count_def
  by (auto intro!: keeps_syscall simp: journal_written_def split: option.splits)

lemma keeps_sum [keeps_rules]:
  "(\<And>e. keeps (f e)) \<Longrightarrow> (\<And>a. keeps (g a)) \<Longrightarrow> keeps (case x of Inl e \<Rightarrow> f e | Inr a \<Rightarrow> g a)"
  by (cases x) simp_all

lemma keeps_option [keeps_rules]:
  "keeps f \<Longrightarrow> (\<And>a. keeps (g a)) \<Longrightarrow> keeps (case x of None \<Rightarrow> f | Some a \<Rightarrow> g a)"
  by (cases x) simp_all

lemma keeps_prod [keeps_rules]: "(\<And>a b. keeps (f a b)) \<Longrightarrow> keeps (case x of (a, b) \<Rightarrow> f a b)"
  by (cases x) simp

lemma keeps_if [keeps_rules]: "keeps f \<Longrightarrow> keeps g \<Longrightarrow> keeps (if c then f else g)"
  by simp

lemma keeps_let [keeps_rules]: "(\<And>x. keeps (f x)) \<Longrightarrow> keeps (let x = e in f x)"
  by (simp add: Let_def)

lemma keeps_recover [keeps_rules]: "keeps (recoverReceipt env)"
  unfolding recoverReceipt_def recover_pending_def recover_attempt_def recovered_outcome_def recovered_target_def
    discard_receiving_def completeReceipt_def writeReceiptFile_def
  by (intro keeps_rules)

lemma keeps_copy [keeps_rules]: "keeps (copy_body p err chunks body)"
  by (induction chunks arbitrary: body) (auto intro!: keeps_rules simp: Let_def split: option.split)

lemma keeps_webdav [keeps_rules]: "keeps (webdav_put env dv rq body)"
  unfolding webdav_put_def put_staged_def OpenFile_upload_def open_resolved_def stage_upload_def announce_upload_def
    Close_upload_def finish_upload_def prepare_upload_def commit_upload_def receipt_committed_def
    completeReceipt_def writeReceiptFile_def discard_def Let_def
  by (intro keeps_rules)

lemma keeps_conditions [keeps_rules]: "keeps (checkConditions env rq)"
  unfolding checkConditions_def Let_def by (intro keeps_rules keeps_syscall) simp

lemma keeps_mutation: "keeps (serveMutation env dv rq)"
  unfolding serveMutation_def serve_durable_def serve_admitted_def put_outcome_def reject_upload_def beginReceipt_def
    completeReceipt_def writeReceiptFile_def Let_def
  by (intro keeps_rules)

lemma keeps_lookup: "keeps (serveReceipt env free name i)"
  unfolding serveReceipt_def receipt_of_def Let_def by (intro keeps_rules)

end
