(* ===== verification/UploadSafe.thy ===== *)
theory UploadSafe
  imports UploadServe
begin

text \<open>
  The promises of durable uploads over whole histories: any number of requests, lookups, changes by
  other programs, failures and restarts. Uploads take effect at most once and are answered
  truthfully, and a recovery without failures completes.
\<close>

section \<open>Histories\<close>

text \<open>
  The answers given so far, and a disk they can lead to. A request that is cut short has no answer;
  the following one finds the disk as it was left, as a restarted server does.
\<close>

inductive upload_run :: "upload_env \<Rightarrow> world \<Rightarrow> put_response list \<Rightarrow> bool" for env where
  start: "w_journal w = [] \<Longrightarrow> w_receipts w = [] \<Longrightarrow> w_renames w = [] \<Longrightarrow> w_unsynced w = [] \<Longrightarrow>
    (\<forall>p f. w_files w p = Some f \<longrightarrow> fi_id f < w_nextid w) \<Longrightarrow> upload_run env w []"
| put: "upload_run env w as \<Longrightarrow> CHR ''/'' \<notin> set (rq_random rq) \<Longrightarrow>
    serveMutation env dv rq (w\<lparr>w_events := es\<rparr>) = (a, w') \<Longrightarrow> upload_run env w' (case a of None \<Rightarrow> as | Some r \<Rightarrow> r # as)"
| lookup: "upload_run env w as \<Longrightarrow>
    serveReceipt env free name i (w\<lparr>w_events := es\<rparr>) = (a, w') \<Longrightarrow> upload_run env w' (case a of None \<Rightarrow> as | Some r \<Rightarrow> r # as)"
| outside: "upload_run env w as \<Longrightarrow> upload_run env (outside_step c w) as"

text \<open>The answers that report how an upload ended.\<close>

definition final_receipts :: "put_response list \<Rightarrow> receiptRecord set" where
  "final_receipts as = {r. PutReceipt r \<in> set as \<and> rr_State r \<notin> {''receiving'', ''prepared''}}"

lemma upload_inv_start:
  assumes "w_journal w = []" "w_receipts w = []" "w_renames w = []" "\<forall>p f. w_files w p = Some f \<longrightarrow> fi_id f < w_nextid w"
  shows "upload_inv env w"
  using assms by (intro upload_invI) (auto simp: renamed_ids_def logged_def)

lemma upload_inv_events: "upload_inv env w \<Longrightarrow> upload_inv env (w\<lparr>w_events := es\<rparr>)"
  by (rule upload_inv_drift [OF drift_events])

lemma spec_run:
  assumes "spec I P m Q" "P w" "m w = (a, w')"
  shows "case a of None \<Rightarrow> I w' | Some x \<Rightarrow> Q x w'"
  using assms by (auto simp: spec_def split: option.splits dest!: spec [of _ w])

lemma keeps_run: "keeps m \<Longrightarrow> m w = (a, w') \<Longrightarrow> set (w_receipts w) \<subseteq> set (w_receipts w')"
  unfolding keeps_def by (metis snd_conv)

definition history_ok :: "upload_env \<Rightarrow> world \<Rightarrow> put_response list \<Rightarrow> bool" where
  "history_ok env w as \<longleftrightarrow> upload_inv env w \<and> final_receipts as \<subseteq> set (w_receipts w)"

lemma final_receipts_simps [simp]:
  "final_receipts [] = {}"
  "final_receipts (a # as) = (case a of PutReceipt r \<Rightarrow> if rr_State r \<in> {''receiving'', ''prepared''} then {} else {r} | _ \<Rightarrow> {}) \<union> final_receipts as"
  by (auto simp: final_receipts_def split: put_response.splits)

lemma history_put:
  assumes "history_ok env w as" "m (w\<lparr>w_events := es\<rparr>) = (a, w')" "keeps m" "spec (upload_inv env) (upload_inv env) m (looked_up env)"
  shows "history_ok env w' (case a of None \<Rightarrow> as | Some r \<Rightarrow> r # as)"
proof -
  have "upload_inv env (w\<lparr>w_events := es\<rparr>)" using assms(1) by (simp add: history_ok_def upload_inv_events)
  from spec_run [OF assms(4) this assms(2)] have a: "case a of None \<Rightarrow> upload_inv env w' | Some x \<Rightarrow> looked_up env x w'" .
  have "final_receipts as \<subseteq> set (w_receipts w')"
    using keeps_run [OF assms(3,2)] assms(1) by (auto simp: history_ok_def)
  with a show ?thesis
    by (cases a) (auto simp: history_ok_def looked_up_def split: put_response.split)
qed

lemma history_ok:
  assumes "env_ok env" "upload_run env w as"
  shows "history_ok env w as"
  using assms(2)
proof induction
  case (start w)
  then show ?case using upload_inv_start [OF start(1-3,5)] by (simp add: history_ok_def)
next
  case (put w as rq dv es a w')
  have "spec (upload_inv env) (upload_inv env) (serveMutation env dv rq) (looked_up env)"
    by (rule up.spec_conseq [OF spec_mutation [OF assms(1) put(2)]]) (auto simp: answered_def looked_up_def)
  with put show ?case by (intro history_put [OF put.IH put(3) keeps_mutation])
next
  case (lookup w as free name i es a w')
  then show ?case by (intro history_put [OF lookup.IH lookup(2) keeps_lookup spec_lookup])
next
  case (outside w as c)
  then show ?case
    using upload_inv_drift [OF drift_outside] driftD(6) [OF drift_outside] by (auto simp: history_ok_def)
qed

text \<open>
  C5. In every history, whatever calls fail and wherever the server is stopped and restarted, each
  upload identifier replaces a file at most once. Every final receipt that was ever answered is still
  the one the journal holds for its identifier, and is true: a committed upload has replaced its
  target by content of the announced digest and this is synchronised, a rejected or interrupted one
  never replaces anything, and only an uncertain one says nothing.
\<close>

theorem upload_exactly_once:
  assumes "env_ok env" "upload_run env w answers"
  shows "distinct (map rn_id (w_renames w))
    \<and> (\<forall>r\<in>final_receipts answers.
          map_of (w_journal w) (receiptName env (rr_ID r)) = Some r \<and> receipt_true env w r)"
proof -
  have inv: "upload_inv env w" and kept: "final_receipts answers \<subseteq> set (w_receipts w)"
    using history_ok [OF assms] by (auto simp: history_ok_def)
  show ?thesis
    using kept upload_invD(1,6) [OF inv] upload_invD(3) [OF inv _ receiptName_pending(1)] unfolding logged_def by blast
qed


section \<open>Recovery completes\<close>

text \<open>Without failures a call does what it says.\<close>

lemma syscall_calm: "w_events w = [] \<Longrightarrow> syscall call w = (Some (fst (call w)), snd (call w))"
  by (simp add: syscall_def split_beta)

definition calmly :: "'a io \<Rightarrow> world \<Rightarrow> 'a \<Rightarrow> world \<Rightarrow> bool" where
  "calmly m w a w' \<longleftrightarrow> m w = (Some a, w') \<and> w_events w' = []"

lemma calmly_return: "w_events w = [] \<Longrightarrow> calmly (io_return a) w a w"
  by (simp add: calmly_def io_return_def)

lemma calmly_bind: "calmly m w a w' \<Longrightarrow> calmly (f a) w' b w'' \<Longrightarrow> calmly (io_bind m f) w b w''"
  by (simp add: calmly_def io_bind_def)

lemma calmly_try: "calmly m w (Inr a) w' \<Longrightarrow> calmly (f a) w' b w'' \<Longrightarrow> calmly (io_try m f) w b w''"
  by (simp add: calmly_def io_try_def io_bind_def)

lemma calmly_syscall: "w_events w = [] \<Longrightarrow> call w = (a, w') \<Longrightarrow> w_events w' = [] \<Longrightarrow> calmly (syscall call) w a w'"
  by (simp add: calmly_def syscall_calm)

lemma calmly_check: "w_events w = [] \<Longrightarrow> calmly sys_check w (Inr ()) w"
  unfolding sys_check_def by (rule calmly_syscall) simp_all

lemma calmly_sync: "w_events w = [] \<Longrightarrow> \<exists>w'. calmly (journal_sync b) w (Inr ()) w'"
  unfolding journal_sync_def calmly_def by (simp add: syscall_calm)

lemma calmly_written:
  assumes "w_events w = []"
  shows "\<exists>w'. calmly (writeReceiptFile n r) w (Inr ()) w'"
proof -
  have "calmly (journal_rename n r) w (Inr ()) (journal_written n r w)"
    unfolding journal_rename_def by (rule calmly_syscall) (use assms in \<open>simp_all add: journal_written_def\<close>)
  moreover obtain w' where "calmly (journal_sync (is_receipt n)) (journal_written n r w) (Inr ()) w'"
    using calmly_sync [of "journal_written n r w"] assms by (auto simp: journal_written_def)
  ultimately show ?thesis
    unfolding writeReceiptFile_def using calmly_check [OF assms] calmly_try by metis
qed

lemma calmly_removed:
  assumes "w_events w = []"
  obtains x w' where "calmly (journal_remove n) w x w'" "x = Inr () \<or> x = Inl ErrNotExist" "journal w n \<noteq> None \<Longrightarrow> x = Inr ()"
proof (cases "journal w n")
  case None
  then have "calmly (journal_remove n) w (Inl ErrNotExist) w"
    unfolding journal_remove_def using assms by (intro calmly_syscall) simp_all
  then show thesis using None by (auto intro: that)
next
  case (Some r)
  then have "calmly (journal_remove n) w (Inr ()) (w\<lparr>w_journal := AList.delete n (w_journal w)\<rparr>)"
    unfolding journal_remove_def using assms by (intro calmly_syscall) simp_all
  then show thesis by (auto intro: that)
qed

lemma calmly_events: "calmly m w a w' \<Longrightarrow> w_events w' = []"
  by (simp add: calmly_def)

lemma calmly_complete:
  assumes "w_events w = []"
  shows "\<exists>w'. calmly (completeReceipt env r state status) w (Inr (receipt_completed env r state status)) w'"
proof -
  let ?r = "receipt_completed env r state status"
  obtain v where v: "calmly (writeReceiptFile (receiptName env (rr_ID ?r)) ?r) w (Inr ()) v" using calmly_written [OF assms] by blast
  obtain x u where x: "calmly (journal_remove pendingReceipt) v x u" "x = Inr () \<or> x = Inl ErrNotExist"
    using calmly_removed [OF calmly_events [OF v]] by blast
  obtain u' where u': "calmly (journal_sync False) u (Inr ()) u'" using calmly_sync [OF calmly_events [OF x(1)]] by blast
  have "calmly (io_try (journal_sync False) (\<lambda>_. io_return (Inr ?r))) u (Inr ?r) u'"
    by (rule calmly_try [OF u' calmly_return [OF calmly_events [OF u']]])
  with x(2) have "calmly (if x \<noteq> Inr () \<and> x \<noteq> Inl ErrNotExist then io_return (Inl ErrIO) else io_try (journal_sync False) (\<lambda>_. io_return (Inr ?r))) u (Inr ?r) u'"
    by auto
  then show ?thesis
    unfolding completeReceipt_def Let_def by (intro exI [of _ u']) (rule calmly_try [OF v calmly_bind [OF x(1)]])
qed

lemma calmly_stat:
  "w_events w = [] \<Longrightarrow> calmly (fs_stat p) w (case w_files w p of None \<Rightarrow> Inl ErrNotExist | Some f \<Rightarrow> Inr f) w"
  unfolding fs_stat_def by (rule calmly_syscall) simp_all

lemma calmly_remove:
  assumes "w_events w = []"
  obtains w' where "calmly (fs_remove p) w (if w_files w p = None then Inl ErrNotExist else Inr ()) w'"
  using assms that unfolding fs_remove_def calmly_def by (cases "w_files w p") (auto simp: syscall_calm)

text \<open>It ends with a result.\<close>

definition finishes :: "('e + 'a) io \<Rightarrow> world \<Rightarrow> bool" where
  "finishes m w \<longleftrightarrow> (\<exists>a w'. calmly m w (Inr a) w')"

lemma finishes_bind: "calmly m w a w' \<Longrightarrow> finishes (f a) w' \<Longrightarrow> finishes (io_bind m f) w"
  unfolding finishes_def by (blast intro: calmly_bind)

lemma finishes_try: "finishes m w \<Longrightarrow> (\<And>a w'. calmly m w (Inr a) w' \<Longrightarrow> finishes (f a) w') \<Longrightarrow> finishes (io_try m f) w"
  unfolding finishes_def by (blast intro: calmly_try)

lemma finishes_return: "w_events w = [] \<Longrightarrow> finishes (io_return (Inr a)) w"
  unfolding finishes_def by (blast intro: calmly_return)

lemma finishes_sync: "w_events w = [] \<Longrightarrow> finishes (fs_sync_upload i) w" "w_events w = [] \<Longrightarrow> finishes (journal_sync b) w"
  unfolding finishes_def fs_sync_upload_def journal_sync_def calmly_def by (simp_all add: syscall_calm)

lemma finishes_complete: "w_events w = [] \<Longrightarrow> finishes (completeReceipt env r state status) w"
  unfolding finishes_def using calmly_complete by blast

lemma finishes_target: "w_events w = [] \<Longrightarrow> finishes (recovered_target env r) w"
  unfolding recovered_target_def
  by (rule finishes_bind [OF calmly_stat])
     (auto intro!: finishes_return finishes_try finishes_sync dest: calmly_events split: option.split)

lemma finishes_discard:
  assumes "w_events w = []"
  shows "finishes (discard_receiving r) w"
proof -
  obtain w' where rm: "calmly (fs_remove (rr_Temporary r)) w (if w_files w (rr_Temporary r) = None then Inl ErrNotExist else Inr ()) w'"
    using calmly_remove [OF assms] .
  show ?thesis
    unfolding discard_receiving_def using finishes_return [OF assms]
    by (auto intro!: finishes_bind [OF rm] finishes_return [OF calmly_events [OF rm]])
qed

lemma finishes_outcome:
  assumes "w_events w = []" "resuming env r w"
  shows "finishes (recovered_outcome env r) w"
proof (cases "rr_State r = ''prepared''")
  case True
  have "has_prefix (path_Base (rr_Temporary r)) uploadPrefix"
    using resuming_pending [OF assms(2)] True by (auto simp: pending_ok_def record_ok_def)
  moreover from this have "path_Base (rr_Temporary r) \<noteq> ''.''" by (auto simp: uploadPrefix_def has_prefix_iff)
  moreover have "finishes (io_try (fs_remove (rr_Temporary r)) (\<lambda>_. io_return (Inr (''interrupted'', 408)))) w"
    if "w_files w (rr_Temporary r) \<noteq> None"
  proof (rule finishes_try)
    show "finishes (fs_remove (rr_Temporary r)) w"
      using calmly_remove [OF assms(1), of "rr_Temporary r"] that unfolding finishes_def by auto
  qed (auto intro: finishes_return dest: calmly_events)
  ultimately show ?thesis
    unfolding recovered_outcome_def using True finishes_target [OF assms(1)]
    by (auto intro!: finishes_bind [OF calmly_stat [OF assms(1)]] split: option.split)
next
  case False
  then have "rr_State r = ''receiving''" using resuming_pending [OF assms(2)] by (auto simp: pending_ok_def)
  then show ?thesis unfolding recovered_outcome_def using finishes_return [OF assms(1)] by simp
qed

text \<open>The journal can be read back: the JSON text of each record fits.\<close>

definition readable :: "upload_env \<Rightarrow> world \<Rightarrow> bool" where
  "readable env w \<longleftrightarrow> (\<forall>(n, r)\<in>set (w_journal w). ue_size env r \<le> 16384)"

lemma calmly_read:
  assumes "w_events w = []" "upload_inv env w" "readable env w" "\<And>b. length (ue_sha256 env b) = 32"
  shows "calmly (readReceiptFile env n) w (case journal w n of None \<Rightarrow> Inl ErrNotExist | Some r \<Rightarrow> Inr r) w"
  unfolding readReceiptFile_def
proof (rule calmly_syscall [OF assms(1) _ assms(1)])
  have "ue_size env r \<le> 16384 \<and> validUploadID (rr_ID r) \<and> length (rr_Fingerprint r) = 64" if "journal w n = Some r" for r
  proof -
    have "record_ok env r"
      using upload_invD(3) [OF assms(2) that] upload_invD(4) [OF assms(2), of r] that by (cases "n = pendingReceipt") (auto simp: pending_ok_def)
    moreover have "ue_size env r \<le> 16384" using map_of_SomeD [OF that] assms(3) by (auto simp: readable_def)
    ultimately show ?thesis using assms(4) by (auto simp: record_ok_def length_hex_encode)
  qed
  then show "(case journal w n of None \<Rightarrow> Inl ErrNotExist
      | Some record \<Rightarrow>
          if 16 * 1024 < ue_size env record then Inl ErrPermission
          else if \<not> validUploadID (rr_ID record) \<or> length (rr_Fingerprint record) \<noteq> 64 then Inl ErrJournal else Inr record, w)
      = (case journal w n of None \<Rightarrow> Inl ErrNotExist | Some r \<Rightarrow> Inr r, w)"
    by (auto split: option.split)
qed

lemma finishes_attempt:
  assumes "w_events w = []" "resuming env r w"
  shows "finishes (recover_attempt env r) w"
  unfolding recover_attempt_def
proof (rule finishes_try [OF finishes_discard [OF assms(1)]])
  fix u :: unit and v
  assume v: "calmly (discard_receiving r) w (Inr u) v"
  then have "resuming env r v" using spec_run [OF spec_discard_receiving assms(2)] by (auto simp: calmly_def)
  from finishes_outcome [OF calmly_events [OF v] this]
  show "finishes (io_try (recovered_outcome env r) (\<lambda>(state, status).
      io_try (completeReceipt env r state status) (\<lambda>_. io_return (Inr ())))) v"
  proof (rule finishes_try)
    fix p :: "string \<times> nat" and v'
    assume "calmly (recovered_outcome env r) v (Inr p) v'"
    then have "w_events v' = []" by (rule calmly_events)
    then show "finishes (case p of (state, status) \<Rightarrow> io_try (completeReceipt env r state status) (\<lambda>_. io_return (Inr ()))) v'"
      by (auto intro!: finishes_try [OF finishes_complete] finishes_return dest: calmly_events split: prod.split)
  qed
qed

lemma finishes_pending:
  assumes "w_events w = []" "upload_inv env w" "readable env w" "\<And>b. length (ue_sha256 env b) = 32"
    and "journal w pendingReceipt = Some r"
  shows "finishes (recover_pending env r) w"
proof -
  have rec: "recovering env r w" using assms(2,5) by (simp add: recovering_def)
  note read = calmly_read [OF assms(1-4), of "receiptName env (rr_ID r)"]
  show ?thesis
  proof (cases "journal w (receiptName env (rr_ID r))")
    case None
    have "finishes (recover_attempt env r) w"
      by (rule finishes_attempt [OF assms(1)]) (use rec None in \<open>simp add: resuming_def\<close>)
    moreover have "rr_Temporary r = [] \<or> has_prefix (path_Base (rr_Temporary r)) uploadPrefix"
      using recovering_pending [OF rec] by (auto simp: record_ok_def)
    ultimately show ?thesis
      unfolding recover_pending_def by (intro finishes_bind [OF read]) (auto simp: None)
  next
    case (Some t)
    have "rr_Fingerprint t = rr_Fingerprint r" using recovering_pending [OF rec] Some by (auto simp: pending_ok_def)
    moreover have "finishes (io_try (journal_remove pendingReceipt) (\<lambda>_. journal_sync False)) w"
    proof (rule finishes_try)
      show "finishes (journal_remove pendingReceipt) w"
        using calmly_removed [OF assms(1), of pendingReceipt] assms(5) unfolding finishes_def by (metis option.distinct(1))
    qed (auto intro: finishes_sync dest: calmly_events)
    ultimately show ?thesis
      unfolding recover_pending_def by (intro finishes_bind [OF read]) (auto simp: Some)
  qed
qed

lemma finishes_recover:
  assumes "w_events w = []" "upload_inv env w" "readable env w" "\<And>b. length (ue_sha256 env b) = 32"
  shows "finishes (recoverReceipt env) w"
  unfolding recoverReceipt_def using finishes_pending [OF assms]
  by (intro finishes_bind [OF calmly_read [OF assms]]) (auto intro: finishes_return [OF assms(1)] split: option.split)

section \<open>A history\<close>

text \<open>An upload of two bytes whose server stops right after the rename; a later lookup recovers it.\<close>

definition sample_env :: upload_env where
  "sample_env = \<lparr>ue_local = sample_local, ue_glob = (\<lambda>p c. p = c),
     ue_links = (\<lambda>files p. if p = ''/srv'' \<or> p = ''/srv/a'' \<and> files ''a'' \<noteq> None then Inr p else Inl ErrNotExist),
     ue_sha256 = (\<lambda>b. hd (b @ [CHR 0x00]) # replicate 31 (CHR 0x00)),
     ue_base64 = (\<lambda>s. Some (hd (s @ [CHR 0x00]) # replicate 31 (CHR 0x00))),
     ue_identity = concat, ue_size = (\<lambda>r. 400), ue_now = ''2026-01-01T00:00:00Z''\<rparr>"

definition sample_request :: upload_request where
  "sample_request = \<lparr>rq_path = ''/a'', rq_upload_id = ''0123456789abcdef'', rq_upload_length = ''2'', rq_content_length = 2,
     rq_content_digest = ''sha-256=:hi:'', rq_if_match = [], rq_if_none_match = [], rq_chunks = [''h'', ''i''],
     rq_body_error = None, rq_cancelled = False, rq_random = ''R''\<rparr>"

definition sample_webdav :: webdav where
  "sample_webdav = \<lparr>dv_refuses = None, dv_status = (\<lambda>e opened. if e = None then 201 else 500)\<rparr>"

definition sample_disk :: world where
  "sample_disk = \<lparr>w_files = (\<lambda>_. None), w_nextid = 0, w_journal = [], w_synced = [], w_receipts = [], w_renames = [],
     w_unsynced = [], w_events = []\<rparr>"

text \<open>The call after the first \<open>n\<close> fails, or is the last.\<close>

definition at_call :: "nat \<Rightarrow> call_outcome \<Rightarrow> (outside list \<times> call_outcome) list" where
  "at_call n outcome = replicate n ([], Goes) @ [([], outcome)]"

definition sample_stopped :: world where
  "sample_stopped = snd (serveMutation sample_env sample_webdav sample_request (sample_disk\<lparr>w_events := at_call 30 Dies\<rparr>))"

definition sample_recovered :: "put_response option \<times> world" where
  "sample_recovered = serveReceipt sample_env True ''/a'' ''0123456789abcdef'' (sample_stopped\<lparr>w_events := []\<rparr>)"

lemma sample_env_ok: "env_ok sample_env"
  unfolding env_ok_def by (rule exI [of _ "[''srv'']"]) (simp add: sample_env_def sample_local_def normal_def abs_path_def)

lemma sample_stops:
  "(case serveMutation sample_env sample_webdav sample_request (sample_disk\<lparr>w_events := at_call 30 Dies\<rparr>) of
      (a, w) \<Rightarrow> (a, map rr_State (map snd (w_journal w)), map rn_id (w_renames w)))
    = (None, [''prepared''], [''0123456789abcdef''])"
  by code_simp

lemma sample_stopped_run: "upload_run sample_env sample_stopped []"
proof -
  have "upload_run sample_env sample_disk []" by (rule upload_run.start) (simp_all add: sample_disk_def)
  moreover have "CHR ''/'' \<notin> set (rq_random sample_request)" by (simp add: sample_request_def)
  moreover have "serveMutation sample_env sample_webdav sample_request (sample_disk\<lparr>w_events := at_call 30 Dies\<rparr>) = (None, sample_stopped)"
    using sample_stops by (auto simp: sample_stopped_def split: prod.splits)
  ultimately show ?thesis
    using upload_run.put [of sample_env sample_disk "[]" sample_request _ _ None sample_stopped] by simp
qed

lemma sample_recovers: "(case fst sample_recovered of Some (PutReceipt r) \<Rightarrow> rr_State r | _ \<Rightarrow> []) = ''committed''"
  by code_simp

theorem upload_exactly_once_witness:
  "\<exists>w answers. upload_run sample_env w answers \<and> (\<exists>r\<in>final_receipts answers. rr_State r = ''committed'')
    \<and> distinct (map rn_id (w_renames w))
    \<and> (\<forall>r\<in>final_receipts answers.
          map_of (w_journal w) (receiptName sample_env (rr_ID r)) = Some r \<and> receipt_true sample_env w r)"
proof -
  obtain r where r: "fst sample_recovered = Some (PutReceipt r)" "rr_State r = ''committed''"
    using sample_recovers by (auto split: option.splits put_response.splits)
  have run: "upload_run sample_env (snd sample_recovered) [PutReceipt r]"
    using upload_run.lookup [OF sample_stopped_run, of True "''/a''" "''0123456789abcdef''" "[]" "fst sample_recovered" "snd sample_recovered"] r(1)
    by (simp add: sample_recovered_def)
  moreover have "\<exists>r\<in>final_receipts [PutReceipt r]. rr_State r = ''committed''" using r(2) by simp
  moreover note upload_exactly_once [OF sample_env_ok run]
  ultimately show ?thesis by blast
qed




section \<open>Two limits of the journal\<close>

text \<open>
  The record of an attempt is written whatever its size, and read back only up to sixteen kilobytes.
  Once a longer record is pending, every request to change the export fails.
\<close>

theorem oversized_record_blocks:
  assumes "map_of (w_journal w) pendingReceipt = Some r" "ue_size env r > 16384" "w_events w = []"
    and "\<not> fp_ReadOnly (lo_policy (ue_local env))"
  shows "serveMutation env dv rq w = (Some (PutError 503), w)"
  using assms
  by (simp add: serveMutation_def recoverReceipt_def readReceiptFile_def sys_check_def io_bind_def io_return_def syscall_calm)

text \<open>
  A loss of power leaves the journal as it was last synchronised. A recovery that finds the receipt
  of the pending attempt removes the pending record and synchronises that removal, and not the
  directory of the receipt. Here this synchronisation failed when the receipt was written, a lookup
  then recovers and answers that the upload is committed, the power is lost, and the same identifier
  replaces the file once more.
\<close>

definition power_loss :: "world \<Rightarrow> world" where
  "power_loss w = w\<lparr>w_journal := w_synced w, w_events := []\<rparr>"

theorem recovered_receipt_lost:
  "(case serveMutation sample_env sample_webdav sample_request (sample_disk\<lparr>w_events := at_call 34 Fails\<rparr>) of
      (_, w) \<Rightarrow>
    case serveReceipt sample_env True ''/a'' ''0123456789abcdef'' (w\<lparr>w_events := []\<rparr>) of
      (a, w) \<Rightarrow>
    case serveMutation sample_env sample_webdav sample_request (power_loss w) of
      (b, w) \<Rightarrow>
        ((case a of Some (PutReceipt r) \<Rightarrow> rr_State r | _ \<Rightarrow> []), map rn_id (w_renames w)))
    = (''committed'', [''0123456789abcdef'', ''0123456789abcdef''])"
  by code_simp

end
