(* ===== verification/Spec2Isabelle.thy ===== *)
theory Spec2Isabelle
  imports HandshakeSound Dial Socks5 PacketListener Turn Runner UploadSafe
begin

text \<open>
  A verification library for rstream-go, the client of a tunnel service: it publishes local services
  through an engine, gives end-to-end encrypted terminals (WebTTY), and exports directories. File names
  below are relative to \<^verbatim>\<open>src/\<close>.

  \<^bold>\<open>The program and its model.\<close>

  \<^item> \<^emph>\<open>Finding a path to the engine.\<close> \<^verbatim>\<open>Proxy\<close> models the choice of a proxy (\<^verbatim>\<open>proxy_config.go\<close>), \<^verbatim>\<open>Dial\<close> the
    resolution of addresses, the routes and the race between them (\<^verbatim>\<open>dns_resolution.go\<close>, \<^verbatim>\<open>dial_routes.go\<close>),
    \<^verbatim>\<open>Socks5\<close> the SOCKS5 client and its UDP relay (\<^verbatim>\<open>socks5_proxy.go\<close>), \<^verbatim>\<open>Turn\<close> the TURN credentials
    (\<^verbatim>\<open>turn.go\<close>, \<^verbatim>\<open>turn_client.go\<close>, \<^verbatim>\<open>turn_app.go\<close>).
  \<^item> \<^emph>\<open>Tunnels.\<close> \<^verbatim>\<open>Tunnel\<close> models the properties of a tunnel, their wire form, the addresses shown for them
    and stable domains (\<^verbatim>\<open>tunnel_properties.go\<close>, \<^verbatim>\<open>helpers.go\<close>, \<^verbatim>\<open>stable_domains.go\<close>), over \<^verbatim>\<open>Cors\<close>, the CORS
    policy of an HTTP tunnel (\<^verbatim>\<open>httpcors/cors.go\<close>). \<^verbatim>\<open>Wire\<close> has the frames of messages and \<^verbatim>\<open>PacketListener\<close>
    the datagram socket over accepted connections (\<^verbatim>\<open>net.go\<close>, \<^verbatim>\<open>packet_deadline.go\<close>).
  \<^item> \<^emph>\<open>The run command.\<close> \<^verbatim>\<open>Reconciler\<close> brings the running tunnels to a desired list
    (\<^verbatim>\<open>cmd/rstream/internal/reconciler\<close>, \<^verbatim>\<open>runmodel\<close>); \<^verbatim>\<open>Runner\<close> is the starter behind it, with its retry and accept
    loops (\<^verbatim>\<open>runengine\<close>, \<^verbatim>\<open>netretry\<close>, \<^verbatim>\<open>engine_error.go\<close>). The runner gives every tunnel it starts the stable
    domain of \<^verbatim>\<open>Tunnel\<close>.
  \<^item> \<^emph>\<open>WebTTY.\<close> \<^verbatim>\<open>Transcripts\<close> has the byte strings that are signed or authenticated, \<^verbatim>\<open>KeyMaterial\<close> the text of
    keys, \<^verbatim>\<open>Suites\<close> the cipher suites of a build profile, \<^verbatim>\<open>E2E\<close> the payload encryption
    (\<^verbatim>\<open>webtty/e2e_crypto.go\<close>), \<^verbatim>\<open>Identity\<close> and \<^verbatim>\<open>TrustStore\<close> identities and the files that carry them
    (\<^verbatim>\<open>e2e_identity_file.go\<close>, \<^verbatim>\<open>endpoint_identity.go\<close>, \<^verbatim>\<open>authorized_clients_file.go\<close>), \<^verbatim>\<open>Handshake\<close> the two sides of the
    handshake (\<^verbatim>\<open>auth_handshake.go\<close>).
  \<^item> \<^emph>\<open>File export.\<close> \<^verbatim>\<open>Paths\<close> models which paths are served (\<^verbatim>\<open>filesystem/filesystem.go\<close>), \<^verbatim>\<open>Revision\<close> conditional
    requests (\<^verbatim>\<open>preconditions.go\<close>), \<^verbatim>\<open>Upload\<close> durable uploads with their journal and receipts (\<^verbatim>\<open>receipts.go\<close>,
    \<^verbatim>\<open>atomic_upload.go\<close>, \<^verbatim>\<open>journal.go\<close>).

  \<^verbatim>\<open>Prelude\<close>, \<^verbatim>\<open>Hex\<close> and \<^verbatim>\<open>Duration\<close> hold what the components share: results, the Go string functions in use,
  host and port syntax, big-endian integers, hexadecimal text and 64-bit durations.

  \<^bold>\<open>How code becomes definitions.\<close> A struct is a record with a field prefix, a pointer an option, a byte
  slice or string a list of characters, a Go map an association list or a partial function. A fallible
  function returns an error datatype of its component on the left of a sum. Definitions keep the names of
  the code; a function split into parts has parts with descriptive names. Machine integers are words, or
  integers with \<^verbatim>\<open>wrap64\<close> where the code computes durations. Goroutines and interference are step
  relations (\<^verbatim>\<open>race_step\<close>, \<^verbatim>\<open>pl_step\<close>, \<^verbatim>\<open>run_step\<close>, \<^verbatim>\<open>upload_run\<close>); the order in which Go visits a map is an
  argument. Cryptographic primitives, URL and address parsing, DNS, the environment, random bytes and the
  remote services are arguments; what is assumed of them is a named predicate or premise, with concrete
  instances in the witnesses.

  \<^bold>\<open>What is shown.\<close>

  \<^item> WebTTY: honest sides complete the handshake (\<^verbatim>\<open>HandshakeProps\<close>); an accepted proof is fresh, authorised,
    bound to one session and never an attach proof, and a hello cannot be altered (\<^verbatim>\<open>HandshakeSound\<close>);
    transcripts determine their fields and roles are disjoint (\<^verbatim>\<open>Transcripts\<close>); both sides decrypt each
    other's payloads, nothing decrypts under another label, profiles are enforced and no nonce makes the
    cipher panic (\<^verbatim>\<open>E2EProps\<close>); texts and documents round trip and tables are consistent (\<^verbatim>\<open>TrustProps\<close>,
    \<^verbatim>\<open>KeyMaterial\<close>).
  \<^item> Uploads: \<^verbatim>\<open>UploadProps\<close> has a logic for operations in which every system call can fail or be the last,
    while other programs change the export; \<^verbatim>\<open>UploadServe\<close> has the specifications of the operations;
    \<^verbatim>\<open>UploadSafe\<close> shows that over any history an identifier replaces a file at most once and final receipts
    stay true, and that a recovery without failures completes.
  \<^item> The run command: a reconciliation refines one update of an assignment of tunnels to names, the
    reconciler owns what it starts, waits follow the capped exponential schedule without overflow, and a
    stable domain never makes properties unacceptable.
  \<^item> Networking: races end, join what they started and close what they do not return; routes enumerate
    targets and proxies; addresses alternate between families; the SOCKS5 client sends credentials only
    when asked; replies go to the connection a packet came from; frames round trip within their limit;
    CORS headers are exactly the policy's; token-derived credentials do not outlive the token.
  \<^item> File export: served paths stay inside the export and off its reserved names; conditional requests
    are decided as the grammar of entity tags says.

  \<^bold>\<open>Interfaces.\<close> \<^verbatim>\<open>prefix_code\<close> (\<^verbatim>\<open>Wire\<close>) is the contract of a self-delimiting encoding, interpreted for integers,
  blobs, counted lists and label pairs; \<^verbatim>\<open>crash_logic\<close> (\<^verbatim>\<open>UploadProps\<close>) the rules of operations that may end at
  any call, interpreted for the invariant of uploads; \<^verbatim>\<open>keyed_loop\<close> (\<^verbatim>\<open>Reconciler\<close>) a loop over a map whose body
  changes its own entry only, interpreted for both loops of a reconciliation; \<^verbatim>\<open>stopping_starter\<close>
  (\<^verbatim>\<open>Reconciler\<close>) a starter whose handles stop, interpreted for the runner.

  \<^bold>\<open>Bounds.\<close> No definition takes fuel: loops are structural, or terminate by a measure
  (\<^verbatim>\<open>trim_left\<close>, \<^verbatim>\<open>match_loop\<close>, \<^verbatim>\<open>read_all\<close>). The run and accept loops, which need not end, are functions of the list of
  what happens to them, of any length. The number of steps of a race is bounded by a theorem.
  Lower-casing is that of ASCII, exact for the names in which it is used, and for engine hosts also covers
  the two other runes that have an ASCII lower case.

  \<^bold>\<open>Limits of the code found on the way.\<close> \<^verbatim>\<open>oversized_record_blocks\<close> and \<^verbatim>\<open>recovered_receipt_lost\<close> (\<^verbatim>\<open>UploadSafe\<close>),
  \<^verbatim>\<open>turn_expiry_overflow\<close> (\<^verbatim>\<open>Turn\<close>) and \<^verbatim>\<open>stop_answered_early\<close> (\<^verbatim>\<open>Reconciler\<close>).

  \<^bold>\<open>Not modelled.\<close> The control channel, TLS, QUIC, MASQUE and HTTP/3 transports and encrypted client hello, which
  are third-party sockets driven by goroutines; terminals, processes and the message loops of WebTTY
  sessions, listing and moving files, the WebRTC and HTTP servers of exports, which are input and output;
  locking and modes of key files; the commands, configuration files, container labels, the control plane
  client and diagnostics, which parse, print and call services; generated protocol code, of which only
  the fields of the tunnel properties appear; examples and tests. Aliasing of Go values is not
  modelled: what the code copies is a value here.
\<close>

end
